(* ===== verification/Kaana_Prelude.thy ===== *)
theory Kaana_Prelude
  imports Main "HOL-Library.Signed_Division"
begin

text \<open>
  Shared vocabulary of the development: instants and durations as Go's \<open>time\<close> package
  computes them, 64-bit integer wrap-around, and the generic lemmas on lists, options and
  maps that the component theories use.

  An instant is an integer count of nanoseconds since Go's zero \<open>time.Time\<close>, so the zero
  value (\<open>IsZero\<close>) is \<open>0\<close> and every real clock reading is positive. A duration is an
  integer count of nanoseconds; where the source does arithmetic on an \<open>int64\<close> that can
  leave the 64-bit range, the model applies \<open>int64\<close>, the two's complement wrap-around.
\<close>

type_synonym instant = int
type_synonym duration = int

text \<open>
  The identifiers of \<open>internal/contract/ids.go\<close>. Each is a distinct Go string type; the
  model keeps the names and the byte string.
\<close>

type_synonym request_id = string
type_synonym deployment_id = string
type_synonym provider_slug = string
type_synonym model_reference = string
type_synonym model_id = string
type_synonym region = string

named_theorems go_arith \<open>rewrite rules for instants, durations and 64-bit integers\<close>
named_theorems vocabulary \<open>definitions of closed vocabularies and their tables\<close>

section \<open>64-bit integers\<close>

definition int64 :: "int \<Rightarrow> int" where
  "int64 x = signed_take_bit 63 x"

abbreviation max_int64 :: int where
  "max_int64 \<equiv> 9223372036854775807"

abbreviation min_int64 :: int where
  "min_int64 \<equiv> - 9223372036854775808"

lemma int64_id [go_arith]:
  "min_int64 \<le> x \<Longrightarrow> x \<le> max_int64 \<Longrightarrow> int64 x = x"
  unfolding int64_def by (rule signed_take_bit_int_eq_self) simp_all

lemma int64_range: "min_int64 \<le> int64 x \<and> int64 x \<le> max_int64"
proof -
  have "- (2 ^ 63) \<le> signed_take_bit 63 x"
    by (rule signed_take_bit_int_greater_eq_minus_exp)
  moreover have "signed_take_bit 63 x < 2 ^ 63"
    by (rule signed_take_bit_int_less_exp)
  ultimately show ?thesis by (simp add: int64_def)
qed

lemma int64_cong: "\<exists>k. int64 x = x + k * 2 ^ 64"
proof -
  have "int64 x = (x + 2 ^ 63) mod 2 ^ 64 - 2 ^ 63"
    unfolding int64_def by (simp add: signed_take_bit_eq_take_bit_shift take_bit_eq_mod)
  also have "\<dots> = x + (- ((x + 2 ^ 63) div 2 ^ 64)) * 2 ^ 64"
    by (simp add: minus_div_mult_eq_mod [symmetric] algebra_simps)
  finally show ?thesis by blast
qed

section \<open>Instants and durations\<close>

abbreviation (input) zero_time :: instant where
  "zero_time \<equiv> 0"

definition millisecond :: duration where [go_arith]: "millisecond = 1000000"

definition second :: duration where [go_arith]: "second = 1000000000"

definition minute :: duration where [go_arith]: "minute = 60 * second"

definition hour :: duration where [go_arith]: "hour = 60 * minute"

text \<open>\<open>Time.Sub\<close> saturates at the ends of the 64-bit range rather than wrapping.\<close>

definition time_sub :: "instant \<Rightarrow> instant \<Rightarrow> duration" where
  "time_sub t u = max min_int64 (min max_int64 (t - u))"

text \<open>\<open>Duration.Milliseconds\<close> divides and truncates towards zero, as Go's \<open>/\<close> does.\<close>

definition milliseconds :: "duration \<Rightarrow> int" where
  "milliseconds d = d sdiv 1000000"

lemma time_sub_exact [go_arith]:
  "min_int64 \<le> t - u \<Longrightarrow> t - u \<le> max_int64 \<Longrightarrow> time_sub t u = t - u"
  by (simp add: time_sub_def)

lemma time_sub_neg_iff: "time_sub t u < 0 \<longleftrightarrow> t < u"
  by (auto simp: time_sub_def max_def min_def)

lemma time_sub_le_iff_zero: "time_sub t u \<le> 0 \<longleftrightarrow> t \<le> u"
  by (auto simp: time_sub_def max_def min_def)

lemma milliseconds_nonneg: "0 \<le> d \<Longrightarrow> milliseconds d = d div 1000000"
  by (cases "d = 0") (simp_all add: milliseconds_def signed_divide_int_def)

section \<open>Lists, options and maps\<close>

definition is_member :: "'a \<Rightarrow> 'a list \<Rightarrow> bool" where
  "is_member x allowed \<longleftrightarrow> x \<in> set allowed"

lemma is_member_code [code]:
  "is_member x [] \<longleftrightarrow> False"
  "is_member x (y # ys) \<longleftrightarrow> x = y \<or> is_member x ys"
  by (auto simp: is_member_def)

lemma map_of_filter_other:
  "k \<noteq> x \<Longrightarrow> map_of (filter (\<lambda>(y, _). y \<noteq> x) m) k = map_of m k"
  by (induction m) auto

lemma distinct_filter_snoc:
  "distinct xs \<Longrightarrow> x \<notin> set xs \<Longrightarrow> distinct (xs @ [x])"
  by simp

lemma find_SomeD: "find p xs = Some x \<Longrightarrow> x \<in> set xs \<and> p x"
  by (induction xs) (auto split: if_splits)

lemma find_NoneD: "find p xs = None \<Longrightarrow> x \<in> set xs \<Longrightarrow> \<not> p x"
  by (induction xs) (auto split: if_splits)

lemma length_filter_mono:
  "(\<And>y. y \<in> set xs \<Longrightarrow> q y \<Longrightarrow> p y) \<Longrightarrow> length (filter q xs) \<le> length (filter p xs)"
  by (induction xs) (auto simp: le_SucI)

lemma length_filter_less:
  assumes "x \<in> set xs" and "p x" and "\<not> q x" and "\<And>y. y \<in> set xs \<Longrightarrow> q y \<Longrightarrow> p y"
  shows "length (filter q xs) < length (filter p xs)"
proof -
  from assms(1) obtain ys zs where xs: "xs = ys @ x # zs"
    by (meson split_list)
  have "length (filter q ys) \<le> length (filter p ys)"
    using assms(4) by (auto simp: xs intro!: length_filter_mono)
  moreover have "length (filter q zs) \<le> length (filter p zs)"
    using assms(4) by (auto simp: xs intro!: length_filter_mono)
  ultimately show ?thesis using assms(2,3) by (simp add: xs)
qed

end
