(* ===== verification/Go_Strings.thy ===== *)
theory Go_Strings
  imports Kaana_Prelude "HOL-Library.Sublist" "HOL-Library.Char_ord"
begin

text \<open>
  The parts of Go's \<open>strings\<close>, \<open>utf8\<close> and \<open>regexp\<close> packages the source uses. A Go string is a
  sequence of bytes, and so is a HOL \<open>string\<close>. Trimming and regular expressions are given for
  ASCII: a byte of 128 or more is a character of its own that belongs to no named class, where
  Go would first decode a rune.
\<close>

section \<open>Characters\<close>

definition byte_of :: "char \<Rightarrow> nat" where
  "byte_of c = of_char c"

definition in_range :: "char \<Rightarrow> char \<Rightarrow> char \<Rightarrow> bool" where
  "in_range lo hi c \<longleftrightarrow> byte_of lo \<le> byte_of c \<and> byte_of c \<le> byte_of hi"

definition is_digit :: "char \<Rightarrow> bool" where
  "is_digit c \<longleftrightarrow> in_range (CHR ''0'') (CHR ''9'') c"

definition is_lower :: "char \<Rightarrow> bool" where
  "is_lower c \<longleftrightarrow> in_range (CHR ''a'') (CHR ''z'') c"

definition is_upper :: "char \<Rightarrow> bool" where
  "is_upper c \<longleftrightarrow> in_range (CHR ''A'') (CHR ''Z'') c"

definition is_alnum :: "char \<Rightarrow> bool" where
  "is_alnum c \<longleftrightarrow> is_digit c \<or> is_lower c \<or> is_upper c"

definition is_space :: "char \<Rightarrow> bool" where
  "is_space c \<longleftrightarrow> byte_of c \<in> {9, 10, 11, 12, 13, 32}"

definition digit_value :: "char \<Rightarrow> nat" where
  "digit_value c = byte_of c - 48"

definition lower_char :: "char \<Rightarrow> char" where
  "lower_char c = (if is_upper c then char_of (byte_of c + 32) else c)"

lemmas char_class_defs = in_range_def is_digit_def is_lower_def is_upper_def is_alnum_def is_space_def byte_of_def

section \<open>Searching, cutting and replacing\<close>

definition has_prefix :: "string \<Rightarrow> string \<Rightarrow> bool" where
  "has_prefix s p \<longleftrightarrow> take (length p) s = p"

fun strings_index :: "string \<Rightarrow> string \<Rightarrow> nat option" where
  "strings_index [] p = (if p = [] then Some 0 else None)"
| "strings_index (c # cs) p =
     (if has_prefix (c # cs) p then Some 0 else map_option Suc (strings_index cs p))"

definition strings_contains :: "string \<Rightarrow> string \<Rightarrow> bool" where
  "strings_contains s p \<longleftrightarrow> strings_index s p \<noteq> None"

definition strings_cut :: "string \<Rightarrow> string \<Rightarrow> string \<times> string \<times> bool" where
  "strings_cut s p =
     (case strings_index s p of
        None \<Rightarrow> (s, [], False)
      | Some i \<Rightarrow> (take i s, drop (i + length p) s, True))"

function replace_all :: "string \<Rightarrow> string \<Rightarrow> string \<Rightarrow> string" where
  "replace_all [] p q = []"
| "replace_all (c # cs) p q =
     (if p \<noteq> [] \<and> has_prefix (c # cs) p then q @ replace_all (drop (length p) (c # cs)) p q
      else c # replace_all cs p q)"
  by pat_completeness auto
termination
  by (relation "measure (\<lambda>(s, p, q). length s)") (auto simp: neq_Nil_conv)

definition trim_left :: "(char \<Rightarrow> bool) \<Rightarrow> string \<Rightarrow> string" where
  "trim_left p s = dropWhile p s"

definition trim_right :: "(char \<Rightarrow> bool) \<Rightarrow> string \<Rightarrow> string" where
  "trim_right p s = rev (dropWhile p (rev s))"

definition trim_space :: "string \<Rightarrow> string" where
  "trim_space s = trim_right is_space (trim_left is_space s)"

lemma has_prefix_iff: "has_prefix s p \<longleftrightarrow> (\<exists>t. s = p @ t)"
  unfolding has_prefix_def by (metis append_eq_conv_conj append_take_drop_id)

lemma strings_index_SomeD:
  "strings_index s p = Some i \<Longrightarrow> \<exists>t. s = take i s @ p @ t \<and> i \<le> length s"
proof (induction s arbitrary: i)
  case (Cons c cs)
  show ?case
  proof (cases "has_prefix (c # cs) p")
    case True
    with Cons.prems show ?thesis by (auto simp: has_prefix_iff)
  next
    case False
    with Cons.prems obtain j where "i = Suc j" "strings_index cs p = Some j" by auto
    with Cons.IH [of j] show ?thesis by auto
  qed
qed (auto split: if_splits)

lemma strings_index_None: "strings_index s p = None \<Longrightarrow> s \<noteq> u @ p @ t"
proof (induction s arbitrary: u)
  case (Cons c cs)
  then show ?case by (cases u) (auto simp: has_prefix_iff split: if_splits)
qed (auto split: if_splits)

lemma strings_contains_iff: "strings_contains s p \<longleftrightarrow> (\<exists>u t. s = u @ p @ t)"
  unfolding strings_contains_def
  by (metis strings_index_None strings_index_SomeD not_None_eq)

lemma strings_contains_sublist: "strings_contains s p \<longleftrightarrow> sublist p s"
  by (simp add: strings_contains_iff sublist_def)

lemma has_prefix_Cons_drop:
  "p \<noteq> [] \<Longrightarrow> has_prefix (c # cs) p \<Longrightarrow> length (drop (length p) (c # cs)) < length (c # cs)"
  by (cases p) auto

lemma trim_space_length: "length (trim_space s) \<le> length s"
  unfolding trim_space_def trim_right_def trim_left_def
  by (metis length_dropWhile_le length_rev order_trans)

section \<open>UTF-8\<close>

definition continuation_byte :: "char \<Rightarrow> bool" where
  "continuation_byte c \<longleftrightarrow> 128 \<le> byte_of c \<and> byte_of c \<le> 191"

text \<open>The width of the valid rune a byte sequence starts with, if it starts with one.\<close>

fun rune_width :: "string \<Rightarrow> nat option" where
  "rune_width [] = None"
| "rune_width (c # cs) =
     (let b = byte_of c
      in if b < 128 then Some 1
         else if 194 \<le> b \<and> b \<le> 223 then
           (case cs of c1 # _ \<Rightarrow> if continuation_byte c1 then Some 2 else None | [] \<Rightarrow> None)
         else if 224 \<le> b \<and> b \<le> 239 then
           (case cs of
              c1 # c2 # _ \<Rightarrow>
                (if continuation_byte c1 \<and> continuation_byte c2 \<and> (b = 224 \<longrightarrow> 160 \<le> byte_of c1) \<and>
                    (b = 237 \<longrightarrow> byte_of c1 \<le> 159) then Some 3 else None)
            | _ \<Rightarrow> None)
         else if 240 \<le> b \<and> b \<le> 244 then
           (case cs of
              c1 # c2 # c3 # _ \<Rightarrow>
                (if continuation_byte c1 \<and> continuation_byte c2 \<and> continuation_byte c3 \<and>
                    (b = 240 \<longrightarrow> 144 \<le> byte_of c1) \<and> (b = 244 \<longrightarrow> byte_of c1 \<le> 143)
                 then Some 4 else None)
            | _ \<Rightarrow> None)
         else None)"

lemma rune_width_bounds: "rune_width s = Some w \<Longrightarrow> 0 < w \<and> w \<le> length s"
  by (cases s) (auto simp: Let_def split: if_splits list.splits)

text \<open>\<open>strings.ToValidUTF8 (s, "")\<close>: every byte that is not part of a valid rune is dropped.\<close>

function to_valid_utf8 :: "string \<Rightarrow> string" where
  "to_valid_utf8 [] = []"
| "to_valid_utf8 (c # cs) =
     (case rune_width (c # cs) of
        Some w \<Rightarrow> take w (c # cs) @ to_valid_utf8 (drop w (c # cs))
      | None \<Rightarrow> to_valid_utf8 cs)"
  by pat_completeness auto
termination
  by (relation "measure length") (auto simp del: rune_width.simps dest: rune_width_bounds)

function valid_utf8 :: "string \<Rightarrow> bool" where
  "valid_utf8 [] \<longleftrightarrow> True"
| "valid_utf8 (c # cs) \<longleftrightarrow>
     (case rune_width (c # cs) of Some w \<Rightarrow> valid_utf8 (drop w (c # cs)) | None \<Rightarrow> False)"
  by pat_completeness auto
termination
  by (relation "measure length") (auto simp del: rune_width.simps dest: rune_width_bounds)

lemma rune_width_take:
  "rune_width s = Some w \<Longrightarrow> rune_width (take w s @ t) = Some w"
  by (cases s) (auto simp: Let_def split: if_splits list.splits)

lemma valid_utf8_append_rune:
  assumes "rune_width s = Some w" and "valid_utf8 t"
  shows "valid_utf8 (take w s @ t)"
proof -
  note w = rune_width_bounds [OF assms(1)]
  then have l: "length (take w s) = w" by simp
  from w obtain c cs where s: "take w s = c # cs" by (cases "take w s") auto
  have "rune_width (c # cs @ t) = Some w" using rune_width_take [OF assms(1), of t] s by simp
  moreover have "drop w (c # cs @ t) = t" using s l by (metis append_Cons append_eq_conv_conj)
  ultimately show ?thesis using assms(2) by (simp add: s)
qed

lemma to_valid_utf8_valid: "valid_utf8 (to_valid_utf8 s)"
  by (induction s rule: to_valid_utf8.induct)
    (auto split: option.split simp del: valid_utf8.simps(2) rune_width.simps simp: valid_utf8_append_rune)

lemma to_valid_utf8_length: "length (to_valid_utf8 s) \<le> length s"
proof (induction s rule: to_valid_utf8.induct)
  case (2 c cs)
  show ?case
  proof (cases "rune_width (c # cs)")
    case None
    with 2 show ?thesis by simp
  next
    case (Some w)
    from rune_width_bounds [OF Some] 2(2) [OF Some] show ?thesis
      by (auto simp: Some simp del: rune_width.simps)
  qed
qed simp

end
