(* ===== verification/Go_Regexp.thy ===== *)
theory Go_Regexp
  imports Go_Strings
begin

text \<open>
  Go's \<open>regexp\<close> package: leftmost-first matching, the semantics a backtracking matcher gives.
  A matcher returns its possible ends in order of preference, so the match Go reports is the
  first one. One capture group is kept, which is as many as the source's patterns read.
\<close>

datatype regex =
    REmpty
  | RChar "char \<Rightarrow> bool"
  | RSeq regex regex
  | RAlt regex regex
  | RRepeat nat "nat option" regex
  | RGroup regex
  | RBegin
  | REnd
  | RWordBoundary

record cursor =
  cu_before :: string
  cu_rest :: string
  cu_group :: "string option"

definition is_word :: "char \<Rightarrow> bool" where
  "is_word c \<longleftrightarrow> is_alnum c \<or> c = CHR ''_''"

definition at_word_boundary :: "cursor \<Rightarrow> bool" where
  "at_word_boundary x \<longleftrightarrow>
     (case cu_before x of [] \<Rightarrow> False | c # _ \<Rightarrow> is_word c) \<noteq>
     (case cu_rest x of [] \<Rightarrow> False | c # _ \<Rightarrow> is_word c)"

fun step_char :: "(char \<Rightarrow> bool) \<Rightarrow> cursor \<Rightarrow> cursor list" where
  "step_char p x =
     (case cu_rest x of
        [] \<Rightarrow> []
      | c # cs \<Rightarrow> if p c then [x\<lparr>cu_before := c # cu_before x, cu_rest := cs\<rparr>] else [])"

text \<open>
  Greedy repetition: more iterations are preferred. An iteration that consumed nothing is not
  repeated, so as many iterations as there are characters left, and the required ones, are
  enough.
\<close>

fun repeat_run :: "(cursor \<Rightarrow> cursor list) \<Rightarrow> nat \<Rightarrow> nat \<Rightarrow> nat option \<Rightarrow> cursor \<Rightarrow> cursor list" where
  "repeat_run f 0 lo hi x = (if lo = 0 then [x] else [])"
| "repeat_run f (Suc n) lo hi x =
     (if hi = Some 0 then []
      else concat (map (\<lambda>y. if lo = 0 \<and> cu_rest y = cu_rest x then []
                            else repeat_run f n (lo - 1) (map_option (\<lambda>h. h - 1) hi) y) (f x)))
     @ (if lo = 0 then [x] else [])"

primrec regex_run :: "regex \<Rightarrow> cursor \<Rightarrow> cursor list" where
  "regex_run REmpty x = [x]"
| "regex_run (RChar p) x = step_char p x"
| "regex_run (RSeq a b) x = concat (map (regex_run b) (regex_run a x))"
| "regex_run (RAlt a b) x = regex_run a x @ regex_run b x"
| "regex_run (RRepeat lo hi a) x = repeat_run (regex_run a) (Suc (length (cu_rest x)) + lo) lo hi x"
| "regex_run (RGroup a) x =
     map (\<lambda>y. y\<lparr>cu_group := Some (take (length (cu_rest x) - length (cu_rest y)) (cu_rest x))\<rparr>)
       (regex_run a x)"
| "regex_run RBegin x = (if cu_before x = [] then [x] else [])"
| "regex_run REnd x = (if cu_rest x = [] then [x] else [])"
| "regex_run RWordBoundary x = (if at_word_boundary x then [x] else [])"

definition cursor_at :: "string \<Rightarrow> string \<Rightarrow> cursor" where
  "cursor_at prev rest = \<lparr>cu_before = prev, cu_rest = rest, cu_group = None\<rparr>"

text \<open>The leftmost match at or after a position, as the cursor at its end.\<close>

fun find_from :: "regex \<Rightarrow> string \<Rightarrow> string \<Rightarrow> cursor option" where
  "find_from re prev [] =
     (case regex_run re (cursor_at prev []) of [] \<Rightarrow> None | y # _ \<Rightarrow> Some y)"
| "find_from re prev (c # cs) =
     (case regex_run re (cursor_at prev (c # cs)) of
        [] \<Rightarrow> find_from re (c # prev) cs
      | y # _ \<Rightarrow> Some y)"

definition match_string :: "regex \<Rightarrow> string \<Rightarrow> bool" where
  "match_string re s \<longleftrightarrow> find_from re [] s \<noteq> None"

text \<open>
  \<open>FindAllStringSubmatch (s, -1)\<close>: the groups of the successive matches that do not overlap. No
  pattern of the source matches the empty string, and the scan stops at a match that consumed
  nothing.
\<close>

fun find_groups :: "nat \<Rightarrow> regex \<Rightarrow> string \<Rightarrow> string \<Rightarrow> string list" where
  "find_groups 0 re prev rest = []"
| "find_groups (Suc n) re prev rest =
     (case find_from re prev rest of
        None \<Rightarrow> []
      | Some y \<Rightarrow>
          (case cu_group y of Some g \<Rightarrow> g | None \<Rightarrow> []) #
          (if length (cu_rest y) < length rest then find_groups n re (cu_before y) (cu_rest y) else []))"

definition find_all_groups :: "regex \<Rightarrow> string \<Rightarrow> string list" where
  "find_all_groups re s = find_groups (Suc (length s)) re [] s"

section \<open>Writing patterns\<close>

fun rlit :: "string \<Rightarrow> regex" where
  "rlit [] = REmpty"
| "rlit [c] = RChar (\<lambda>x. x = c)"
| "rlit (c # cs) = RSeq (RChar (\<lambda>x. x = c)) (rlit cs)"

text \<open>A literal under the \<open>(?i)\<close> flag; the literal is written in lower case.\<close>

fun rfold :: "string \<Rightarrow> regex" where
  "rfold [] = REmpty"
| "rfold [c] = RChar (\<lambda>x. lower_char x = c)"
| "rfold (c # cs) = RSeq (RChar (\<lambda>x. lower_char x = c)) (rfold cs)"

fun rseq :: "regex list \<Rightarrow> regex" where
  "rseq [] = REmpty"
| "rseq [a] = a"
| "rseq (a # as) = RSeq a (rseq as)"

fun ralt :: "regex list \<Rightarrow> regex" where
  "ralt [] = RChar (\<lambda>x. False)"
| "ralt [a] = a"
| "ralt (a # as) = RAlt a (ralt as)"

definition rstar :: "(char \<Rightarrow> bool) \<Rightarrow> regex" where
  "rstar p = RRepeat 0 None (RChar p)"

definition ropt :: "regex \<Rightarrow> regex" where
  "ropt a = RRepeat 0 (Some 1) a"

definition ratleast :: "nat \<Rightarrow> (char \<Rightarrow> bool) \<Rightarrow> regex" where
  "ratleast n p = RRepeat n None (RChar p)"

section \<open>Lemmas\<close>

text \<open>A cursor only moves forward over the text it was given.\<close>

definition cursor_text :: "cursor \<Rightarrow> string" where
  "cursor_text x = rev (cu_before x) @ cu_rest x"

end
