(* ===== verification/Contract_Errors.thy ===== *)
theory Contract_Errors
  imports Go_Regexp
begin

text \<open>
  \<open>internal/contract/errors.go\<close> and the vocabulary of \<open>internal/contract/enums.go\<close> it uses: the
  closed set of error codes, which of them an identical retry can survive, the refusal of text
  that looks like a credential, and the error body every surface returns.
\<close>

section \<open>Vocabulary\<close>

datatype error_code =
    CodeInvalidRequest | CodeAuthenticationFailed | CodePermissionDenied | CodeInsufficientScope
  | CodeModelNotFound | CodeUnsupportedModality | CodeContextLengthExceeded | CodeRequestTooLarge
  | CodeOutputLimitExceeded | CodeIdempotencyConflict | CodeInsufficientBalance
  | CodeSpendingLimitExceeded | CodeQuotaExceeded | CodeBYOKCredentialInvalid | CodePolicyViolation
  | CodeCommercialPermissionDenied | CodeNoRouteAvailable | CodeUpstreamContentFiltered
  | CodeCancelled | CodeRateLimited | CodeDeploymentUnavailable | CodeProviderError
  | CodeProviderTimeout | CodeProviderOverloaded | CodeProviderCredentialInvalid
  | CodeProviderBillingRefused | CodeServiceUnavailable | CodeInternalError

datatype upstream_category =
    UpstreamRateLimit | UpstreamQuota | UpstreamTimeout | UpstreamOverloaded | UpstreamServerError
  | UpstreamContentFilter | UpstreamInvalidReq | UpstreamAuthentication | UpstreamUnknown

definition nonRetryableErrorCodes :: "error_code list" where
  "nonRetryableErrorCodes =
     [CodeInvalidRequest, CodeAuthenticationFailed, CodePermissionDenied, CodeInsufficientScope,
      CodeModelNotFound, CodeUnsupportedModality, CodeContextLengthExceeded, CodeRequestTooLarge,
      CodeOutputLimitExceeded, CodeIdempotencyConflict, CodeInsufficientBalance,
      CodeSpendingLimitExceeded, CodeQuotaExceeded, CodeBYOKCredentialInvalid, CodePolicyViolation,
      CodeCommercialPermissionDenied, CodeNoRouteAvailable, CodeUpstreamContentFiltered, CodeCancelled,
      CodeProviderCredentialInvalid, CodeProviderBillingRefused]"

definition Retryable :: "error_code \<Rightarrow> bool" where
  "Retryable c \<longleftrightarrow> c \<notin> set nonRetryableErrorCodes"

section \<open>Text that looks like a credential\<close>

definition re_space :: "char \<Rightarrow> bool" where
  "re_space c \<longleftrightarrow> byte_of c \<in> {9, 10, 12, 13, 32}"

definition one_of :: "string \<Rightarrow> char \<Rightarrow> bool" where
  "one_of cs c \<longleftrightarrow> c \<in> set cs"

definition opaque_tail :: "char \<Rightarrow> bool" where
  "opaque_tail c \<longleftrightarrow> is_alnum c \<or> one_of ''._~+/=-'' c"

definition opaqueValue :: "nat \<Rightarrow> regex" where
  "opaqueValue n = RSeq (RChar is_alnum) (ratleast n opaque_tail)"

definition dash :: regex where
  "dash = ropt (RChar (one_of ''-_''))"

definition credentialName :: regex where
  "credentialName =
     RSeq (RRepeat 0 (Some 3) (RSeq (RRepeat 1 (Some 20) (RChar is_alnum)) (RChar (one_of ''-_''))))
       (ralt [rseq [rfold ''api'', dash, ralt [rfold ''key'', rfold ''token'', rfold ''secret'']],
              rfold ''authorization'',
              rseq [rfold ''auth'', dash, ropt (ralt [rfold ''token'', rfold ''key''])],
              rseq [rfold ''access'', dash, rfold ''token''],
              rseq [rfold ''id'', dash, rfold ''token''],
              rseq [rfold ''refresh'', dash, rfold ''token''],
              rseq [rfold ''bearer'', dash, rfold ''token''],
              rseq [rfold ''secret'', dash, rfold ''key''],
              rseq [rfold ''private'', dash, rfold ''key''],
              rseq [rfold ''client'', dash, rfold ''secret''],
              rseq [rfold ''session'', dash, ralt [rfold ''id'', rfold ''key'', rfold ''token'']],
              RSeq (rfold ''password'') (ropt (rfold ''s'')),
              rfold ''passwd'', rfold ''cookie'',
              RSeq (rfold ''credential'') (ropt (rfold ''s'')),
              RSeq (rfold ''token'') (ropt (rfold ''s'')),
              RSeq (rfold ''secret'') (ropt (rfold ''s''))])"

definition authScheme :: regex where
  "authScheme = ropt (RSeq (ralt (map rfold [''bearer'', ''basic'', ''token'', ''apikey'', ''digest'']))
                           (ratleast 1 re_space))"

definition placeholderWords :: regex where
  "placeholderWords = ralt (map rfold [''redacted'', ''removed'', ''hidden'', ''masked'', ''scrubbed'',
     ''elided'', ''omitted'', ''filtered'', ''sanitized'', ''sanitised'', ''none'', ''null'',
     ''undefined'', ''empty''])"

definition quote :: regex where
  "quote = ropt (RChar (\<lambda>c. c = CHR 0x22 \<or> c = CHR 0x27))"

definition credentialAssignment :: regex where
  "credentialAssignment =
     rseq [RAlt RBegin (RChar (\<lambda>c. \<not> is_alnum c)), credentialName, quote, rstar re_space,
           RChar (one_of '':=''), rstar re_space, quote, authScheme, RGroup (opaqueValue 6)]"

definition bareBearerToken :: regex where
  "bareBearerToken = rseq [RWordBoundary, rfold ''bearer'', ratleast 1 re_space, RGroup (opaqueValue 6)]"

definition issuedTokenGrammar :: regex where
  "issuedTokenGrammar =
     RSeq RWordBoundary (ralt
       [RSeq (rlit ''sk-'') (ratleast 8 (\<lambda>c. is_alnum c \<or> one_of ''_-'' c)),
        rseq [RChar (one_of ''sprk''), rlit ''k_'', ralt [rlit ''live'', rlit ''test''], rlit ''_'',
              ratleast 8 is_alnum],
        RSeq (rlit ''AKIA'') (ratleast 12 (\<lambda>c. is_digit c \<or> is_upper c)),
        RSeq (rlit ''ASIA'') (ratleast 12 (\<lambda>c. is_digit c \<or> is_upper c)),
        RSeq (rlit ''AIza'') (ratleast 20 (\<lambda>c. is_alnum c \<or> one_of ''_-'' c)),
        rseq [rlit ''gh'', RChar (one_of ''pousr''), rlit ''_'', ratleast 16 is_alnum],
        RSeq (rlit ''github_pat_'') (ratleast 20 (\<lambda>c. is_alnum c \<or> one_of ''_'' c)),
        rseq [rlit ''xox'', RChar (one_of ''abeprs''), rlit ''-'', ratleast 10 (\<lambda>c. is_alnum c \<or> one_of ''-'' c)],
        RSeq (rlit ''glpat-'') (ratleast 16 (\<lambda>c. is_alnum c \<or> one_of ''_-'' c)),
        RSeq (rlit ''npm_'') (ratleast 20 is_alnum),
        rseq [rlit ''eyJ'', ratleast 6 (\<lambda>c. is_alnum c \<or> one_of ''_-'' c), rlit ''.'',
              ratleast 6 (\<lambda>c. is_alnum c \<or> one_of ''_-'' c), rlit ''.'',
              ratleast 4 (\<lambda>c. is_alnum c \<or> one_of ''_-'' c)]])"

definition redactedMarkerBesideValue :: regex where
  "redactedMarkerBesideValue =
     rseq [RAlt (rseq [RChar (one_of ''[<({''), rstar re_space, placeholderWords,
                       RRepeat 0 (Some 16) (RChar (\<lambda>c. \<not> one_of '']})>'' c)), RChar (one_of '']})>'')])
                (ratleast 3 (one_of ''*'')),
           RRepeat 0 (Some 4) (RChar (\<lambda>c. \<not> is_alnum c)), opaqueValue 10]"

definition placeholderPrefix :: regex where
  "placeholderPrefix = rseq [RBegin, placeholderWords, RWordBoundary]"

definition CredentialShaped :: "string \<Rightarrow> bool" where
  "CredentialShaped text \<longleftrightarrow>
     list_ex (\<lambda>p. list_ex (\<lambda>g. \<not> match_string placeholderPrefix g) (find_all_groups p text))
       [credentialAssignment, bareBearerToken] \<or>
     match_string issuedTokenGrammar text \<or> match_string redactedMarkerBesideValue text"

definition maxSafeErrorTextLength :: nat where
  "maxSafeErrorTextLength = 2000"

definition WithheldErrorText :: string where
  "WithheldErrorText = ''the provider's message was withheld: it still looked like it carried a credential''"

definition noDiagnosticText :: string where
  "noDiagnosticText = ''no diagnostic text was available''"

definition SafeErrorText :: "string \<Rightarrow> string" where
  "SafeErrorText text =
     (let cleaned = trim_space text
      in if cleaned = [] then noDiagnosticText
         else
           let cleaned = (if length cleaned > maxSafeErrorTextLength
                          then to_valid_utf8 (take maxSafeErrorTextLength cleaned) else cleaned)
           in if CredentialShaped cleaned then WithheldErrorText else cleaned)"

section \<open>The error body\<close>

record passthrough =
  pt_Provider :: provider_slug
  pt_Status :: "int option"
  pt_Code :: "string option"
  pt_Message :: "string option"

record contract_error =
  ce_SchemaVersion :: int
  ce_Code :: error_code
  ce_Message :: string
  ce_Retryable :: bool
  ce_RequestID :: request_id
  ce_RetryAfterMs :: "int option"
  ce_Param :: "string option"
  ce_UpstreamCategory :: "upstream_category option"
  ce_ProviderError :: "passthrough option"

definition SchemaVersion :: int where
  "SchemaVersion = 1"

definition NewError :: "request_id \<Rightarrow> error_code \<Rightarrow> string \<Rightarrow> contract_error" where
  "NewError requestID code message =
     \<lparr>ce_SchemaVersion = SchemaVersion, ce_Code = code, ce_Message = SafeErrorText message,
      ce_Retryable = Retryable code, ce_RequestID = requestID, ce_RetryAfterMs = None,
      ce_Param = None, ce_UpstreamCategory = None, ce_ProviderError = None\<rparr>"

definition WithParam :: "contract_error \<Rightarrow> string \<Rightarrow> contract_error" where
  "WithParam e param = e\<lparr>ce_Param := Some param\<rparr>"

definition WithRetryAfter :: "contract_error \<Rightarrow> int \<Rightarrow> contract_error" where
  "WithRetryAfter e ms =
     (if \<not> ce_Retryable e \<or> ms < 0 then e else e\<lparr>ce_RetryAfterMs := Some ms\<rparr>)"

definition WithoutRetry :: "contract_error \<Rightarrow> contract_error" where
  "WithoutRetry e = e\<lparr>ce_Retryable := False, ce_RetryAfterMs := None\<rparr>"

definition WithUpstream :: "contract_error \<Rightarrow> upstream_category \<Rightarrow> passthrough option \<Rightarrow> contract_error" where
  "WithUpstream e category pass =
     (let e = e\<lparr>ce_UpstreamCategory := Some category\<rparr>
      in case pass of
           None \<Rightarrow> e
         | Some p \<Rightarrow>
             (let p = p\<lparr>pt_Message := map_option SafeErrorText (pt_Message p)\<rparr>;
                  p = (case pt_Code p of
                         Some c \<Rightarrow> if length c > 128 then p\<lparr>pt_Code := Some (take 128 c)\<rparr> else p
                       | None \<Rightarrow> p)
              in e\<lparr>ce_ProviderError := Some p\<rparr>))"

text \<open>An error body the source can build: one \<open>NewError\<close> and any of the builders after it.\<close>

inductive built_error :: "contract_error \<Rightarrow> bool" where
  built_new: "built_error (NewError requestID code message)"
| built_param: "built_error e \<Longrightarrow> built_error (WithParam e param)"
| built_retry_after: "built_error e \<Longrightarrow> built_error (WithRetryAfter e ms)"
| built_without_retry: "built_error e \<Longrightarrow> built_error (WithoutRetry e)"
| built_upstream: "built_error e \<Longrightarrow> built_error (WithUpstream e category pass)"

section \<open>Lemmas\<close>

lemma NewError_simps [simp]:
  "ce_Code (NewError q c m) = c"
  "ce_Retryable (NewError q c m) = Retryable c"
  "ce_RequestID (NewError q c m) = q"
  "ce_RetryAfterMs (NewError q c m) = None"
  by (simp_all add: NewError_def)

lemma WithUpstream_simps [simp]:
  "ce_Code (WithUpstream e cat p) = ce_Code e"
  "ce_Retryable (WithUpstream e cat p) = ce_Retryable e"
  "ce_RequestID (WithUpstream e cat p) = ce_RequestID e"
  "ce_RetryAfterMs (WithUpstream e cat p) = ce_RetryAfterMs e"
  "ce_Message (WithUpstream e cat p) = ce_Message e"
  by (simp_all add: WithUpstream_def Let_def split: option.split)

lemma WithRetryAfter_simps [simp]:
  "ce_Code (WithRetryAfter e ms) = ce_Code e"
  "ce_Retryable (WithRetryAfter e ms) = ce_Retryable e"
  "ce_RequestID (WithRetryAfter e ms) = ce_RequestID e"
  by (simp_all add: WithRetryAfter_def)

section \<open>Text left empty\<close>

text \<open>
  Text that is only bytes which are not UTF-8, longer than the limit, is rendered as the
  empty string: the truncation drops every byte after the check that the text is not empty.
\<close>

theorem SafeErrorText_can_be_empty:
  "SafeErrorText (replicate 2001 (CHR 0xFF)) = []"
proof -
  have t: "trim_space (replicate n (CHR 0xFF)) = replicate n (CHR 0xFF)" for n
  proof -
    have "\<not> is_space (CHR 0xFF)" by (simp add: char_class_defs)
    then have "dropWhile is_space (replicate n (CHR 0xFF)) = replicate n (CHR 0xFF)" for n
      by (cases n) simp_all
    then show ?thesis by (simp add: trim_space_def trim_left_def trim_right_def)
  qed
  have v: "to_valid_utf8 (replicate n (CHR 0xFF)) = []" for n
    by (induction n) (simp_all add: byte_of_def)
  have "\<not> CredentialShaped []" by code_simp
  moreover have "take 2000 (replicate 2001 (CHR 0xFF)) = replicate 2000 (CHR 0xFF)"
    by (simp add: take_replicate)
  ultimately show ?thesis
    by (simp add: SafeErrorText_def Let_def t v maxSafeErrorTextLength_def)
qed

end
