(* ===== verification/Funding.thy ===== *)
theory Funding
  imports Kaana_Prelude
begin

text \<open>
  \<open>internal/provider/funding.go\<close>: what spending on a platform key costs, the order a pool is
  spent in, and the ceiling a route may be bounded by. The Go types are strings; the declared
  members are constructors and every other string is \<open>OtherClass\<close>. A \<open>Funding\<close> value is only
  ever one of the declared members where it is read, except at the pool's constructor, which
  checks it: \<open>OtherFunding\<close>.
\<close>

datatype key_class = KeyClassFree | KeyClassPaid | KeyClassUnstated | OtherClass string

datatype funding =
    FundingFree | FundingPromotional | FundingPrepaid | FundingPaid | FundingUnstated
  | OtherFunding string

datatype funding_tier =
    FundingTierFree | FundingTierCredit | FundingTierPaid | FundingTierNone | OtherTier string

fun tier_Valid :: "funding_tier \<Rightarrow> bool" where
  "tier_Valid FundingTierFree = True"
| "tier_Valid FundingTierCredit = True"
| "tier_Valid FundingTierPaid = True"
| "tier_Valid _ = False"

fun tier_rank :: "funding_tier \<Rightarrow> nat" where
  "tier_rank FundingTierFree = 0"
| "tier_rank FundingTierCredit = 1"
| "tier_rank FundingTierPaid = 2"
| "tier_rank _ = 3"

fun Tier :: "funding \<Rightarrow> funding_tier" where
  "Tier FundingFree = FundingTierFree"
| "Tier FundingPromotional = FundingTierCredit"
| "Tier FundingPrepaid = FundingTierCredit"
| "Tier FundingPaid = FundingTierPaid"
| "Tier _ = FundingTierNone"

definition Admits :: "funding_tier \<Rightarrow> funding \<Rightarrow> bool" where
  "Admits t f \<longleftrightarrow>
     (if t = FundingTierNone then True
      else Tier f \<noteq> FundingTierNone \<and> tier_rank (Tier f) \<le> tier_rank t)"

fun funding_rank :: "funding \<Rightarrow> nat" where
  "funding_rank FundingFree = 0"
| "funding_rank FundingPromotional = 1"
| "funding_rank FundingPrepaid = 2"
| "funding_rank FundingPaid = 3"
| "funding_rank _ = 4"

datatype funding_error = UnknownKeyClass key_class | UnknownCapacityCategory string

fun class_funding :: "key_class \<Rightarrow> funding option" where
  "class_funding KeyClassFree = Some FundingFree"
| "class_funding KeyClassPaid = Some FundingPaid"
| "class_funding KeyClassUnstated = Some FundingUnstated"
| "class_funding (OtherClass _) = None"

definition category_funding :: "string \<Rightarrow> funding option" where
  "category_funding category =
     (if category = ''trial'' \<or> category = ''promotional'' then Some FundingPromotional
      else if category = ''prepaid'' then Some FundingPrepaid
      else if category = ''paid'' then Some FundingPaid
      else None)"

definition FundingFor :: "key_class \<Rightarrow> string \<Rightarrow> funding_error + funding" where
  "FundingFor cls category =
     (case class_funding cls of
        None \<Rightarrow> Inl (UnknownKeyClass cls)
      | Some fromClass \<Rightarrow>
          if category = '''' then Inr fromClass
          else case category_funding category of
                 None \<Rightarrow> Inl (UnknownCapacityCategory category)
               | Some fromCategory \<Rightarrow>
                   Inr (if fromClass = FundingUnstated \<or> funding_rank fromCategory \<ge> funding_rank fromClass
                        then fromCategory else fromClass))"

section \<open>Lemmas\<close>

lemma Tier_rank_mono:
  "Tier f \<noteq> FundingTierNone \<Longrightarrow> funding_rank f \<le> funding_rank g \<Longrightarrow> Tier g \<noteq> FundingTierNone \<Longrightarrow>
   tier_rank (Tier f) \<le> tier_rank (Tier g)"
  by (cases f; cases g) simp_all

lemma Admits_downward:
  "Admits t g \<Longrightarrow> Tier g \<noteq> FundingTierNone \<Longrightarrow> funding_rank f \<le> funding_rank g \<Longrightarrow> Admits t f"
proof -
  assume a: "Admits t g" and g: "Tier g \<noteq> FundingTierNone" and le: "funding_rank f \<le> funding_rank g"
  from le g have f: "Tier f \<noteq> FundingTierNone" by (cases f; cases g) simp_all
  from Tier_rank_mono [OF f le g] a f g show ?thesis by (auto simp: Admits_def)
qed

lemma Admits_unstated: "t \<noteq> FundingTierNone \<Longrightarrow> \<not> Admits t FundingUnstated"
  by (simp add: Admits_def)

section \<open>Properties\<close>

text \<open>
  A key's derived funding is never cheaper than either statement about it: it ranks at least
  as high as its category, and at least as high as its class when the class is stated, so no
  ceiling admits a key on the strength of one statement that the other contradicts.
\<close>

theorem FundingFor_never_cheaper:
  assumes "FundingFor cls category = Inr f" and "Admits t f" and "t \<noteq> FundingTierNone"
  shows "(\<forall>g. category_funding category = Some g \<longrightarrow> Admits t g) \<and>
    (\<forall>g. class_funding cls = Some g \<and> g \<noteq> FundingUnstated \<longrightarrow> Admits t g)"
proof -
  have f: "Tier f \<noteq> FundingTierNone" using assms(2,3) by (auto simp: Admits_def)
  have "category_funding category = Some g \<Longrightarrow> funding_rank g \<le> funding_rank f" for g
    using assms(1) by (auto simp: FundingFor_def category_funding_def split: option.splits if_splits)
  moreover have "class_funding cls = Some g \<Longrightarrow> g \<noteq> FundingUnstated \<Longrightarrow> funding_rank g \<le> funding_rank f" for g
    using assms(1) by (auto simp: FundingFor_def split: option.splits if_splits)
  ultimately show ?thesis using Admits_downward [OF assms(2) f] by blast
qed

theorem FundingFor_never_cheaper_witness:
  "FundingFor KeyClassFree ''paid'' = Inr FundingPaid \<and> Admits FundingTierPaid FundingPaid \<and>
   Admits FundingTierPaid FundingFree"
proof -
  have f: "FundingFor KeyClassFree ''paid'' = Inr FundingPaid"
    by (simp add: FundingFor_def category_funding_def)
  have a: "Admits FundingTierPaid FundingPaid" by (simp add: Admits_def)
  have "Admits FundingTierPaid FundingFree"
    using conjunct2 [OF FundingFor_never_cheaper [OF f a]] by (simp del: split_paired_All)
  with f a show ?thesis by blast
qed

end
