(* ===== verification/Go_Numbers.thy ===== *)
theory Go_Numbers
  imports Go_Strings Complex_Main
begin

text \<open>
  The parts of Go's \<open>strconv\<close> and \<open>fmt\<close> the source uses: decimal printing, \<open>ParseInt\<close> in base
  10 at 64 bits, and \<open>ParseFloat\<close> at 64 bits reduced to what its one caller reads, the
  sign of the parsed number or that it is not one.
\<close>

section \<open>Printing\<close>

definition digit_char :: "nat \<Rightarrow> char" where
  "digit_char d = char_of (48 + d)"

fun string_of_nat :: "nat \<Rightarrow> string" where
  "string_of_nat n = (if n < 10 then [digit_char n] else string_of_nat (n div 10) @ [digit_char (n mod 10)])"

declare string_of_nat.simps [simp del]

definition string_of_int :: "int \<Rightarrow> string" where
  "string_of_int i = (if i < 0 then CHR ''-'' # string_of_nat (nat (- i)) else string_of_nat (nat i))"

section \<open>Reading digits\<close>

definition all_digits :: "string \<Rightarrow> bool" where
  "all_digits s \<longleftrightarrow> list_all is_digit s"

definition value_of_digits :: "string \<Rightarrow> int" where
  "value_of_digits s = foldl (\<lambda>n c. n * 10 + int (digit_value c)) 0 s"

definition parse_int64 :: "string \<Rightarrow> int option" where
  "parse_int64 s =
     (let (neg, ds) = (case s of
            [] \<Rightarrow> (False, [])
          | c # cs \<Rightarrow> if c = CHR ''-'' then (True, cs) else if c = CHR ''+'' then (False, cs) else (False, s))
      in if ds = [] \<or> \<not> all_digits ds then None
         else let v = (if neg then - value_of_digits ds else value_of_digits ds)
              in if min_int64 \<le> v \<and> v \<le> max_int64 then Some v else None)"

section \<open>The sign of a float\<close>

datatype float_sign = FloatNegative | FloatZero | FloatPositive | FloatNaN

definition hex_value :: "char \<Rightarrow> nat option" where
  "hex_value c =
     (if is_digit c then Some (digit_value c)
      else let l = lower_char c in if in_range (CHR ''a'') (CHR ''f'') l then Some (byte_of l - 87) else None)"

text \<open>
  The mantissa: digits with at most one point. The result is the mantissa as an integer, how
  many digits stood after the point, how many digits there were, and the rest.
\<close>

fun read_mantissa ::
  "(char \<Rightarrow> nat option) \<Rightarrow> int \<Rightarrow> string \<Rightarrow> bool \<Rightarrow> int \<times> nat \<times> nat \<Rightarrow> (int \<times> nat \<times> nat) \<times> string" where
  "read_mantissa dv base [] sawdot (m, fd, n) = ((m, fd, n), [])"
| "read_mantissa dv base (c # cs) sawdot (m, fd, n) =
     (if c = CHR ''.'' \<and> \<not> sawdot then read_mantissa dv base cs True (m, fd, n)
      else case dv c of
             Some d \<Rightarrow> read_mantissa dv base cs sawdot (m * base + int d, if sawdot then fd + 1 else fd, n + 1)
           | None \<Rightarrow> ((m, fd, n), c # cs))"

definition decimal_value :: "char \<Rightarrow> nat option" where
  "decimal_value c = (if is_digit c then Some (digit_value c) else None)"

definition read_exponent :: "string \<Rightarrow> int option" where
  "read_exponent s =
     (let (neg, ds) = (case s of
            [] \<Rightarrow> (False, [])
          | c # cs \<Rightarrow> if c = CHR ''-'' then (True, cs) else if c = CHR ''+'' then (False, cs) else (False, s))
      in if ds = [] \<or> \<not> all_digits ds then None
         else Some (if neg then - value_of_digits ds else value_of_digits ds))"

text \<open>
  The magnitude of mantissa times base to the exponent, rounded to 64 bits: zero when it is at
  most half the smallest subnormal, an error when it rounds beyond the largest finite number.
\<close>

definition power_int :: "int \<Rightarrow> int \<Rightarrow> rat" where
  "power_int b e = (if 0 \<le> e then rat_of_int (b ^ nat e) else 1 / rat_of_int (b ^ nat (- e)))"

definition rounded_sign :: "bool \<Rightarrow> rat \<Rightarrow> float_sign option" where
  "rounded_sign neg v =
     (if v \<ge> power_int 2 1024 - power_int 2 970 then None
      else if v \<le> power_int 2 (- 1075) then Some FloatZero
      else Some (if neg then FloatNegative else FloatPositive))"

definition special_float :: "bool \<Rightarrow> string \<Rightarrow> float_sign option" where
  "special_float neg s =
     (let l = map lower_char s
      in if l = ''inf'' \<or> l = ''infinity'' then Some (if neg then FloatNegative else FloatPositive) else None)"

definition unsigned_float :: "bool \<Rightarrow> string \<Rightarrow> float_sign option" where
  "unsigned_float neg s =
     (if has_prefix (map lower_char s) ''0x'' then
        (let ((m, fd, n), rest) = read_mantissa hex_value 16 (drop 2 s) False (0, 0, 0)
         in case rest of
              c # ds \<Rightarrow>
                (if n > 0 \<and> lower_char c = CHR ''p''
                 then case read_exponent ds of
                        Some e \<Rightarrow> rounded_sign neg (rat_of_int m * power_int 2 (e - 4 * int fd))
                      | None \<Rightarrow> None
                 else None)
            | [] \<Rightarrow> None)
      else
        (let ((m, fd, n), rest) = read_mantissa decimal_value 10 s False (0, 0, 0)
         in if n = 0 then None
            else case rest of
                   [] \<Rightarrow> rounded_sign neg (rat_of_int m * power_int 10 (- int fd))
                 | c # ds \<Rightarrow>
                     (if lower_char c = CHR ''e''
                      then case read_exponent ds of
                             Some e \<Rightarrow> rounded_sign neg (rat_of_int m * power_int 10 (e - int fd))
                           | None \<Rightarrow> None
                      else None)))"

definition parse_float_sign :: "string \<Rightarrow> float_sign option" where
  "parse_float_sign s =
     (if map lower_char s = ''nan'' then Some FloatNaN
      else
        let (neg, body) = (case s of
              [] \<Rightarrow> (False, [])
            | c # cs \<Rightarrow> if c = CHR ''-'' then (True, cs) else if c = CHR ''+'' then (False, cs) else (False, s))
        in case special_float neg body of Some r \<Rightarrow> Some r | None \<Rightarrow> unsigned_float neg body)"

section \<open>Lemmas\<close>

lemma digit_char_is_digit: "d < 10 \<Longrightarrow> is_digit (digit_char d)"
  by (simp add: digit_char_def char_class_defs of_char_of)

lemma digit_value_char: "d < 10 \<Longrightarrow> digit_value (digit_char d) = d"
  by (simp add: digit_char_def digit_value_def byte_of_def of_char_of)

lemma value_of_digits_snoc: "value_of_digits (s @ [c]) = value_of_digits s * 10 + int (digit_value c)"
  by (simp add: value_of_digits_def)

lemma string_of_nat_digits: "all_digits (string_of_nat n)"
proof (induction n rule: string_of_nat.induct)
  case (1 n)
  show ?case
  proof (cases "n < 10")
    case True
    then show ?thesis by (subst string_of_nat.simps) (simp add: all_digits_def digit_char_is_digit)
  next
    case False
    with 1 [OF False] show ?thesis
      by (subst string_of_nat.simps) (simp add: all_digits_def digit_char_is_digit)
  qed
qed

lemma value_of_string_of_nat: "value_of_digits (string_of_nat n) = int n"
proof (induction n rule: string_of_nat.induct)
  case (1 n)
  show ?case
  proof (cases "n < 10")
    case True
    then show ?thesis by (subst string_of_nat.simps) (simp add: value_of_digits_def digit_value_char)
  next
    case False
    have "int (n div 10) * 10 + int (n mod 10) = int n"
      by (metis div_mult_mod_eq of_nat_add of_nat_mult of_nat_numeral)
    with 1 [OF False] False show ?thesis
      by (subst string_of_nat.simps) (simp add: value_of_digits_snoc digit_value_char)
  qed
qed

lemma string_of_nat_inj: "string_of_nat m = string_of_nat n \<Longrightarrow> m = n"
  by (metis of_nat_eq_iff value_of_string_of_nat)

end
