(* ===== verification/Contract_Usage.thy ===== *)
theory Contract_Usage
  imports Contract_Errors Funding Go_Numbers
begin

text \<open>
  Identifiers and usage reports of the contract: \<open>internal/contract/ids.go\<close>,
  \<open>internal/contract/usage.go\<close> and the vocabularies of \<open>internal/contract/enums.go\<close> they use. A
  vocabulary is a Go string type: its declared members are constructors and any other string is
  carried by an \<open>Other\<close> constructor, so that a membership check can fail. A timestamp is the
  instant in milliseconds that its canonical spelling denotes; the spelling itself, and a
  timestamp that does not parse, are not represented.
\<close>

section \<open>Identifiers\<close>

definition ref_inner :: "char \<Rightarrow> bool" where
  "ref_inner c \<longleftrightarrow> is_lower c \<or> is_digit c \<or> one_of ''._-'' c"

definition ref_edge :: "char \<Rightarrow> bool" where
  "ref_edge c \<longleftrightarrow> is_lower c \<or> is_digit c"

text \<open>\<open>[a-z0-9](?:[a-z0-9._-]*[a-z0-9])?\<close>, and the same over both letter cases.\<close>

definition edge_word :: "(char \<Rightarrow> bool) \<Rightarrow> (char \<Rightarrow> bool) \<Rightarrow> regex" where
  "edge_word edge inner = RSeq (RChar edge) (ropt (RSeq (rstar inner) (RChar edge)))"

definition slugWord :: regex where
  "slugWord = edge_word ref_edge ref_inner"

definition revisionWord :: regex where
  "revisionWord = edge_word is_alnum (\<lambda>c. is_alnum c \<or> one_of ''._-'' c)"

definition modelReferencePattern :: regex where
  "modelReferencePattern = rseq [RBegin, slugWord, rlit ''/'', slugWord, ropt (RSeq (rlit ''@'') revisionWord), REnd]"

definition modelIDPattern :: regex where
  "modelIDPattern = rseq [RBegin, slugWord, rlit ''/'', slugWord, REnd]"

definition slugPattern :: regex where
  "slugPattern = rseq [RBegin, slugWord, REnd]"

definition reference_Valid :: "model_reference \<Rightarrow> bool" where
  "reference_Valid r \<longleftrightarrow> length r \<le> 194 \<and> match_string modelReferencePattern r"

definition Pinned :: "model_reference \<Rightarrow> bool" where
  "Pinned r \<longleftrightarrow> strings_contains r ''@''"

definition ModelID :: "model_reference \<Rightarrow> model_id" where
  "ModelID r = (case strings_index r ''@'' of Some i \<Rightarrow> take i r | None \<Rightarrow> r)"

definition model_id_Valid :: "model_id \<Rightarrow> bool" where
  "model_id_Valid m \<longleftrightarrow> length m \<le> 129 \<and> match_string modelIDPattern m"

definition slug_Valid :: "provider_slug \<Rightarrow> bool" where
  "slug_Valid p \<longleftrightarrow> length p > 0 \<and> length p \<le> 64 \<and> match_string slugPattern p"

definition region_Valid :: "region \<Rightarrow> bool" where
  "region_Valid r \<longleftrightarrow> length r > 0 \<and> length r \<le> 64 \<and> match_string slugPattern r"

definition profile_Valid :: "string \<Rightarrow> bool" where
  "profile_Valid p \<longleftrightarrow> length p > 0 \<and> length p \<le> 128"

type_synonym timestamp = int

text \<open>The millisecond layout drops what is finer, rounding down.\<close>

definition NewTimestamp :: "instant \<Rightarrow> timestamp" where
  "NewTimestamp t = t div 1000000"

section \<open>Usage\<close>

datatype usage_unit =
    UnitInputTokens | UnitCachedInputTokens | UnitOutputTokens | UnitReasoningTokens
  | UnitRequests | UnitImages | UnitAudioInputMilliseconds | UnitAudioOutputMilliseconds
  | UnitVideoMilliseconds | UnitCharacters | UnitEmbeddings
  | UnitAudioInputTokens | UnitCachedAudioInputTokens | UnitAudioOutputTokens
  | UnitSessionMilliseconds | UnitInputTranscriptionMilliseconds
  | OtherUnit string

datatype usage_source = UsageProviderReported | UsageOxyMeasured | UsageEstimated | OtherSource string

abbreviation no_source :: usage_source where
  "no_source \<equiv> OtherSource ''''"

datatype request_outcome = OutcomeCompleted | OutcomePartial | OutcomeCancelled | OutcomeFailed | OtherOutcome string

definition usageUnitValues :: "usage_unit list" where
  "usageUnitValues =
     [UnitInputTokens, UnitCachedInputTokens, UnitOutputTokens, UnitReasoningTokens, UnitRequests, UnitImages,
      UnitAudioInputMilliseconds, UnitAudioOutputMilliseconds, UnitVideoMilliseconds, UnitCharacters,
      UnitEmbeddings, UnitAudioInputTokens, UnitCachedAudioInputTokens, UnitAudioOutputTokens,
      UnitSessionMilliseconds, UnitInputTranscriptionMilliseconds]"

fun unit_text :: "usage_unit \<Rightarrow> string" where
  "unit_text UnitInputTokens = ''input_tokens''"
| "unit_text UnitCachedInputTokens = ''cached_input_tokens''"
| "unit_text UnitOutputTokens = ''output_tokens''"
| "unit_text UnitReasoningTokens = ''reasoning_tokens''"
| "unit_text UnitRequests = ''requests''"
| "unit_text UnitImages = ''images''"
| "unit_text UnitAudioInputMilliseconds = ''audio_input_milliseconds''"
| "unit_text UnitAudioOutputMilliseconds = ''audio_output_milliseconds''"
| "unit_text UnitVideoMilliseconds = ''video_milliseconds''"
| "unit_text UnitCharacters = ''characters''"
| "unit_text UnitEmbeddings = ''embeddings''"
| "unit_text UnitAudioInputTokens = ''audio_input_tokens''"
| "unit_text UnitCachedAudioInputTokens = ''cached_audio_input_tokens''"
| "unit_text UnitAudioOutputTokens = ''audio_output_tokens''"
| "unit_text UnitSessionMilliseconds = ''session_milliseconds''"
| "unit_text UnitInputTranscriptionMilliseconds = ''input_transcription_milliseconds''"
| "unit_text (OtherUnit s) = s"

definition usageSourceValues :: "usage_source list" where
  "usageSourceValues = [UsageProviderReported, UsageOxyMeasured, UsageEstimated]"

definition requestOutcomeValues :: "request_outcome list" where
  "requestOutcomeValues = [OutcomeCompleted, OutcomePartial, OutcomeCancelled, OutcomeFailed]"

record usage_quantity =
  uq_Unit :: usage_unit
  uq_Quantity :: int

record usage_report =
  ur_SchemaVersion :: int
  ur_RequestID :: request_id
  ur_GenerationID :: "string option"
  ur_Outcome :: request_outcome
  ur_Units :: "usage_quantity list"
  ur_UsageSource :: usage_source
  ur_ResolvedModelReference :: model_reference
  ur_ServingProvider :: provider_slug
  ur_DeploymentID :: deployment_id
  ur_RouteSwitches :: int
  ur_FundingTier :: "funding_tier option"
  ur_StartedAt :: timestamp
  ur_CompletedAt :: timestamp
  ur_TimeToFirstTokenMs :: "int option"

definition UsageReportSchemaVersion :: int where
  "UsageReportSchemaVersion = 2"

datatype report_error =
    ReportVersion | ReportRequestID | ReportOutcome | ReportSource | ReportModelReference
  | ReportProvider | ReportDeployment | ReportSwitches | ReportNoUnits | ReportUnit usage_unit
  | ReportNegative usage_unit | ReportRepeated usage_unit | ReportTimes

fun check_units :: "usage_unit list \<Rightarrow> usage_quantity list \<Rightarrow> report_error option" where
  "check_units seen [] = None"
| "check_units seen (q # qs) =
     (if \<not> is_member (uq_Unit q) usageUnitValues then Some (ReportUnit (uq_Unit q))
      else if uq_Quantity q < 0 then Some (ReportNegative (uq_Unit q))
      else if is_member (uq_Unit q) seen then Some (ReportRepeated (uq_Unit q))
      else check_units (uq_Unit q # seen) qs)"

definition report_Validate :: "usage_report \<Rightarrow> report_error option" where
  "report_Validate r =
     (if ur_SchemaVersion r \<noteq> UsageReportSchemaVersion then Some ReportVersion
      else if ur_RequestID r = '''' then Some ReportRequestID
      else if \<not> is_member (ur_Outcome r) requestOutcomeValues then Some ReportOutcome
      else if \<not> is_member (ur_UsageSource r) usageSourceValues then Some ReportSource
      else if \<not> reference_Valid (ur_ResolvedModelReference r) then Some ReportModelReference
      else if \<not> slug_Valid (ur_ServingProvider r) then Some ReportProvider
      else if length (ur_DeploymentID r) = 0 \<or> length (ur_DeploymentID r) > 128 then Some ReportDeployment
      else if ur_RouteSwitches r < 0 \<or> ur_RouteSwitches r > 100 then Some ReportSwitches
      else if ur_Outcome r = OutcomeCompleted \<and> ur_Units r = [] then Some ReportNoUnits
      else case check_units [] (ur_Units r) of
             Some e \<Rightarrow> Some e
           | None \<Rightarrow> if ur_CompletedAt r < ur_StartedAt r then Some ReportTimes else None)"

section \<open>Lemmas\<close>

lemma check_units_None:
  "check_units seen qs = None \<longleftrightarrow>
     distinct (map uq_Unit qs) \<and> set (map uq_Unit qs) \<inter> set seen = {} \<and>
     (\<forall>q \<in> set qs. uq_Unit q \<in> set usageUnitValues \<and> 0 \<le> uq_Quantity q)"
  by (induction qs arbitrary: seen) (auto simp: is_member_def)

lemma report_Validate_None:
  "report_Validate r = None \<Longrightarrow>
   distinct (map uq_Unit (ur_Units r)) \<and> (\<forall>q \<in> set (ur_Units r). 0 \<le> uq_Quantity q) \<and>
   (ur_Outcome r = OutcomeCompleted \<longrightarrow> ur_Units r \<noteq> []) \<and> ur_StartedAt r \<le> ur_CompletedAt r \<and>
   0 \<le> ur_RouteSwitches r \<and> ur_RouteSwitches r \<le> 100 \<and> ur_UsageSource r \<in> set usageSourceValues"
  by (auto simp: report_Validate_def check_units_None is_member_def split: if_splits option.splits)

lemma ModelID_no_at: "\<not> strings_contains (ModelID r) ''@''"
proof -
  have "strings_index r ''@'' = Some i \<Longrightarrow> CHR ''@'' \<notin> set (take i r)" for i
    by (induction r arbitrary: i) (auto simp: has_prefix_def split: if_splits)
  moreover have "strings_index r ''@'' = None \<Longrightarrow> CHR ''@'' \<notin> set r"
    by (induction r) (auto simp: has_prefix_def split: if_splits)
  moreover have "strings_contains s ''@'' \<Longrightarrow> CHR ''@'' \<in> set s" for s
    by (auto simp: strings_contains_iff)
  ultimately show ?thesis by (auto simp: ModelID_def split: option.splits)
qed

lemma ModelID_not_pinned: "\<not> Pinned (ModelID r)"
  by (simp add: Pinned_def ModelID_no_at)

end
