(* ===== verification/Go_Json.thy ===== *)
theory Go_Json
  imports Go_Strings "HOL-Library.List_Lexorder" "HOL-Library.AList"
begin

text \<open>
  What the source uses of Go's \<open>encoding/json\<close> and \<open>unicode/utf16\<close>: documents, the bytes
  \<open>json.Marshal\<close> writes for one, and the UTF-16 length of a string. A number is carried as the
  text the encoder prints for it. A struct is an object in field order; a Go map is an object
  whose keys the encoder sorts, built with \<open>go_map\<close>.
\<close>

datatype json =
    JNull
  | JBool bool
  | JNumber string
  | JString string
  | JArray "json list"
  | JObject "(string \<times> json) list"

definition hex_digit :: "nat \<Rightarrow> char" where
  "hex_digit d = char_of (if d < 10 then 48 + d else 87 + d)"

definition unicode_escape :: "nat \<Rightarrow> string" where
  "unicode_escape b = CHR 0x5C # ''u00'' @ [hex_digit (b div 16), hex_digit (b mod 16)]"

definition escape_byte :: "char \<Rightarrow> string" where
  "escape_byte c =
     (let b = byte_of c
      in if b = 34 \<or> b = 92 then [CHR 0x5C, c]
         else if b = 8 then CHR 0x5C # ''b''
         else if b = 12 then CHR 0x5C # ''f''
         else if b = 10 then CHR 0x5C # ''n''
         else if b = 13 then CHR 0x5C # ''r''
         else if b = 9 then CHR 0x5C # ''t''
         else if b < 32 \<or> b = 60 \<or> b = 62 \<or> b = 38 then unicode_escape b
         else [c])"

text \<open>U+2028 and U+2029 are the bytes \<open>E2 80 A8\<close> and \<open>E2 80 A9\<close>.\<close>

definition escape_rune :: "string \<Rightarrow> string" where
  "escape_rune r =
     (case r of
        [c] \<Rightarrow> escape_byte c
      | [a, b, c] \<Rightarrow>
          if byte_of a = 226 \<and> byte_of b = 128 \<and> (byte_of c = 168 \<or> byte_of c = 169)
          then CHR 0x5C # ''u202'' @ [hex_digit (byte_of c - 160)] else r
      | _ \<Rightarrow> r)"

function escape_string :: "string \<Rightarrow> string" where
  "escape_string [] = []"
| "escape_string (c # cs) =
     (case rune_width (c # cs) of
        Some w \<Rightarrow> escape_rune (take w (c # cs)) @ escape_string (drop w (c # cs))
      | None \<Rightarrow> CHR 0x5C # ''ufffd'' @ escape_string cs)"
  by pat_completeness auto
termination
  by (relation "measure length") (auto simp del: rune_width.simps dest: rune_width_bounds)

definition json_string :: "string \<Rightarrow> string" where
  "json_string s = CHR 0x22 # escape_string s @ [CHR 0x22]"

fun join :: "string \<Rightarrow> string list \<Rightarrow> string" where
  "join sep [] = []"
| "join sep [s] = s"
| "join sep (s # ss) = s @ sep @ join sep ss"

fun json_Marshal :: "json \<Rightarrow> string" where
  "json_Marshal JNull = ''null''"
| "json_Marshal (JBool b) = (if b then ''true'' else ''false'')"
| "json_Marshal (JNumber n) = n"
| "json_Marshal (JString s) = json_string s"
| "json_Marshal (JArray vs) = ''['' @ join '','' (map json_Marshal vs) @ '']''"
| "json_Marshal (JObject fs) =
     ''{'' @ join '','' (map (\<lambda>(k, v). json_string k @ '':'' @ json_Marshal v) fs) @ ''}''"

definition go_map :: "(string \<times> json) list \<Rightarrow> json" where
  "go_map m = JObject (sort_key fst m)"

text \<open>A struct field with \<open>omitempty\<close>, and one without, over an optional or a slice value.\<close>

definition omitempty :: "string \<Rightarrow> ('a \<Rightarrow> json) \<Rightarrow> 'a option \<Rightarrow> (string \<times> json) list" where
  "omitempty name f v = (case v of None \<Rightarrow> [] | Some x \<Rightarrow> [(name, f x)])"

definition slice_json :: "('a \<Rightarrow> json) \<Rightarrow> 'a list option \<Rightarrow> json" where
  "slice_json f v = (case v of None \<Rightarrow> JNull | Some xs \<Rightarrow> JArray (map f xs))"

definition omitempty_slice :: "string \<Rightarrow> ('a \<Rightarrow> json) \<Rightarrow> 'a list option \<Rightarrow> (string \<times> json) list" where
  "omitempty_slice name f v =
     (case v of None \<Rightarrow> [] | Some xs \<Rightarrow> if xs = [] then [] else [(name, JArray (map f xs))])"

text \<open>The length of a nil slice is 0.\<close>

definition slice :: "'a list option \<Rightarrow> 'a list" where
  "slice v = (case v of None \<Rightarrow> [] | Some xs \<Rightarrow> xs)"

text \<open>Ranging over a string yields U+FFFD, one unit, for a byte that is not part of a rune.\<close>

function utf16Length :: "string \<Rightarrow> nat" where
  "utf16Length [] = 0"
| "utf16Length (c # cs) =
     (case rune_width (c # cs) of
        Some w \<Rightarrow> (if w = 4 then 2 else 1) + utf16Length (drop w (c # cs))
      | None \<Rightarrow> 1 + utf16Length cs)"
  by pat_completeness auto
termination
  by (relation "measure length") (auto simp del: rune_width.simps dest: rune_width_bounds)

section \<open>Lemmas\<close>

lemma slice_simps [simp]: "slice None = []" "slice (Some xs) = xs"
  by (simp_all add: slice_def)

lemma utf16Length_le: "utf16Length s \<le> length s"
proof (induction s rule: utf16Length.induct)
  case (2 c cs)
  show ?case
  proof (cases "rune_width (c # cs)")
    case None
    with 2(1) show ?thesis by (simp del: rune_width.simps)
  next
    case (Some w)
    from rune_width_bounds [OF Some] 2(2) [OF Some] show ?thesis
      by (auto simp: Some simp del: rune_width.simps)
  qed
qed simp

lemma escape_string_ASCII:
  assumes "\<And>c. c \<in> set s \<Longrightarrow> byte_of c < 128 \<and> escape_byte c = [c]"
  shows "escape_string s = s"
  using assms by (induction s) (auto simp: escape_rune_def)

end
