(* ===== verification/Go_Base64.thy ===== *)
theory Go_Base64
  imports Go_Strings
begin

text \<open>\<open>base64.StdEncoding.EncodeToString\<close>: the padded alphabet of RFC 4648, section 4.\<close>

definition base64_char :: "char \<Rightarrow> bool" where
  "base64_char c \<longleftrightarrow> is_alnum c \<or> c = CHR ''+'' \<or> c = CHR ''/''"

definition base64_digit :: "nat \<Rightarrow> char" where
  "base64_digit n =
     (if n < 26 then char_of (65 + n)
      else if n < 52 then char_of (71 + n)
      else if n < 62 then char_of (n - 4)
      else if n = 62 then CHR ''+'' else CHR ''/'')"

fun base64_encode :: "string \<Rightarrow> string" where
  "base64_encode [] = []"
| "base64_encode [a] =
     [base64_digit (byte_of a div 4), base64_digit (byte_of a mod 4 * 16), CHR ''='', CHR ''='']"
| "base64_encode [a, b] =
     [base64_digit (byte_of a div 4), base64_digit (byte_of a mod 4 * 16 + byte_of b div 16),
      base64_digit (byte_of b mod 16 * 4), CHR ''='']"
| "base64_encode (a # b # c # cs) =
     base64_digit (byte_of a div 4) # base64_digit (byte_of a mod 4 * 16 + byte_of b div 16) #
     base64_digit (byte_of b mod 16 * 4 + byte_of c div 64) # base64_digit (byte_of c mod 64) #
     base64_encode cs"

section \<open>Lemmas\<close>

lemma base64_digit_ok: "base64_char (base64_digit n)"
  by (auto simp: base64_char_def base64_digit_def char_class_defs)

lemma base64_digit_not_pad: "base64_digit n \<noteq> CHR ''=''"
proof
  assume "base64_digit n = CHR ''=''"
  then have "base64_char (CHR ''='')" using base64_digit_ok [of n] by simp
  then show False by (simp add: base64_char_def char_class_defs)
qed

text \<open>The text is whole groups of four: digits, then at most two padding characters.\<close>

definition base64_pads :: "string \<Rightarrow> nat" where
  "base64_pads s = (3 - length s mod 3) mod 3"

lemma base64_encode_shape:
  "\<exists>d. base64_encode s = d @ replicate (base64_pads s) (CHR ''='') \<and> list_all base64_char d \<and>
       length d + base64_pads s = 4 * ((length s + 2) div 3)"
proof (induction s rule: base64_encode.induct)
  case (2 a)
  show ?case
    by (rule exI [of _ "[base64_digit (byte_of a div 4), base64_digit (byte_of a mod 4 * 16)]"])
      (simp add: base64_pads_def base64_digit_ok numeral_2_eq_2)
next
  case (3 a b)
  show ?case
    by (rule exI [of _ "[base64_digit (byte_of a div 4),
        base64_digit (byte_of a mod 4 * 16 + byte_of b div 16), base64_digit (byte_of b mod 16 * 4)]"])
      (simp add: base64_pads_def base64_digit_ok)
next
  case (4 a b c cs)
  then obtain d where d: "base64_encode cs = d @ replicate (base64_pads cs) (CHR ''='')"
    "list_all base64_char d" "length d + base64_pads cs = 4 * ((length cs + 2) div 3)" by blast
  have n: "length (a # b # c # cs) = length cs + 3" by simp
  have p: "base64_pads (a # b # c # cs) = base64_pads cs"
    by (simp only: base64_pads_def n mod_add_self2)
  have "(length cs + 3 + 2) div 3 = Suc ((length cs + 2) div 3)" by linarith
  then have l: "(length (a # b # c # cs) + 2) div 3 = Suc ((length cs + 2) div 3)" by (simp only: n)
  let ?d = "[base64_digit (byte_of a div 4), base64_digit (byte_of a mod 4 * 16 + byte_of b div 16),
    base64_digit (byte_of b mod 16 * 4 + byte_of c div 64), base64_digit (byte_of c mod 64)] @ d"
  have "base64_encode (a # b # c # cs) = ?d @ replicate (base64_pads (a # b # c # cs)) (CHR ''='')"
    by (simp only: p) (simp add: d(1))
  moreover have "list_all base64_char ?d" using d(2) by (simp add: base64_digit_ok)
  moreover have "length ?d + base64_pads (a # b # c # cs) = 4 * ((length (a # b # c # cs) + 2) div 3)"
    unfolding p l mult_Suc_right d(3) [symmetric] by simp
  ultimately show ?case by blast
qed (simp add: base64_pads_def)

end
