(* ===== verification/Contract_Request.thy ===== *)
theory Contract_Request
  imports Contract_Usage Go_Json Go_Base64
begin

text \<open>
  The request envelope: \<open>internal/contract/request.go\<close>, \<open>attribution.go\<close>, \<open>image.go\<close>, the input
  half of \<open>decisions.go\<close>, and the vocabularies of \<open>enums.go\<close> a request uses. A slice the code
  compares with nil is an optional list; a slice it only ranges over is a list. JSON decoding is
  not represented, so a value is what a decoded envelope holds; its floating-point members are
  finite and therefore reals.
\<close>

section \<open>Vocabularies\<close>

datatype environment = EnvironmentDevelopment | EnvironmentStaging | EnvironmentProduction | OtherEnvironment string

datatype scope =
    ScopeInvoke | ScopeModelsRead | ScopeUsageRead | ScopeRoutingRead | ScopeRoutingWrite
  | ScopeProvidersRead | ScopeProvidersWrite | OtherScope string

datatype modality = ModalityText | ModalityImage | ModalityAudio | ModalityVideo | ModalityEmbedding | OtherModality string

datatype message_role = RoleSystem | RoleDeveloper | RoleUser | RoleAssistant | RoleTool | OtherRole string

datatype api_format =
    APIFormatDecisions | APIFormatResponses | APIFormatChatCompletions | APIFormatEmbeddings
  | APIFormatImagesGenerations | APIFormatAudioTranscriptions | APIFormatAudioSpeech
  | APIFormatRerank | APIFormatBatches | OtherAPIFormat string

datatype reasoning_effort = ReasoningEffortLow | ReasoningEffortMedium | ReasoningEffortHigh | OtherEffort string

datatype tool_choice_mode = ToolChoiceAuto | ToolChoiceNone | ToolChoiceRequired | OtherToolChoice string

datatype content_source_kind = ContentSourceURL | ContentSourceInline | OtherSourceKind string

datatype content_part_type =
    ContentPartText | ContentPartImage | ContentPartAudio | ContentPartFile | ContentPartRefusal
  | OtherPartType string

datatype input_format = InputMessages | InputText | InputTextBatch | InputDecisions | OtherInputFormat string

datatype response_format_type =
    ResponseFormatText | ResponseFormatJSONObject | ResponseFormatJSONSchema | OtherResponseFormat string

datatype routing_target_kind = TargetModel | TargetRoutingProfileID | OtherTarget string

datatype route_substitution = SubstitutionSameModel | SubstitutionCrossModel | OtherSubstitution string

datatype service_authority = AuthorityFirstParty | AuthorityExternal | OtherAuthority string

definition environmentValues :: "environment list" where
  "environmentValues = [EnvironmentDevelopment, EnvironmentStaging, EnvironmentProduction]"

definition scopeValues :: "scope list" where
  "scopeValues = [ScopeInvoke, ScopeModelsRead, ScopeUsageRead, ScopeRoutingRead, ScopeRoutingWrite,
     ScopeProvidersRead, ScopeProvidersWrite]"

definition modalityValues :: "modality list" where
  "modalityValues = [ModalityText, ModalityImage, ModalityAudio, ModalityVideo, ModalityEmbedding]"

definition messageRoleValues :: "message_role list" where
  "messageRoleValues = [RoleSystem, RoleDeveloper, RoleUser, RoleAssistant, RoleTool]"

definition apiFormatValues :: "api_format list" where
  "apiFormatValues = [APIFormatResponses, APIFormatChatCompletions, APIFormatEmbeddings, APIFormatImagesGenerations,
     APIFormatAudioTranscriptions, APIFormatAudioSpeech, APIFormatRerank, APIFormatBatches, APIFormatDecisions]"

definition reasoningEffortValues :: "reasoning_effort list" where
  "reasoningEffortValues = [ReasoningEffortLow, ReasoningEffortMedium, ReasoningEffortHigh]"

definition routeSubstitutionValues :: "route_substitution list" where
  "routeSubstitutionValues = [SubstitutionSameModel, SubstitutionCrossModel]"

definition serviceAuthorityValues :: "service_authority list" where
  "serviceAuthorityValues = [AuthorityFirstParty, AuthorityExternal]"

definition speechFormatValues :: "string list" where
  "speechFormatValues = [''mp3'', ''opus'', ''aac'', ''flac'', ''wav'', ''pcm'']"

definition audioOutputFormatValues :: "string list" where
  "audioOutputFormatValues = [''wav'', ''mp3'', ''flac'', ''opus'', ''pcm'']"

definition decisionEffortValues :: "string list" where
  "decisionEffortValues = [''instant'', ''low'', ''medium'', ''high'', ''xhigh'']"

fun role_text :: "message_role \<Rightarrow> string" where
  "role_text RoleSystem = ''system''"
| "role_text RoleDeveloper = ''developer''"
| "role_text RoleUser = ''user''"
| "role_text RoleAssistant = ''assistant''"
| "role_text RoleTool = ''tool''"
| "role_text (OtherRole s) = s"

fun tool_choice_text :: "tool_choice_mode \<Rightarrow> string" where
  "tool_choice_text ToolChoiceAuto = ''auto''"
| "tool_choice_text ToolChoiceNone = ''none''"
| "tool_choice_text ToolChoiceRequired = ''required''"
| "tool_choice_text (OtherToolChoice s) = s"

fun response_format_text :: "response_format_type \<Rightarrow> string" where
  "response_format_text ResponseFormatText = ''text''"
| "response_format_text ResponseFormatJSONObject = ''json_object''"
| "response_format_text ResponseFormatJSONSchema = ''json_schema''"
| "response_format_text (OtherResponseFormat s) = s"

section \<open>The envelope\<close>

record content_source =
  cs_Kind :: content_source_kind
  cs_URL :: "string option"
  cs_MediaType :: "string option"
  cs_Data :: "string option"

record content_part =
  cp_Type :: content_part_type
  cp_Text :: "string option"
  cp_Source :: "content_source option"
  cp_Detail :: "string option"
  cp_Filename :: "string option"

record tool_call =
  tc_ID :: string
  tc_Name :: string
  tc_Arguments :: string

record message =
  msg_Role :: message_role
  msg_Content :: "content_part list"
  msg_Name :: "string option"
  msg_ToolCallID :: "string option"
  msg_ToolCalls :: "tool_call list option"

record decision_question =
  dq_ID :: string
  dq_Kind :: string
  dq_Question :: string
  dq_Criteria :: "string option"
  dq_Options :: "string list option"
  dq_Levels :: "string list option"

record decision_input =
  di_State :: string
  di_Instructions :: "string option"
  di_Questions :: "decision_question list"
  di_Effort :: "string option"

record input =
  in_Decisions :: "decision_input option"
  in_Format :: input_format
  in_Messages :: "message list option"
  in_Text :: "string option"
  in_Texts :: "string list option"

record sampling_parameters =
  sp_Temperature :: "real option"
  sp_TopP :: "real option"
  sp_TopK :: "int option"
  sp_FrequencyPenalty :: "real option"
  sp_PresencePenalty :: "real option"
  sp_Seed :: "int option"
  sp_StopSequences :: "string list option"

record tool_definition =
  td_Type :: string
  td_Name :: string
  td_Description :: "string option"
  td_Parameters :: json
  td_Strict :: "bool option"

record tool_choice =
  tch_Mode :: "tool_choice_mode option"
  tch_Function :: "string option"

record response_format =
  rf_Type :: response_format_type
  rf_Name :: "string option"
  rf_Schema :: json
  rf_Strict :: "bool option"

record routing_target =
  rt_Kind :: routing_target_kind
  rt_ModelReference :: "model_reference option"
  rt_RoutingProfileID :: "string option"

record customer_provider_credential =
  cpc_CredentialHandle :: string
  cpc_CredentialRevision :: int
  cpc_OwnerAccountID :: string
  cpc_ConnectionID :: string
  cpc_Environment :: environment

record authorized_route =
  ar_Substitution :: route_substitution
  ar_DeploymentID :: deployment_id
  ar_ModelReference :: model_reference
  ar_Provider :: provider_slug
  ar_Regions :: "region list option"
  ar_AuthorizedByPolicy :: "bool option"
  ar_MaxFundingTier :: "funding_tier option"
  ar_CustomerProviderCredential :: "customer_provider_credential option"

record client_metadata =
  cm_APIFormat :: api_format
  cm_Endpoint :: string
  cm_ClientRequestID :: "string option"
  cm_ReceivedAt :: timestamp
  cm_Labels :: "(string \<times> string) list"

record speech_parameters =
  spe_Voice :: string
  spe_ResponseFormat :: string
  spe_Speed :: "real option"

record transcription_parameters =
  tp_Language :: "string option"
  tp_Prompt :: "string option"

record audio_output_parameters =
  ao_Voice :: string
  ao_Format :: string

record authenticated_principal =
  ap_Authority :: "service_authority option"
  ap_BillingAccountID :: string
  ap_ApplicationID :: string
  ap_CredentialID :: string
  ap_Environment :: environment
  ap_InferenceScopes :: "scope list option"

record attribution =
  at_Principal :: authenticated_principal
  at_UserID :: "string option"
  at_RequestID :: request_id
  at_GenerationID :: "string option"

record routing_policy_reference =
  rp_RoutingPolicyID :: string
  rp_PolicyVersion :: int

record request =
  rq_Speech :: "speech_parameters option"
  rq_Transcription :: "transcription_parameters option"
  rq_AudioOutput :: "audio_output_parameters option"
  rq_SchemaVersion :: int
  rq_Attribution :: attribution
  rq_Target :: routing_target
  rq_Modality :: modality
  rq_Input :: input
  rq_Stream :: bool
  rq_MaxOutputTokens :: "int option"
  rq_Sampling :: sampling_parameters
  rq_Reasoning :: "reasoning_effort option"
  rq_Tools :: "tool_definition list"
  rq_ToolChoice :: "tool_choice option"
  rq_ResponseFormat :: "response_format option"
  rq_Client :: client_metadata
  rq_IdempotencyKey :: "string option"
  rq_RoutingPolicy :: routing_policy_reference
  rq_AuthorizedRoutes :: "authorized_route list"

section \<open>Refusals\<close>

text \<open>The errors are the messages of the code, without the values they quote.\<close>

datatype route_fault =
    BadSubstitution | BadDeploymentID | UnpinnedReference | BadProvider | NilRegions | BadRegion nat
  | BadCustomerCredential | BadFundingTier | TierOnCustomerCredential
  | SameModelWithPolicy | CrossModelWithoutPolicy

datatype input_fault =
    NoDecisions | BadDecisions | NoMessages | BadMessage nat | NoText | NoTexts | BadInputFormat

datatype request_error =
    DecisionsEnvelope
  | DecisionsTarget
  | DecisionsSubstitution
  | DecisionsSampling
  | DecisionsInputInvalid
  | DecisionsFormat
  | AudioOutputRefused
  | SpeechRefused
  | TranscriptionRefused
  | UnsupportedVersion
  | LegacyTarget
  | NoRequestID
  | AuthorityRefused
  | NoBillingAccount
  | TargetRefused
  | InputRefused input_fault
  | ImagesRefused
  | BadModality
  | BadAPIFormat
  | BadReasoning
  | BadMaxOutputTokens
  | ToolsRefused
  | NoRoutes
  | BadRoute nat route_fault
  | RepeatedDeployment deployment_id
  | PrimarySubstitution
  | PinnedPrimaryMismatch
  | PrimaryLineMismatch
  | PinnedCrossModel nat
  | SubstitutionMismatch nat

text \<open>A chain of checks returns the error of the first that fails.\<close>

definition refuse :: "bool \<Rightarrow> 'e \<Rightarrow> 'e option" where
  "refuse b e = (if b then Some e else None)"

fun first_error :: "'e option list \<Rightarrow> 'e option" where
  "first_error [] = None"
| "first_error (None # es) = first_error es"
| "first_error (Some e # es) = Some e"

definition indexed :: "(nat \<Rightarrow> 'a \<Rightarrow> 'b) \<Rightarrow> 'a list \<Rightarrow> 'b list" where
  "indexed f xs = map (\<lambda>(i, x). f i x) (enumerate 0 xs)"

section \<open>Images\<close>

definition MaxInputImages :: nat where
  "MaxInputImages = 20"

definition MaxInputImageBytes :: nat where
  "MaxInputImageBytes = 3750000"

definition inputImageMediaTypes :: "string list" where
  "inputImageMediaTypes = [''image/png'', ''image/jpeg'', ''image/webp'', ''image/gif'']"

datatype image_issue_field =
  ImageIssueRole | ImageIssueSource | ImageIssueMediaType | ImageIssueData | ImageIssueCount

record image_input_issue =
  ii_MessageIndex :: int
  ii_PartIndex :: "nat option"
  ii_Field :: image_issue_field

definition base64_padding :: "string \<Rightarrow> nat" where
  "base64_padding s = (if has_prefix (rev s) ''=='' then 2 else if has_prefix (rev s) ''='' then 1 else 0)"

definition Base64DecodedLength :: "string \<Rightarrow> nat option" where
  "Base64DecodedLength s =
     (if length s = 0 \<or> length s mod 4 \<noteq> 0 then None
      else if list_all base64_char (take (length s - base64_padding s) s)
      then Some (length s div 4 * 3 - base64_padding s) else None)"

lemma image_size_as_int [code_unfold]: "n > MaxInputImageBytes \<longleftrightarrow> int n > 3750000"
  by (simp add: MaxInputImageBytes_def)

definition image_part_issues :: "message_role \<Rightarrow> content_part \<Rightarrow> image_issue_field list" where
  "image_part_issues role part =
     (if role \<noteq> RoleUser \<and> role \<noteq> RoleTool then [ImageIssueRole] else []) @
     (case cp_Source part of
        None \<Rightarrow> [ImageIssueSource]
      | Some s \<Rightarrow>
          if cs_Kind s \<noteq> ContentSourceInline then [ImageIssueSource]
          else
            (case cs_MediaType s of
               None \<Rightarrow> [ImageIssueMediaType]
             | Some m \<Rightarrow> if is_member m inputImageMediaTypes then [] else [ImageIssueMediaType]) @
            (case Base64DecodedLength (case cs_Data s of Some d \<Rightarrow> d | None \<Rightarrow> []) of
               None \<Rightarrow> [ImageIssueData]
             | Some n \<Rightarrow> if n > MaxInputImageBytes then [ImageIssueData] else []))"

definition message_image_issues :: "nat \<Rightarrow> message \<Rightarrow> image_input_issue list" where
  "message_image_issues mi m =
     concat (indexed (\<lambda>pi part.
       if cp_Type part \<noteq> ContentPartImage then []
       else map (\<lambda>f. \<lparr>ii_MessageIndex = int mi, ii_PartIndex = Some pi, ii_Field = f\<rparr>)
              (image_part_issues (msg_Role m) part)) (msg_Content m))"

definition image_parts :: "message list \<Rightarrow> content_part list" where
  "image_parts ms = concat (map (\<lambda>m. filter (\<lambda>p. cp_Type p = ContentPartImage) (msg_Content m)) ms)"

definition CheckImageInput :: "message list \<Rightarrow> nat \<times> image_input_issue list" where
  "CheckImageInput ms =
     (let images = length (image_parts ms)
      in (images,
          concat (indexed message_image_issues ms) @
          (if images > MaxInputImages
           then [\<lparr>ii_MessageIndex = int (length ms) - 1, ii_PartIndex = None, ii_Field = ImageIssueCount\<rparr>]
           else [])))"

section \<open>Decision input\<close>

definition DecisionTotalBudget :: nat where "DecisionTotalBudget = 64000"

definition DecisionContextBudget :: nat where "DecisionContextBudget = 32000"

definition DecisionGatewayBudget :: nat where "DecisionGatewayBudget = 32000"

definition DecisionGatewayAllowance :: nat where "DecisionGatewayAllowance = 4096"

definition decisionModelAllowance :: nat where "decisionModelAllowance = 255"

definition decisionText :: "string \<Rightarrow> bool" where
  "decisionText s \<longleftrightarrow> length s > 0 \<and> utf16Length s \<le> 65536"

definition question_json :: "decision_question \<Rightarrow> json" where
  "question_json q = JObject
     ([(''id'', JString (dq_ID q)), (''kind'', JString (dq_Kind q)), (''question'', JString (dq_Question q))] @
      omitempty ''criteria'' JString (dq_Criteria q) @ omitempty_slice ''options'' JString (dq_Options q) @
      omitempty_slice ''levels'' JString (dq_Levels q))"

definition wire_question :: "decision_input \<Rightarrow> decision_question \<Rightarrow> json" where
  "wire_question d q = JObject
     ([(''type'', JString (dq_Kind q)),
       (''instructions'', go_map
          ([(''question'', JString (dq_Question q))] @
           omitempty ''instructions'' JString (di_Instructions d) @
           omitempty ''criteria'' JString (dq_Criteria q)))] @
      (if dq_Kind q = ''choice''
       then [(''criteria'', go_map (fold (\<lambda>l. AList.update l JNull) (slice (dq_Options q)) []))]
       else if dq_Kind q = ''score'' then [(''criteria'', slice_json JString (dq_Levels q))]
       else []))"

definition DecisionWireQuestions :: "decision_input \<Rightarrow> decision_question list \<Rightarrow> (string \<times> json) list" where
  "DecisionWireQuestions d qs = fold (\<lambda>q. AList.update (dq_ID q) (wire_question d q)) qs []"

definition decision_measure :: "decision_input \<Rightarrow> decision_question list \<Rightarrow> nat" where
  "decision_measure d qs =
     (let model = JString (replicate decisionModelAllowance (CHR ''x''));
          normalized = json_Marshal (JObject
            ([(''state'', JString (di_State d))] @ omitempty ''instructions'' JString (di_Instructions d) @
             [(''questions'', JArray (map question_json qs))] @ omitempty ''effort'' JString (di_Effort d) @
             [(''model'', model)]));
          wire = json_Marshal (JObject
            ([(''model'', model), (''state'', JString (di_State d)),
              (''questions'', go_map (DecisionWireQuestions d qs))] @ omitempty ''effort'' JString (di_Effort d)))
      in max (length normalized) (length wire))"

record decision_budget =
  db_Total :: nat
  db_Context :: nat
  db_Gateway :: nat

definition Budget :: "decision_input \<Rightarrow> decision_budget" where
  "Budget d =
     (let total = decision_measure d (di_Questions d)
      in \<lparr>db_Total = total, db_Context = fold (\<lambda>q context. max context (decision_measure d [q])) (di_Questions d) 0,
          db_Gateway = total + DecisionGatewayAllowance\<rparr>)"

definition FitsGateway :: "decision_input \<Rightarrow> bool" where
  "FitsGateway d \<longleftrightarrow> db_Gateway (Budget d) \<le> DecisionGatewayBudget"

datatype decision_fault =
    DecisionState | DecisionInstructions | DecisionRepeated | DecisionCriteria | DecisionOptions
  | DecisionLevels | DecisionNoul | DecisionKindUnknown | DecisionLabel | DecisionOverBudget

definition question_labels :: "decision_question \<Rightarrow> decision_fault + string list" where
  "question_labels q =
     (if dq_Kind q = ''choice'' then
        if length (slice (dq_Options q)) < 2 \<or> length (slice (dq_Options q)) > 255 \<or> dq_Levels q \<noteq> None
        then Inl DecisionOptions else Inr (slice (dq_Options q))
      else if dq_Kind q = ''score'' then
        if length (slice (dq_Levels q)) < 2 \<or> length (slice (dq_Levels q)) > 10 \<or> dq_Options q \<noteq> None
        then Inl DecisionLevels else Inr (slice (dq_Levels q))
      else if dq_Kind q = ''noul'' then
        if dq_Levels q \<noteq> None \<or> dq_Options q \<noteq> None then Inl DecisionNoul else Inr []
      else Inl DecisionKindUnknown)"

fun check_questions :: "string list \<Rightarrow> decision_question list \<Rightarrow> decision_fault option" where
  "check_questions seen [] = None"
| "check_questions seen (q # qs) =
     (if dq_ID q = [] \<or> utf16Length (dq_ID q) > 128 \<or> is_member (dq_ID q) seen \<or> \<not> decisionText (dq_Question q)
      then Some DecisionRepeated
      else if (case dq_Criteria q of Some c \<Rightarrow> \<not> decisionText c | None \<Rightarrow> False) then Some DecisionCriteria
      else case question_labels q of
             Inl e \<Rightarrow> Some e
           | Inr labels \<Rightarrow>
               if \<not> list_all decisionText labels \<or> \<not> distinct labels then Some DecisionLabel
               else check_questions (dq_ID q # seen) qs)"

definition ValidatedBudget :: "decision_input \<Rightarrow> decision_fault + decision_budget" where
  "ValidatedBudget d =
     (if length (di_Questions d) < 1 \<or> length (di_Questions d) > 255 \<or> utf16Length (di_State d) > 65536 \<or>
         (case di_Effort d of Some e \<Rightarrow> \<not> is_member e decisionEffortValues | None \<Rightarrow> False)
      then Inl DecisionState
      else if (case di_Instructions d of Some i \<Rightarrow> \<not> decisionText i | None \<Rightarrow> False) then Inl DecisionInstructions
      else case check_questions [] (di_Questions d) of
             Some e \<Rightarrow> Inl e
           | None \<Rightarrow>
               if db_Total (Budget d) > DecisionTotalBudget \<or> db_Context (Budget d) > DecisionContextBudget
               then Inl DecisionOverBudget else Inr (Budget d))"

definition decision_Validate :: "decision_input \<Rightarrow> decision_fault option" where
  "decision_Validate d = (case ValidatedBudget d of Inl e \<Rightarrow> Some e | Inr _ \<Rightarrow> None)"

section \<open>Validation\<close>

definition LegacyRequestEnvelopeVersion :: int where "LegacyRequestEnvelopeVersion = 1"

definition RequestEnvelopeVersion :: int where "RequestEnvelopeVersion = 2"

definition SupportsRequestEnvelopeVersion :: "int \<Rightarrow> bool" where
  "SupportsRequestEnvelopeVersion v \<longleftrightarrow> v = LegacyRequestEnvelopeVersion \<or> v = RequestEnvelopeVersion"

definition isFirstParty :: "service_authority option \<Rightarrow> bool" where
  "isFirstParty a \<longleftrightarrow> a = Some AuthorityFirstParty"

text \<open>\<open>Some ()\<close> is one of the three refusals of the function, which callers only pass on.\<close>

definition validateAuthority :: "service_authority option \<Rightarrow> scope list option \<Rightarrow> unit option" where
  "validateAuthority authority scopes =
     refuse ((case authority of Some a \<Rightarrow> \<not> is_member a serviceAuthorityValues | None \<Rightarrow> False) \<or>
             \<not> list_all (\<lambda>s. is_member s scopeValues) (slice scopes) \<or>
             isFirstParty authority \<and> scopes \<noteq> None) ()"

definition languageTagPattern :: regex where
  "languageTagPattern = rseq [RBegin, RRepeat 2 (Some 3) (RChar (\<lambda>c. is_lower c \<or> is_upper c)),
     RRepeat 0 None (RSeq (rlit ''-'') (RRepeat 2 (Some 8) (RChar is_alnum))), REnd]"

definition language_Valid :: "string \<Rightarrow> bool" where
  "language_Valid t \<longleftrightarrow> length t \<le> 35 \<and> match_string languageTagPattern t"

definition kaanaCredentialHandlePattern :: regex where
  "kaanaCredentialHandlePattern = rseq [RBegin, rlit ''kcred_'',
     RRepeat 26 (Some 26) (RChar (\<lambda>c. is_lower c \<or> one_of ''234567'' c)), REnd]"

definition validKaanaCredentialHandle :: "string \<Rightarrow> bool" where
  "validKaanaCredentialHandle h \<longleftrightarrow> match_string kaanaCredentialHandlePattern h"

definition customer_credential_ok :: "customer_provider_credential \<Rightarrow> bool" where
  "customer_credential_ok c \<longleftrightarrow>
     validKaanaCredentialHandle (cpc_CredentialHandle c) \<and>
     \<not> (cpc_CredentialRevision c \<le> 0 \<or> cpc_CredentialRevision c > 2 ^ 53 - 1) \<and>
     \<not> (length (cpc_OwnerAccountID c) = 0 \<or> length (cpc_OwnerAccountID c) > 64) \<and>
     \<not> (length (cpc_ConnectionID c) = 0 \<or> length (cpc_ConnectionID c) > 128) \<and>
     is_member (cpc_Environment c) environmentValues"

definition route_validate :: "authorized_route \<Rightarrow> route_fault option" where
  "route_validate r = first_error
     ([refuse (\<not> is_member (ar_Substitution r) routeSubstitutionValues) BadSubstitution,
       refuse (length (ar_DeploymentID r) = 0 \<or> length (ar_DeploymentID r) > 128) BadDeploymentID,
       refuse (\<not> reference_Valid (ar_ModelReference r) \<or> \<not> Pinned (ar_ModelReference r)) UnpinnedReference,
       refuse (\<not> slug_Valid (ar_Provider r)) BadProvider,
       refuse (ar_Regions r = None) NilRegions] @
      indexed (\<lambda>i g. refuse (\<not> region_Valid g) (BadRegion i)) (slice (ar_Regions r)) @
      [case ar_CustomerProviderCredential r of
         Some c \<Rightarrow> refuse (\<not> customer_credential_ok c) BadCustomerCredential | None \<Rightarrow> None,
       case ar_MaxFundingTier r of
         None \<Rightarrow> None
       | Some t \<Rightarrow> first_error [refuse (\<not> tier_Valid t) BadFundingTier,
                    refuse (ar_CustomerProviderCredential r \<noteq> None) TierOnCustomerCredential],
       case ar_Substitution r of
         SubstitutionSameModel \<Rightarrow> refuse (ar_AuthorizedByPolicy r \<noteq> None) SameModelWithPolicy
       | SubstitutionCrossModel \<Rightarrow> refuse (ar_AuthorizedByPolicy r \<noteq> Some True) CrossModelWithoutPolicy
       | OtherSubstitution _ \<Rightarrow> None])"

fun route_list_errors :: "nat \<Rightarrow> deployment_id list \<Rightarrow> authorized_route list \<Rightarrow> request_error option" where
  "route_list_errors i seen [] = None"
| "route_list_errors i seen (r # rs) =
     (case route_validate r of
        Some e \<Rightarrow> Some (BadRoute i e)
      | None \<Rightarrow>
          if is_member (ar_DeploymentID r) seen then Some (RepeatedDeployment (ar_DeploymentID r))
          else route_list_errors (Suc i) (ar_DeploymentID r # seen) rs)"

definition validateRouteList :: "authorized_route list \<Rightarrow> request_error option" where
  "validateRouteList rs = (if rs = [] then Some NoRoutes else route_list_errors 0 [] rs)"

definition validate_model_target :: "model_reference \<Rightarrow> authorized_route \<Rightarrow> authorized_route list \<Rightarrow> request_error option" where
  "validate_model_target target primary routes = first_error
     ([refuse (Pinned target \<and> ar_ModelReference primary \<noteq> target) PinnedPrimaryMismatch,
       refuse (\<not> Pinned target \<and> ModelID (ar_ModelReference primary) \<noteq> ModelID target) PrimaryLineMismatch] @
      (if Pinned target
       then indexed (\<lambda>i r. refuse (ar_Substitution r = SubstitutionCrossModel) (PinnedCrossModel i)) routes
       else []))"

definition substitution_matches :: "model_id \<Rightarrow> authorized_route \<Rightarrow> bool" where
  "substitution_matches line r \<longleftrightarrow>
     \<not> (ar_Substitution r = SubstitutionSameModel \<and> ModelID (ar_ModelReference r) \<noteq> line) \<and>
     \<not> (ar_Substitution r = SubstitutionCrossModel \<and> ModelID (ar_ModelReference r) = line)"

definition validateAuthorizedRoutes :: "request \<Rightarrow> request_error option" where
  "validateAuthorizedRoutes r =
     (case validateRouteList (rq_AuthorizedRoutes r) of
        Some e \<Rightarrow> Some e
      | None \<Rightarrow>
          let primary = hd (rq_AuthorizedRoutes r)
          in first_error
               ([refuse (ar_Substitution primary \<noteq> SubstitutionSameModel) PrimarySubstitution,
                 case (rt_Kind (rq_Target r), rt_ModelReference (rq_Target r)) of
                   (TargetModel, Some target) \<Rightarrow> validate_model_target target primary (rq_AuthorizedRoutes r)
                 | _ \<Rightarrow> None] @
                indexed (\<lambda>i x. refuse (\<not> substitution_matches (ModelID (ar_ModelReference primary)) x)
                                 (SubstitutionMismatch i)) (rq_AuthorizedRoutes r)))"

definition target_ok :: "routing_target \<Rightarrow> bool" where
  "target_ok t \<longleftrightarrow>
     (case rt_Kind t of
        TargetModel \<Rightarrow>
          (case rt_ModelReference t of Some m \<Rightarrow> reference_Valid m | None \<Rightarrow> False) \<and> rt_RoutingProfileID t = None
      | TargetRoutingProfileID \<Rightarrow>
          (case rt_RoutingProfileID t of Some p \<Rightarrow> profile_Valid p | None \<Rightarrow> False) \<and> rt_ModelReference t = None
      | OtherTarget _ \<Rightarrow> False)"

definition source_ok :: "content_source \<Rightarrow> bool" where
  "source_ok s \<longleftrightarrow>
     (case cs_Kind s of
        ContentSourceURL \<Rightarrow> \<not> (cs_URL s = None \<or> cs_URL s = Some '''')
      | ContentSourceInline \<Rightarrow> \<not> (cs_MediaType s = None \<or> cs_Data s = None)
      | OtherSourceKind _ \<Rightarrow> False)"

definition part_ok :: "content_part \<Rightarrow> bool" where
  "part_ok p \<longleftrightarrow>
     (if cp_Type p = ContentPartText \<or> cp_Type p = ContentPartRefusal then cp_Text p \<noteq> None
      else if cp_Type p = ContentPartImage \<or> cp_Type p = ContentPartAudio \<or> cp_Type p = ContentPartFile
      then (case cp_Source p of Some s \<Rightarrow> source_ok s | None \<Rightarrow> False)
      else False)"

definition message_ok :: "message \<Rightarrow> bool" where
  "message_ok m \<longleftrightarrow>
     is_member (msg_Role m) messageRoleValues \<and>
     \<not> (msg_Role m = RoleTool \<and> msg_ToolCallID m = None) \<and>
     \<not> (msg_Role m \<noteq> RoleTool \<and> msg_ToolCallID m \<noteq> None) \<and>
     \<not> (msg_Role m \<noteq> RoleAssistant \<and> msg_ToolCalls m \<noteq> None) \<and>
     list_all (\<lambda>p. \<not> (msg_Role m \<noteq> RoleAssistant \<and> cp_Type p = ContentPartRefusal) \<and> part_ok p) (msg_Content m)"

definition input_validate :: "input \<Rightarrow> input_fault option" where
  "input_validate i =
     (case in_Format i of
        InputDecisions \<Rightarrow>
          (case in_Decisions i of
             None \<Rightarrow> Some NoDecisions
           | Some d \<Rightarrow> refuse (decision_Validate d \<noteq> None) BadDecisions)
      | InputMessages \<Rightarrow> first_error
          (refuse (slice (in_Messages i) = []) NoMessages #
           indexed (\<lambda>n m. refuse (\<not> message_ok m) (BadMessage n)) (slice (in_Messages i)))
      | InputText \<Rightarrow> refuse (in_Text i = None) NoText
      | InputTextBatch \<Rightarrow> refuse (slice (in_Texts i) = []) NoTexts
      | OtherInputFormat _ \<Rightarrow> Some BadInputFormat)"

definition validateToolDeclarations :: "string list \<Rightarrow> tool_choice option \<Rightarrow> bool" where
  "validateToolDeclarations names choice \<longleftrightarrow> \<not> (choice \<noteq> None \<and> names = []) \<and> distinct names"

definition no_sampling :: "sampling_parameters \<Rightarrow> bool" where
  "no_sampling s \<longleftrightarrow>
     \<not> (sp_Temperature s \<noteq> None \<or> sp_TopP s \<noteq> None \<or> sp_TopK s \<noteq> None \<or> sp_FrequencyPenalty s \<noteq> None \<or>
        sp_PresencePenalty s \<noteq> None \<or> sp_Seed s \<noteq> None \<or> sp_StopSequences s \<noteq> None)"

definition decisions_routes :: "request \<Rightarrow> request_error option" where
  "decisions_routes r =
     (case rt_Kind (rq_Target r) of
        TargetModel \<Rightarrow>
          (case rt_ModelReference (rq_Target r) of
             None \<Rightarrow> Some DecisionsTarget
           | Some target \<Rightarrow>
               refuse (list_ex (\<lambda>x.
                   let revision = if Pinned target then target else ar_ModelReference (hd (rq_AuthorizedRoutes r))
                   in ar_ModelReference x \<noteq> revision \<or> \<not> Pinned revision \<or> ModelID revision \<noteq> ModelID target \<or>
                      ar_Substitution x \<noteq> SubstitutionSameModel) (rq_AuthorizedRoutes r)) DecisionsSubstitution)
      | TargetRoutingProfileID \<Rightarrow>
          refuse (list_ex (\<lambda>x. \<not> Pinned (ar_ModelReference x)) (rq_AuthorizedRoutes r)) DecisionsSubstitution
      | OtherTarget _ \<Rightarrow> Some DecisionsTarget)"

definition ValidateDecisionsEnvelope :: "request \<Rightarrow> request_error option" where
  "ValidateDecisionsEnvelope r =
     (let i = rq_Input r
      in first_error
       [refuse (cm_APIFormat (rq_Client r) \<noteq> APIFormatDecisions \<or> in_Format i \<noteq> InputDecisions \<or>
           in_Decisions i = None \<or> rq_Modality r \<noteq> ModalityText \<or> rq_Stream r \<or> rq_MaxOutputTokens r \<noteq> None \<or>
           length (rq_Tools r) \<noteq> 0 \<or> rq_ToolChoice r \<noteq> None \<or> rq_ResponseFormat r \<noteq> None \<or>
           rq_Reasoning r \<noteq> None \<or> rq_Speech r \<noteq> None \<or> rq_Transcription r \<noteq> None \<or> rq_AudioOutput r \<noteq> None \<or>
           in_Messages i \<noteq> None \<or> in_Text i \<noteq> None \<or> in_Texts i \<noteq> None) DecisionsEnvelope,
        decisions_routes r,
        refuse (\<not> no_sampling (rq_Sampling r)) DecisionsSampling,
        case in_Decisions i of
          Some d \<Rightarrow> refuse (decision_Validate d \<noteq> None) DecisionsInputInvalid | None \<Rightarrow> None])"

definition audio_output_ok :: "request \<Rightarrow> audio_output_parameters \<Rightarrow> bool" where
  "audio_output_ok r a \<longleftrightarrow>
     \<not> (cm_APIFormat (rq_Client r) \<noteq> APIFormatChatCompletions) \<and>
     \<not> (rq_Modality r \<noteq> ModalityAudio \<or> in_Format (rq_Input r) \<noteq> InputMessages) \<and>
     \<not> (length (ao_Voice a) = 0 \<or> utf16Length (ao_Voice a) > 64) \<and>
     is_member (ao_Format a) audioOutputFormatValues \<and>
     \<not> (rq_Stream r \<and> ao_Format a \<noteq> ''pcm'')"

definition speech_ok :: "request \<Rightarrow> speech_parameters \<Rightarrow> bool" where
  "speech_ok r s \<longleftrightarrow>
     \<not> (cm_APIFormat (rq_Client r) \<noteq> APIFormatAudioSpeech \<or> rq_Modality r \<noteq> ModalityAudio \<or>
        in_Format (rq_Input r) \<noteq> InputText) \<and>
     \<not> (length (spe_Voice s) = 0 \<or> utf16Length (spe_Voice s) > 64 \<or>
        \<not> is_member (spe_ResponseFormat s) speechFormatValues) \<and>
     (case spe_Speed s of Some v \<Rightarrow> \<not> (v < 1 / 4 \<or> v > 4) | None \<Rightarrow> True)"

definition transcription_ok :: "request \<Rightarrow> transcription_parameters \<Rightarrow> bool" where
  "transcription_ok r t \<longleftrightarrow>
     \<not> (cm_APIFormat (rq_Client r) \<noteq> APIFormatAudioTranscriptions \<or> rq_Modality r \<noteq> ModalityAudio \<or>
        in_Format (rq_Input r) \<noteq> InputMessages) \<and>
     (case tp_Language t of Some l \<Rightarrow> language_Valid l | None \<Rightarrow> True)"

definition request_Validate :: "request \<Rightarrow> request_error option" where
  "request_Validate r =
     (let p = at_Principal (rq_Attribution r)
      in first_error
       [if in_Format (rq_Input r) = InputDecisions \<or> cm_APIFormat (rq_Client r) = APIFormatDecisions
        then ValidateDecisionsEnvelope r
        else refuse (in_Decisions (rq_Input r) \<noteq> None) DecisionsFormat,
        case rq_AudioOutput r of Some a \<Rightarrow> refuse (\<not> audio_output_ok r a) AudioOutputRefused | None \<Rightarrow> None,
        case rq_Speech r of Some s \<Rightarrow> refuse (\<not> speech_ok r s) SpeechRefused | None \<Rightarrow> None,
        case rq_Transcription r of Some t \<Rightarrow> refuse (\<not> transcription_ok r t) TranscriptionRefused | None \<Rightarrow> None,
        refuse (\<not> SupportsRequestEnvelopeVersion (rq_SchemaVersion r)) UnsupportedVersion,
        refuse (rq_SchemaVersion r = LegacyRequestEnvelopeVersion \<and> rt_Kind (rq_Target r) \<noteq> TargetModel) LegacyTarget,
        refuse (at_RequestID (rq_Attribution r) = '''') NoRequestID,
        refuse (validateAuthority (ap_Authority p) (ap_InferenceScopes p) \<noteq> None) AuthorityRefused,
        refuse (ap_BillingAccountID p = '''') NoBillingAccount,
        refuse (\<not> target_ok (rq_Target r)) TargetRefused,
        map_option InputRefused (input_validate (rq_Input r)),
        refuse (in_Format (rq_Input r) = InputMessages \<and>
                snd (CheckImageInput (slice (in_Messages (rq_Input r)))) \<noteq> []) ImagesRefused,
        refuse (\<not> is_member (rq_Modality r) modalityValues) BadModality,
        refuse (\<not> is_member (cm_APIFormat (rq_Client r)) apiFormatValues) BadAPIFormat,
        refuse (case rq_Reasoning r of Some e \<Rightarrow> \<not> is_member e reasoningEffortValues | None \<Rightarrow> False) BadReasoning,
        refuse (case rq_MaxOutputTokens r of Some n \<Rightarrow> n \<le> 0 | None \<Rightarrow> False) BadMaxOutputTokens,
        refuse (\<not> validateToolDeclarations (map td_Name (rq_Tools r)) (rq_ToolChoice r)) ToolsRefused,
        validateAuthorizedRoutes r])"

section \<open>A concrete envelope\<close>

definition demo_route :: "deployment_id \<Rightarrow> model_reference \<Rightarrow> authorized_route" where
  "demo_route d m = \<lparr>ar_Substitution = SubstitutionSameModel, ar_DeploymentID = d, ar_ModelReference = m,
     ar_Provider = ''p'', ar_Regions = Some [], ar_AuthorizedByPolicy = None, ar_MaxFundingTier = None,
     ar_CustomerProviderCredential = None\<rparr>"

definition cross_route :: "deployment_id \<Rightarrow> model_reference \<Rightarrow> authorized_route" where
  "cross_route d m = (demo_route d m)\<lparr>ar_Substitution := SubstitutionCrossModel, ar_AuthorizedByPolicy := Some True\<rparr>"

definition demo_request :: "message list \<Rightarrow> authorized_route list \<Rightarrow> request" where
  "demo_request ms routes =
     \<lparr>rq_Speech = None, rq_Transcription = None, rq_AudioOutput = None, rq_SchemaVersion = 2,
      rq_Attribution =
        \<lparr>at_Principal = \<lparr>ap_Authority = Some AuthorityFirstParty, ap_BillingAccountID = ''a'', ap_ApplicationID = ''app'',
           ap_CredentialID = ''c'', ap_Environment = EnvironmentProduction, ap_InferenceScopes = None\<rparr>,
         at_UserID = None, at_RequestID = ''r'', at_GenerationID = None\<rparr>,
      rq_Target = \<lparr>rt_Kind = TargetModel, rt_ModelReference = Some ''a/m'', rt_RoutingProfileID = None\<rparr>,
      rq_Modality = ModalityText,
      rq_Input = \<lparr>in_Decisions = None, in_Format = InputMessages, in_Messages = Some ms, in_Text = None, in_Texts = None\<rparr>,
      rq_Stream = True, rq_MaxOutputTokens = None,
      rq_Sampling = \<lparr>sp_Temperature = None, sp_TopP = None, sp_TopK = None, sp_FrequencyPenalty = None,
        sp_PresencePenalty = None, sp_Seed = None, sp_StopSequences = None\<rparr>,
      rq_Reasoning = None, rq_Tools = [], rq_ToolChoice = None, rq_ResponseFormat = None,
      rq_Client = \<lparr>cm_APIFormat = APIFormatChatCompletions, cm_Endpoint = ''/v1'', cm_ClientRequestID = None,
        cm_ReceivedAt = 0, cm_Labels = []\<rparr>,
      rq_IdempotencyKey = None, rq_RoutingPolicy = \<lparr>rp_RoutingPolicyID = ''rp'', rp_PolicyVersion = 1\<rparr>,
      rq_AuthorizedRoutes = routes\<rparr>"

definition user_message :: "content_part list \<Rightarrow> message" where
  "user_message ps = \<lparr>msg_Role = RoleUser, msg_Content = ps, msg_Name = None, msg_ToolCallID = None, msg_ToolCalls = None\<rparr>"

definition text_part :: "string \<Rightarrow> content_part" where
  "text_part s = \<lparr>cp_Type = ContentPartText, cp_Text = Some s, cp_Source = None, cp_Detail = None, cp_Filename = None\<rparr>"

definition image_part :: "string \<Rightarrow> string \<Rightarrow> content_part" where
  "image_part m d = \<lparr>cp_Type = ContentPartImage, cp_Text = None,
     cp_Source = Some \<lparr>cs_Kind = ContentSourceInline, cs_URL = None, cs_MediaType = Some m, cs_Data = Some d\<rparr>,
     cp_Detail = None, cp_Filename = None\<rparr>"

section \<open>Lemmas\<close>

lemma first_error_None: "first_error es = None \<longleftrightarrow> (\<forall>e \<in> set es. e = None)"
  by (induction es rule: first_error.induct) auto

lemma first_error_append_None: "first_error (es @ fs) = None \<longleftrightarrow> first_error es = None \<and> first_error fs = None"
  by (auto simp: first_error_None)

lemma refuse_None [simp]: "refuse b e = None \<longleftrightarrow> \<not> b"
  by (simp add: refuse_def)

lemma first_error_indexed_None:
  "first_error (indexed f xs) = None \<longleftrightarrow> (\<forall>i < length xs. f i (xs ! i) = None)"
  by (auto simp: first_error_None indexed_def all_set_conv_all_nth nth_enumerate_eq)

lemma first_error_Cons_None: "first_error (e # es) = None \<longleftrightarrow> e = None \<and> first_error es = None"
  by (cases e) simp_all

lemmas first_error_simps = first_error_Cons_None first_error_append_None first_error_indexed_None

lemma indexed_refuse_None:
  "first_error (indexed (\<lambda>i x. refuse (p x) (e i)) xs) = None \<longleftrightarrow> (\<forall>x \<in> set xs. \<not> p x)"
  by (auto simp: first_error_indexed_None all_set_conv_all_nth)

lemma route_list_errors_None:
  "route_list_errors i seen rs = None \<longleftrightarrow>
     (\<forall>r \<in> set rs. route_validate r = None) \<and> distinct (map ar_DeploymentID rs) \<and>
     set (map ar_DeploymentID rs) \<inter> set seen = {}"
  by (induction i seen rs rule: route_list_errors.induct) (auto simp: is_member_def split: option.splits)

lemma validateRouteList_None:
  "validateRouteList rs = None \<longleftrightarrow>
     rs \<noteq> [] \<and> (\<forall>r \<in> set rs. route_validate r = None) \<and> distinct (map ar_DeploymentID rs)"
  by (simp add: validateRouteList_def route_list_errors_None)

lemma route_validate_None:
  assumes "route_validate r = None"
  shows "Pinned (ar_ModelReference r) \<and> reference_Valid (ar_ModelReference r) \<and> slug_Valid (ar_Provider r) \<and>
    0 < length (ar_DeploymentID r) \<and> length (ar_DeploymentID r) \<le> 128 \<and> ar_Regions r \<noteq> None \<and>
    (ar_Substitution r = SubstitutionCrossModel \<longrightarrow> ar_AuthorizedByPolicy r = Some True) \<and>
    (ar_MaxFundingTier r \<noteq> None \<longrightarrow> ar_CustomerProviderCredential r = None)"
  using assms unfolding route_validate_def first_error_simps
  by (auto simp: first_error_simps split: option.splits)

lemma request_Validate_routes:
  "request_Validate r = None \<Longrightarrow> validateAuthorizedRoutes r = None \<and> target_ok (rq_Target r)"
  unfolding request_Validate_def Let_def first_error_simps by simp

lemma validateAuthorizedRoutes_None:
  assumes "validateAuthorizedRoutes r = None"
  shows "validateRouteList (rq_AuthorizedRoutes r) = None \<and>
    ar_Substitution (hd (rq_AuthorizedRoutes r)) = SubstitutionSameModel \<and>
    (\<forall>x \<in> set (rq_AuthorizedRoutes r).
       substitution_matches (ModelID (ar_ModelReference (hd (rq_AuthorizedRoutes r)))) x)"
  using assms unfolding validateAuthorizedRoutes_def Let_def
  by (auto simp: first_error_Cons_None first_error_append_None indexed_refuse_None split: option.splits)

lemma validateAuthorizedRoutes_target:
  assumes "validateAuthorizedRoutes r = None" and "rt_Kind (rq_Target r) = TargetModel"
    and "rt_ModelReference (rq_Target r) = Some m"
  shows "validate_model_target m (hd (rq_AuthorizedRoutes r)) (rq_AuthorizedRoutes r) = None"
  using assms unfolding validateAuthorizedRoutes_def Let_def
  by (auto simp: first_error_simps split: option.splits)

lemma base64_padding_pads:
  assumes "n \<le> 2" and "list_all base64_char d"
  shows "base64_padding (d @ replicate n (CHR ''='')) = n"
proof -
  have "d = [] \<or> last d \<noteq> CHR ''=''"
    using assms(2) by (cases d rule: rev_cases) (auto simp: base64_char_def char_class_defs)
  then have "rev d = [] \<or> hd (rev d) \<noteq> CHR ''=''" by (simp add: hd_rev)
  with assms(1) show ?thesis
    by (cases "rev d") (auto simp: base64_padding_def has_prefix_def le_Suc_eq numeral_2_eq_2)
qed

lemma base64_pads_length: "(length s + 2) div 3 * 3 - base64_pads s = length s"
proof -
  obtain q r where n: "length s = 3 * q + r" and r: "r < 3" using that [of "length s div 3" "length s mod 3"] by simp
  have "r = 0 \<or> r = 1 \<or> r = 2" using r by linarith
  moreover have "length s mod 3 = r" using n r by simp
  ultimately show ?thesis by (elim disjE) (simp_all add: base64_pads_def, simp_all add: n)
qed

lemma concat_indexed_Nil: "concat (indexed f xs) = [] \<longleftrightarrow> (\<forall>i < length xs. f i (xs ! i) = [])"
  by (auto simp: indexed_def all_set_conv_all_nth nth_enumerate_eq)

lemma message_image_issues_Nil:
  "message_image_issues mi m = [] \<longleftrightarrow>
     (\<forall>p \<in> set (msg_Content m). cp_Type p = ContentPartImage \<longrightarrow> image_part_issues (msg_Role m) p = [])"
  by (auto simp: message_image_issues_def concat_indexed_Nil all_set_conv_all_nth simp del: concat_eq_Nil_conv)

lemma CheckImageInput_Nil:
  "snd (CheckImageInput ms) = [] \<longleftrightarrow>
     length (image_parts ms) \<le> MaxInputImages \<and>
     (\<forall>m \<in> set ms. \<forall>p \<in> set (msg_Content m). cp_Type p = ContentPartImage \<longrightarrow>
        image_part_issues (msg_Role m) p = [])"
  by (auto simp: CheckImageInput_def Let_def concat_indexed_Nil message_image_issues_Nil all_set_conv_all_nth
      simp del: concat_eq_Nil_conv)

lemma image_part_issues_Nil:
  "image_part_issues role p = [] \<Longrightarrow>
   (role = RoleUser \<or> role = RoleTool) \<and>
   (\<exists>s m n. cp_Source p = Some s \<and> cs_Kind s = ContentSourceInline \<and> cs_MediaType s = Some m \<and>
      m \<in> set inputImageMediaTypes \<and>
      Base64DecodedLength (case cs_Data s of Some d \<Rightarrow> d | None \<Rightarrow> []) = Some n \<and> n \<le> MaxInputImageBytes)"
  by (auto simp: image_part_issues_def is_member_def split: if_splits option.splits)

section \<open>Properties\<close>

text \<open>
  The decoded length of an image is counted without decoding it, and the count is right: for
  the standard encoding of any non-empty byte string it is exactly that string's length.
\<close>

theorem Base64DecodedLength_encode:
  "Base64DecodedLength (base64_encode s) = (if s = [] then None else Some (length s))"
proof (cases "s = []")
  case False
  obtain d where d: "base64_encode s = d @ replicate (base64_pads s) (CHR ''='')" "list_all base64_char d"
    and l: "length d + base64_pads s = 4 * ((length s + 2) div 3)" using base64_encode_shape [of s] by blast
  have n: "base64_pads s \<le> 2" by (simp add: base64_pads_def)
  have len: "length (base64_encode s) = 4 * ((length s + 2) div 3)" using d l by simp
  have "(length s + 2) div 3 * 3 - base64_pads s = length s" by (rule base64_pads_length)
  moreover have "base64_padding (base64_encode s) = base64_pads s"
    unfolding d(1) by (rule base64_padding_pads [OF n d(2)])
  moreover have "take (length (base64_encode s) - base64_pads s) (base64_encode s) = d" by (simp add: d(1))
  moreover have "0 < (length s + 2) div 3" using False by (cases s) (simp_all add: div_greater_zero_iff)
  ultimately show ?thesis using False d(2) len
    by (auto simp: Base64DecodedLength_def)
qed (simp add: Base64DecodedLength_def)

text \<open>
  C29: What a validated envelope authorizes. Its routes are a non-empty list of distinct
  deployments, each pinned to a revision; the first serves the model the request named, exactly
  the named revision if one is pinned; every route of another model line is marked cross-model
  and authorized by policy, and a pinned request has none; and no route bounds the funding of a
  customer credential.
\<close>

theorem validated_request_routes:
  assumes "request_Validate r = None"
  shows "rq_AuthorizedRoutes r \<noteq> [] \<and> distinct (map ar_DeploymentID (rq_AuthorizedRoutes r)) \<and>
    (\<forall>x \<in> set (rq_AuthorizedRoutes r). Pinned (ar_ModelReference x) \<and>
       (ModelID (ar_ModelReference x) \<noteq> ModelID (ar_ModelReference (hd (rq_AuthorizedRoutes r))) \<longrightarrow>
          ar_Substitution x = SubstitutionCrossModel \<and> ar_AuthorizedByPolicy x = Some True) \<and>
       (ar_MaxFundingTier x \<noteq> None \<longrightarrow> ar_CustomerProviderCredential x = None)) \<and>
    (\<forall>m. rt_Kind (rq_Target r) = TargetModel \<and> rt_ModelReference (rq_Target r) = Some m \<longrightarrow>
       ModelID (ar_ModelReference (hd (rq_AuthorizedRoutes r))) = ModelID m \<and>
       (Pinned m \<longrightarrow> ar_ModelReference (hd (rq_AuthorizedRoutes r)) = m \<and>
          (\<forall>x \<in> set (rq_AuthorizedRoutes r). ModelID (ar_ModelReference x) = ModelID m)))"
proof -
  let ?rs = "rq_AuthorizedRoutes r"
  let ?line = "ModelID (ar_ModelReference (hd ?rs))"
  from assms have v: "validateAuthorizedRoutes r = None" by (simp add: request_Validate_routes)
  note w = validateAuthorizedRoutes_None [OF v]
  from w have rs: "?rs \<noteq> []" "distinct (map ar_DeploymentID ?rs)"
    and each: "x \<in> set ?rs \<Longrightarrow> route_validate x = None" for x
    by (auto simp: validateRouteList_None)
  have cross: "ar_Substitution x = SubstitutionCrossModel"
    if "x \<in> set ?rs" "ModelID (ar_ModelReference x) \<noteq> ?line" for x
  proof -
    have "is_member (ar_Substitution x) routeSubstitutionValues"
      using each [OF that(1)] unfolding route_validate_def first_error_simps by simp
    moreover have "substitution_matches ?line x" using w that(1) by blast
    ultimately show ?thesis using that(2)
      by (auto simp: is_member_def routeSubstitutionValues_def substitution_matches_def)
  qed
  have target: "?line = ModelID m \<and> (Pinned m \<longrightarrow> ar_ModelReference (hd ?rs) = m \<and>
      (\<forall>x \<in> set ?rs. ModelID (ar_ModelReference x) = ModelID m))"
    if "rt_Kind (rq_Target r) = TargetModel" "rt_ModelReference (rq_Target r) = Some m" for m
  proof -
    have t: "validate_model_target m (hd ?rs) ?rs = None"
      by (rule validateAuthorizedRoutes_target [OF v that])
    then have "Pinned m \<Longrightarrow> x \<in> set ?rs \<Longrightarrow> ar_Substitution x \<noteq> SubstitutionCrossModel" for x
      by (auto simp: validate_model_target_def first_error_Cons_None first_error_append_None indexed_refuse_None)
    moreover from t have "Pinned m \<Longrightarrow> ar_ModelReference (hd ?rs) = m" "\<not> Pinned m \<Longrightarrow> ?line = ModelID m"
      by (auto simp: validate_model_target_def first_error_Cons_None)
    ultimately show ?thesis using cross by blast
  qed
  show ?thesis using rs cross target route_validate_None [OF each] by blast
qed

theorem validated_request_routes_witness:
  "ModelID (ar_ModelReference (hd (rq_AuthorizedRoutes
      (demo_request [user_message [text_part ''hi'']] [demo_route ''d'' ''a/m@1'', cross_route ''e'' ''a/n@2''])))) =
     ModelID ''a/m''"
proof -
  let ?r = "demo_request [user_message [text_part ''hi'']] [demo_route ''d'' ''a/m@1'', cross_route ''e'' ''a/n@2'']"
  have "request_Validate ?r = None" by code_simp
  then show ?thesis
    using validated_request_routes [of ?r] by (simp add: demo_request_def)
qed

text \<open>
  Every image of a validated conversation is carried inline on a user or tool message, in one
  of the declared media types, as canonical base64 of at most the declared size, and there are at
  most twenty of them.
\<close>

theorem validated_request_images:
  assumes "request_Validate r = None" and "in_Format (rq_Input r) = InputMessages"
    and "m \<in> set (slice (in_Messages (rq_Input r)))" and "p \<in> set (msg_Content m)" and "cp_Type p = ContentPartImage"
  shows "(msg_Role m = RoleUser \<or> msg_Role m = RoleTool) \<and>
    length (image_parts (slice (in_Messages (rq_Input r)))) \<le> 20 \<and>
    (\<exists>s t d n. cp_Source p = Some s \<and> cs_Kind s = ContentSourceInline \<and> cs_MediaType s = Some t \<and>
       t \<in> set inputImageMediaTypes \<and> cs_Data s = Some d \<and> Base64DecodedLength d = Some n \<and> n \<le> 3750000)"
proof -
  have "snd (CheckImageInput (slice (in_Messages (rq_Input r)))) = []"
    using assms(1,2) unfolding request_Validate_def Let_def first_error_simps by simp
  then have "length (image_parts (slice (in_Messages (rq_Input r)))) \<le> 20" "image_part_issues (msg_Role m) p = []"
    using assms(3-5) by (auto simp: CheckImageInput_Nil MaxInputImages_def)
  moreover have "Base64DecodedLength [] = None" by (simp add: Base64DecodedLength_def)
  ultimately show ?thesis
    using image_part_issues_Nil [of "msg_Role m" p] by (auto simp: MaxInputImageBytes_def split: option.splits)
qed

theorem validated_request_images_witness:
  "\<exists>s t d n. cp_Source (image_part ''image/png'' ''QUJD'') = Some s \<and> cs_Kind s = ContentSourceInline \<and>
     cs_MediaType s = Some t \<and> t \<in> set inputImageMediaTypes \<and> cs_Data s = Some d \<and>
     Base64DecodedLength d = Some n \<and> n \<le> 3750000"
proof -
  let ?m = "user_message [image_part ''image/png'' ''QUJD'']"
  let ?r = "demo_request [?m] [demo_route ''d'' ''a/m@1'']"
  have "request_Validate ?r = None" by code_simp
  then show ?thesis
    using validated_request_images [of ?r ?m "image_part ''image/png'' ''QUJD''"]
    by (simp add: demo_request_def user_message_def image_part_def)
qed

end
