(* ===== verification/Realtime_Parameters.thy ===== *)
theory Realtime_Parameters
  imports Contract_Request
begin

text \<open>
  What one provider's realtime wire takes (\<open>internal/contract/realtime_parameters.go\<close>) and the
  turn detection of a session configuration (\<open>internal/contract/realtime.go\<close>). A vocabulary is
  the strings it is spelled with. The bounds of a threshold are the rationals the floating-point
  values denote: they are only compared. A nil slice is \<open>None\<close> where the code tells it from an
  empty one.
\<close>

abbreviation TurnDetectionNone :: string where "TurnDetectionNone \<equiv> ''none''"
abbreviation TurnDetectionServerVAD :: string where "TurnDetectionServerVAD \<equiv> ''server_vad''"
abbreviation TurnDetectionSemanticVAD :: string where "TurnDetectionSemanticVAD \<equiv> ''semantic_vad''"

definition realtimeSessionKindValues :: "string list" where
  "realtimeSessionKindValues = [''conversation'', ''transcription'', ''translation'']"

definition realtimeSessionTransportValues :: "string list" where
  "realtimeSessionTransportValues = [''websocket'']"

definition realtimeAudioFormatValues :: "string list" where
  "realtimeAudioFormatValues = [''pcm16_24khz'', ''g711_ulaw'', ''g711_alaw'']"

definition realtimeOutputModalityValues :: "string list" where
  "realtimeOutputModalityValues = [''text'', ''audio'']"

definition realtimeTurnDetectionTypeValues :: "string list" where
  "realtimeTurnDetectionTypeValues = [TurnDetectionNone, TurnDetectionServerVAD, TurnDetectionSemanticVAD]"

definition realtimeVADEagernessValues :: "string list" where
  "realtimeVADEagernessValues = [''low'', ''medium'', ''high'', ''auto'']"

definition realtimeToolChoiceValues :: "string list" where
  "realtimeToolChoiceValues = [''auto'', ''none'', ''required'', ''function'']"

section \<open>Turn detection\<close>

record realtime_turn_detection =
  rtd_Type :: string
  rtd_Threshold :: "rat option"
  rtd_PrefixPaddingMs :: "int option"
  rtd_SilenceDurationMs :: "int option"
  rtd_Eagerness :: "string option"
  rtd_CreateResponse :: "bool option"
  rtd_InterruptResponse :: "bool option"

datatype turn_detection_error =
    NoneCarriesParameters | ServerEagerness | ServerThreshold | ServerPadding | ServerSilence
  | ServerStatesResponses | SemanticOnlyEagerness | SemanticNeedsEagerness | SemanticStatesResponses
  | NotATurnDetection string

definition outside :: "'a::linorder \<Rightarrow> 'a \<Rightarrow> 'a option \<Rightarrow> bool" where
  "outside lo hi v \<longleftrightarrow> (case v of Some x \<Rightarrow> x < lo \<or> x > hi | None \<Rightarrow> False)"

definition turn_detection_validate :: "realtime_turn_detection \<Rightarrow> turn_detection_error option" where
  "turn_detection_validate t =
     (if rtd_Type t = TurnDetectionNone then
        (if rtd_Threshold t \<noteq> None \<or> rtd_PrefixPaddingMs t \<noteq> None \<or> rtd_SilenceDurationMs t \<noteq> None \<or>
            rtd_Eagerness t \<noteq> None \<or> rtd_CreateResponse t \<noteq> None \<or> rtd_InterruptResponse t \<noteq> None
         then Some NoneCarriesParameters else None)
      else if rtd_Type t = TurnDetectionServerVAD then
        (if rtd_Eagerness t \<noteq> None then Some ServerEagerness
         else if outside 0 1 (rtd_Threshold t) then Some ServerThreshold
         else if outside 0 5000 (rtd_PrefixPaddingMs t) then Some ServerPadding
         else if outside 0 10000 (rtd_SilenceDurationMs t) then Some ServerSilence
         else if rtd_CreateResponse t = None \<or> rtd_InterruptResponse t = None then Some ServerStatesResponses
         else None)
      else if rtd_Type t = TurnDetectionSemanticVAD then
        (if rtd_Threshold t \<noteq> None \<or> rtd_PrefixPaddingMs t \<noteq> None \<or> rtd_SilenceDurationMs t \<noteq> None
         then Some SemanticOnlyEagerness
         else if (case rtd_Eagerness t of None \<Rightarrow> True | Some e \<Rightarrow> \<not> is_member e realtimeVADEagernessValues)
         then Some SemanticNeedsEagerness
         else if rtd_CreateResponse t = None \<or> rtd_InterruptResponse t = None then Some SemanticStatesResponses
         else None)
      else Some (NotATurnDetection (rtd_Type t)))"

definition createsOrInterrupts :: "realtime_turn_detection \<Rightarrow> bool" where
  "createsOrInterrupts t \<longleftrightarrow> rtd_CreateResponse t = Some True \<or> rtd_InterruptResponse t = Some True"

section \<open>The wire's parameters\<close>

record number_range =
  nr_Min :: rat
  nr_Max :: rat

record realtime_turn_detection_parameters =
  tdp_Type :: string
  tdp_FixedResponses :: bool
  tdp_Threshold :: "number_range option"
  tdp_MeteredUnits :: "usage_unit list"

record realtime_parameters =
  rp_TurnDetection :: "realtime_turn_detection_parameters list"
  rp_OutputModalities :: "string list list"
  rp_ToolChoice :: "string list"
  rp_MaxOutputTokens :: "int option"
  rp_InputTranscriptionPrompt :: bool

fun mode_text :: "tool_choice_mode \<Rightarrow> string" where
  "mode_text ToolChoiceAuto = ''auto''"
| "mode_text ToolChoiceNone = ''none''"
| "mode_text ToolChoiceRequired = ''required''"
| "mode_text (OtherToolChoice s) = s"

text \<open>A choice with neither a function nor a mode is a nil dereference: \<open>None\<close>.\<close>

definition RealtimeToolChoiceOf :: "tool_choice \<Rightarrow> string option" where
  "RealtimeToolChoiceOf c =
     (if tch_Function c \<noteq> None then Some ''function'' else map_option mode_text (tch_Mode c))"

definition TurnDetectionOf :: "realtime_parameters \<Rightarrow> string \<Rightarrow> realtime_turn_detection_parameters option" where
  "TurnDetectionOf p kind = List.find (\<lambda>t. tdp_Type t = kind) (rp_TurnDetection p)"

definition WireTurnDetection :: "realtime_parameters \<Rightarrow> string \<Rightarrow> realtime_turn_detection_parameters option" where
  "WireTurnDetection p kind =
     (case TurnDetectionOf p kind of
        Some served \<Rightarrow> Some served
      | None \<Rightarrow> if kind = TurnDetectionSemanticVAD then TurnDetectionOf p TurnDetectionServerVAD else None)"

definition ServesOutputModalities :: "realtime_parameters \<Rightarrow> string list \<Rightarrow> bool" where
  "ServesOutputModalities p modalities \<longleftrightarrow> is_member (sort modalities) (rp_OutputModalities p)"

definition WireOutputModalities :: "realtime_parameters \<Rightarrow> string list option \<Rightarrow> string list option" where
  "WireOutputModalities p asked =
     (case asked of
        None \<Rightarrow> None
      | Some ms \<Rightarrow> if ServesOutputModalities p ms then Some ms else Some [''audio''])"

record realtime_parameter_issue =
  rpi_Param :: string
  rpi_Message :: string

record realtime_config_fields =
  cff_TurnDetection :: "realtime_turn_detection option"
  cff_ToolChoice :: "tool_choice option"
  cff_MaxOutputTokens :: "int option"

definition toolChoiceVerb :: "string \<Rightarrow> string" where
  "toolChoiceVerb kind =
     (if kind = ''none'' then ''answer one response without its tools''
      else if kind = ''required'' then ''call a tool on every response'' else ''call one named tool'')"

definition issue :: "string \<Rightarrow> string \<Rightarrow> string \<Rightarrow> realtime_parameter_issue" where
  "issue pre param message = \<lparr>rpi_Param = pre @ ''.'' @ param, rpi_Message = message\<rparr>"

definition turn_detection_issues ::
  "realtime_parameters \<Rightarrow> string \<Rightarrow> realtime_turn_detection \<Rightarrow> realtime_parameter_issue list" where
  "turn_detection_issues p pre d =
     (case WireTurnDetection p (rtd_Type d) of
        None \<Rightarrow> [issue pre ''turnDetection'' (''this model cannot detect turns by '' @ rtd_Type d)]
      | Some served \<Rightarrow>
          if tdp_FixedResponses served \<and> rtd_CreateResponse d \<noteq> Some True
          then [issue pre ''turnDetection.createResponse'' ''this model always answers a turn it detected'']
          else if tdp_FixedResponses served \<and> rtd_InterruptResponse d \<noteq> Some True
          then [issue pre ''turnDetection.interruptResponse'' ''this model always lets the caller interrupt an answer'']
          else [])"

definition tool_choice_issues :: "realtime_parameters \<Rightarrow> string \<Rightarrow> string \<Rightarrow> realtime_parameter_issue list" where
  "tool_choice_issues p pre kind =
     (let withheld = kind = ''none'' \<and> pre = ''config''
      in if \<not> is_member kind (rp_ToolChoice p) \<and> \<not> withheld
         then [issue pre ''toolChoice'' (''this model cannot be made to '' @ toolChoiceVerb kind)] else [])"

definition Unservable ::
  "realtime_parameters \<Rightarrow> string \<Rightarrow> realtime_config_fields \<Rightarrow> realtime_parameter_issue list option" where
  "Unservable p pre asked =
     (let detection = (case cff_TurnDetection asked of None \<Rightarrow> [] | Some d \<Rightarrow> turn_detection_issues p pre d);
          tokens = (if cff_MaxOutputTokens asked \<noteq> None \<and> rp_MaxOutputTokens p = None
                    then [issue pre ''maxOutputTokens'' ''this model cannot cap the output tokens of a response''] else [])
      in case cff_ToolChoice asked of
           None \<Rightarrow> Some (detection @ tokens)
         | Some c \<Rightarrow>
             (case RealtimeToolChoiceOf c of
                None \<Rightarrow> None
              | Some kind \<Rightarrow> Some (detection @ tool_choice_issues p pre kind @ tokens)))"

definition NeverResponds :: "realtime_parameters \<Rightarrow> bool" where
  "NeverResponds p \<longleftrightarrow> rp_OutputModalities p = [] \<and> rp_ToolChoice p = [] \<and> rp_MaxOutputTokens p = None"

section \<open>Validation of a statement\<close>

datatype parameters_error =
    NoDetection | DetectionType nat | DetectionOrder | DetectionThreshold nat | DetectionUnits nat | DetectionUnit nat
  | NoModalities | ModalitySet nat | ModalityName nat | ModalityOrder | NoAutoChoice | ChoiceName nat | ChoiceOrder
  | TokensNotPositive

fun position :: "'a list \<Rightarrow> 'a \<Rightarrow> int" where
  "position [] x = -1"
| "position (y # ys) x = (if x = y then 0 else let i = position ys x in if i < 0 then -1 else i + 1)"

definition strict_set :: "'a::linorder list \<Rightarrow> bool" where
  "strict_set xs \<longleftrightarrow> xs \<noteq> [] \<and> sorted xs \<and> length (remdups_adj xs) = length xs"

fun check_detections ::
  "nat \<Rightarrow> string option \<Rightarrow> realtime_turn_detection_parameters list \<Rightarrow> parameters_error option" where
  "check_detections index previous [] = None"
| "check_detections index previous (d # ds) =
     (if \<not> is_member (tdp_Type d) realtimeTurnDetectionTypeValues then Some (DetectionType index)
      else if (case previous of None \<Rightarrow> False | Some q \<Rightarrow>
                 position realtimeTurnDetectionTypeValues q \<ge> position realtimeTurnDetectionTypeValues (tdp_Type d))
      then Some DetectionOrder
      else if (case tdp_Threshold d of None \<Rightarrow> False | Some r \<Rightarrow> nr_Min r < 0 \<or> nr_Max r > 1 \<or> nr_Min r > nr_Max r)
      then Some (DetectionThreshold index)
      else if \<not> strict_set (map unit_text (tdp_MeteredUnits d)) then Some (DetectionUnits index)
      else if \<not> list_all (\<lambda>u. is_member u usageUnitValues) (tdp_MeteredUnits d) then Some (DetectionUnit index)
      else check_detections (Suc index) (Some (tdp_Type d)) ds)"

fun check_modality_sets :: "nat \<Rightarrow> string list option \<Rightarrow> string list list \<Rightarrow> parameters_error option" where
  "check_modality_sets index previous [] = None"
| "check_modality_sets index previous (s # ss) =
     (if \<not> strict_set s then Some (ModalitySet index)
      else if \<not> list_all (\<lambda>m. is_member m realtimeOutputModalityValues) s then Some (ModalityName index)
      else if (case previous of None \<Rightarrow> False | Some q \<Rightarrow> q \<ge> s) then Some ModalityOrder
      else check_modality_sets (Suc index) (Some s) ss)"

fun check_choices :: "nat \<Rightarrow> string option \<Rightarrow> string list \<Rightarrow> parameters_error option" where
  "check_choices index previous [] = None"
| "check_choices index previous (c # cs) =
     (if \<not> is_member c realtimeToolChoiceValues then Some (ChoiceName index)
      else if (case previous of None \<Rightarrow> False | Some q \<Rightarrow>
                 position realtimeToolChoiceValues q \<ge> position realtimeToolChoiceValues c)
      then Some ChoiceOrder
      else check_choices (Suc index) (Some c) cs)"

definition parameters_Validate :: "realtime_parameters \<Rightarrow> parameters_error option" where
  "parameters_Validate p =
     (if rp_TurnDetection p = [] then Some NoDetection
      else case check_detections 0 None (rp_TurnDetection p) of
             Some e \<Rightarrow> Some e
           | None \<Rightarrow>
               if NeverResponds p then None
               else if rp_OutputModalities p = [] then Some NoModalities
               else case check_modality_sets 0 None (rp_OutputModalities p) of
                      Some e \<Rightarrow> Some e
                    | None \<Rightarrow>
                        if \<not> is_member ''auto'' (rp_ToolChoice p) then Some NoAutoChoice
                        else case check_choices 0 None (rp_ToolChoice p) of
                               Some e \<Rightarrow> Some e
                             | None \<Rightarrow>
                                 if (case rp_MaxOutputTokens p of Some n \<Rightarrow> n \<le> 0 | None \<Rightarrow> False)
                                 then Some TokensNotPositive else None)"

end
