(* ===== verification/Inventory_Realtime.thy ===== *)
theory Inventory_Realtime
  imports Realtime_Parameters
begin

text \<open>
  The realtime and audio statements of a deployment (\<open>internal/inventory/realtime.go\<close>): their
  validation and how a model line's statement is narrowed by each of its deployments. Lists that
  the code tells apart from absent ones are optional.
\<close>

record realtime_audio_formats =
  raf_Input :: "string list option"
  raf_Output :: "string list option"

record realtime_observation =
  rob_Transports :: "string list option"
  rob_SessionKinds :: "string list option"
  rob_InputAudioTranscription :: bool
  rob_AudioFormats :: realtime_audio_formats
  rob_Parameters :: "realtime_parameters option"

record voice_observation =
  vo_ID :: string
  vo_Name :: string
  vo_Languages :: "string list option"
  vo_Gender :: string

record audio_observation =
  aob_Voices :: "voice_observation list"
  aob_Languages :: "string list option"
  aob_InputMediaTypes :: "string list option"

definition audioInputMediaTypeValues :: "string list" where
  "audioInputMediaTypeValues =
     [''audio/mpeg'', ''audio/mp4'', ''audio/wav'', ''audio/ogg'', ''audio/webm'', ''audio/flac'', ''audio/aac'', ''audio/pcm'']"

definition maxVoiceIDLength :: nat where "maxVoiceIDLength = 64"
definition maxVoiceNameLength :: nat where "maxVoiceNameLength = 200"

section \<open>Validation\<close>

text \<open>\<open>unicode.IsControl\<close>: the ASCII controls, DEL and the two-byte runes U+0080 to U+009F.\<close>

fun has_control :: "string \<Rightarrow> bool" where
  "has_control [] \<longleftrightarrow> False"
| "has_control (c # cs) \<longleftrightarrow>
     byte_of c < 32 \<or> byte_of c = 127 \<or>
     byte_of c = 194 \<and> (case cs of d # _ \<Rightarrow> 128 \<le> byte_of d \<and> byte_of d \<le> 159 | [] \<Rightarrow> False) \<or> has_control cs"

function rune_count :: "string \<Rightarrow> nat" where
  "rune_count [] = 0"
| "rune_count (c # cs) =
     (case rune_width (c # cs) of Some w \<Rightarrow> 1 + rune_count (drop w (c # cs)) | None \<Rightarrow> 1 + rune_count cs)"
  by pat_completeness auto
termination
  by (relation "measure length") (auto simp del: rune_width.simps dest: rune_width_bounds)

definition boundedName :: "string \<Rightarrow> nat \<Rightarrow> bool" where
  "boundedName s limit \<longleftrightarrow>
     s \<noteq> '''' \<and> trim_space s = s \<and> valid_utf8 s \<and> rune_count s \<le> limit \<and> \<not> has_control s"

datatype set_error = TooFew nat | AbsentList | BadMember nat | UnsortedSet

fun check_sorted :: "(string \<Rightarrow> bool) \<Rightarrow> nat \<Rightarrow> string option \<Rightarrow> string list \<Rightarrow> set_error option" where
  "check_sorted ok index previous [] = None"
| "check_sorted ok index previous (v # vs) =
     (if \<not> ok v then Some (BadMember index)
      else if (case previous of None \<Rightarrow> False | Some q \<Rightarrow> q \<ge> v) then Some UnsortedSet
      else check_sorted ok (Suc index) (Some v) vs)"

definition sortedSet :: "string list option \<Rightarrow> nat \<Rightarrow> (string \<Rightarrow> bool) \<Rightarrow> set_error option" where
  "sortedSet vs minimum ok =
     (if length (slice vs) < minimum then Some (TooFew minimum)
      else case vs of None \<Rightarrow> Some AbsentList | Some xs \<Rightarrow> check_sorted ok 0 None xs)"

datatype observation_fault =
    BadList string set_error | BadParameters parameters_error | VoicesUnsorted | VoiceName nat | VoiceTwice string
  | VoiceGender nat | VoiceLanguages nat set_error

definition realtime_Validate :: "realtime_observation \<Rightarrow> observation_fault option" where
  "realtime_Validate r = first_error
     [map_option (BadList ''transports'') (sortedSet (rob_Transports r) 1 (\<lambda>t. is_member t realtimeSessionTransportValues)),
      map_option (BadList ''sessionKinds'') (sortedSet (rob_SessionKinds r) 1 (\<lambda>k. is_member k realtimeSessionKindValues)),
      map_option (BadList ''audioFormats.input'')
        (sortedSet (raf_Input (rob_AudioFormats r)) 1 (\<lambda>f. is_member f realtimeAudioFormatValues)),
      map_option (BadList ''audioFormats.output'')
        (sortedSet (raf_Output (rob_AudioFormats r)) 0 (\<lambda>f. is_member f realtimeAudioFormatValues)),
      (case rob_Parameters r of None \<Rightarrow> None | Some p \<Rightarrow> map_option BadParameters (parameters_Validate p))]"

text \<open>The inventory has its own copy of the language-tag grammar, the same pattern and bound.\<close>

fun check_voices :: "string list \<Rightarrow> nat \<Rightarrow> string option \<Rightarrow> voice_observation list \<Rightarrow> observation_fault option" where
  "check_voices languages index previous [] = None"
| "check_voices languages index previous (v # vs) =
     (if \<not> boundedName (vo_ID v) maxVoiceIDLength \<or> \<not> boundedName (vo_Name v) maxVoiceNameLength
      then Some (VoiceName index)
      else if previous = Some (vo_ID v) then Some (VoiceTwice (vo_ID v))
      else if \<not> is_member (vo_Gender v) ['''', ''female'', ''male'', ''neutral''] then Some (VoiceGender index)
      else case sortedSet (vo_Languages v) 0 (\<lambda>t. is_member t languages) of
             Some e \<Rightarrow> Some (VoiceLanguages index e)
           | None \<Rightarrow> check_voices languages (Suc index) (Some (vo_ID v)) vs)"

definition audio_Validate :: "audio_observation \<Rightarrow> observation_fault option" where
  "audio_Validate a = first_error
     [map_option (BadList ''languages'') (sortedSet (aob_Languages a) 0 language_Valid),
      (case aob_InputMediaTypes a of
         None \<Rightarrow> None
       | Some ts \<Rightarrow> map_option (BadList ''inputMediaTypes'')
           (sortedSet (Some ts) 1 (\<lambda>t. is_member t audioInputMediaTypeValues))),
      refuse (\<not> sorted (map vo_ID (aob_Voices a))) VoicesUnsorted,
      check_voices (slice (aob_Languages a)) 0 None (aob_Voices a)]"

section \<open>Narrowing a line's statement\<close>

definition intersectSorted :: "'a list \<Rightarrow> 'a list \<Rightarrow> 'a list" where
  "intersectSorted a b = filter (\<lambda>v. is_member v b) a"

definition intersect_lists :: "'a list option \<Rightarrow> 'a list option \<Rightarrow> 'a list option" where
  "intersect_lists a b = Some (intersectSorted (slice a) (slice b))"

definition tighterRange :: "number_range option \<Rightarrow> number_range option \<Rightarrow> number_range option" where
  "tighterRange a b =
     (case (a, b) of
        (None, _) \<Rightarrow> b
      | (_, None) \<Rightarrow> a
      | (Some x, Some y) \<Rightarrow> Some \<lparr>nr_Min = max (nr_Min x) (nr_Min y), nr_Max = min (nr_Max x) (nr_Max y)\<rparr>)"

definition lowerBound :: "int option \<Rightarrow> int option \<Rightarrow> int option" where
  "lowerBound a b =
     (case (a, b) of (None, _) \<Rightarrow> b | (_, None) \<Rightarrow> a | (Some x, Some y) \<Rightarrow> Some (min x y))"

definition merge_detection ::
  "realtime_turn_detection_parameters \<Rightarrow> realtime_turn_detection_parameters \<Rightarrow> realtime_turn_detection_parameters" where
  "merge_detection mine theirs =
     \<lparr>tdp_Type = tdp_Type mine, tdp_FixedResponses = (tdp_FixedResponses mine \<or> tdp_FixedResponses theirs),
      tdp_Threshold = tighterRange (tdp_Threshold mine) (tdp_Threshold theirs),
      tdp_MeteredUnits = remdups_adj (sort_key unit_text (tdp_MeteredUnits mine @ tdp_MeteredUnits theirs))\<rparr>"

fun merge_detections ::
  "realtime_parameters \<Rightarrow> realtime_turn_detection_parameters list \<Rightarrow> realtime_turn_detection_parameters list" where
  "merge_detections b [] = []"
| "merge_detections b (mine # ds) =
     (case TurnDetectionOf b (tdp_Type mine) of
        None \<Rightarrow> merge_detections b ds
      | Some theirs \<Rightarrow> merge_detection mine theirs # merge_detections b ds)"

definition intersect_both :: "realtime_parameters \<Rightarrow> realtime_parameters \<Rightarrow> realtime_parameters" where
  "intersect_both a b =
     \<lparr>rp_TurnDetection = merge_detections b (rp_TurnDetection a),
      rp_OutputModalities = filter (ServesOutputModalities b) (rp_OutputModalities a),
      rp_ToolChoice = intersectSorted (rp_ToolChoice a) (rp_ToolChoice b),
      rp_MaxOutputTokens =
        (if rp_MaxOutputTokens a \<noteq> None \<and> rp_MaxOutputTokens b \<noteq> None
         then lowerBound (rp_MaxOutputTokens a) (rp_MaxOutputTokens b) else None),
      rp_InputTranscriptionPrompt = (rp_InputTranscriptionPrompt a \<and> rp_InputTranscriptionPrompt b)\<rparr>"

definition intersectParameters :: "realtime_parameters option \<Rightarrow> realtime_parameters option \<Rightarrow> realtime_parameters option" where
  "intersectParameters a b =
     (case (a, b) of (Some x, Some y) \<Rightarrow> Some (intersect_both x y) | _ \<Rightarrow> None)"

definition aggregateRealtime ::
  "realtime_observation option \<Rightarrow> realtime_observation option \<Rightarrow> realtime_observation option" where
  "aggregateRealtime current reported =
     (case (reported, current) of
        (None, _) \<Rightarrow> current
      | (Some r, None) \<Rightarrow> Some (r\<lparr>rob_Parameters := intersectParameters (rob_Parameters r) (rob_Parameters r)\<rparr>)
      | (Some r, Some c) \<Rightarrow> Some
          \<lparr>rob_Transports = intersect_lists (rob_Transports c) (rob_Transports r),
           rob_SessionKinds = intersect_lists (rob_SessionKinds c) (rob_SessionKinds r),
           rob_InputAudioTranscription = (rob_InputAudioTranscription c \<and> rob_InputAudioTranscription r),
           rob_AudioFormats =
             \<lparr>raf_Input = intersect_lists (raf_Input (rob_AudioFormats c)) (raf_Input (rob_AudioFormats r)),
              raf_Output = intersect_lists (raf_Output (rob_AudioFormats c)) (raf_Output (rob_AudioFormats r))\<rparr>,
           rob_Parameters = intersectParameters (rob_Parameters c) (rob_Parameters r)\<rparr>)"

definition intersectMediaTypes :: "string list option \<Rightarrow> string list option \<Rightarrow> string list option" where
  "intersectMediaTypes a b =
     (case (a, b) of (Some x, Some y) \<Rightarrow> Some (intersectSorted x y) | _ \<Rightarrow> None)"

fun narrow_voices :: "string list \<Rightarrow> voice_observation list \<Rightarrow> voice_observation list \<Rightarrow> voice_observation list" where
  "narrow_voices languages reported [] = []"
| "narrow_voices languages reported (v # vs) =
     (case List.find (\<lambda>w. vo_ID w = vo_ID v) reported of
        None \<Rightarrow> narrow_voices languages reported vs
      | Some other \<Rightarrow>
          v\<lparr>vo_Languages := Some (intersectSorted (intersectSorted (slice (vo_Languages v)) (slice (vo_Languages other))) languages),
            vo_Gender := (if vo_Gender v \<noteq> vo_Gender other then '''' else vo_Gender v)\<rparr>
          # narrow_voices languages reported vs)"

definition aggregateAudio ::
  "audio_observation option \<Rightarrow> audio_observation option \<Rightarrow> audio_observation option" where
  "aggregateAudio current reported =
     (case (reported, current) of
        (None, _) \<Rightarrow> current
      | (Some r, None) \<Rightarrow> Some r
      | (Some r, Some c) \<Rightarrow>
          let languages = intersectSorted (slice (aob_Languages c)) (slice (aob_Languages r))
          in Some \<lparr>aob_Voices = narrow_voices languages (aob_Voices r) (aob_Voices c),
                   aob_Languages = Some languages,
                   aob_InputMediaTypes = intersectMediaTypes (aob_InputMediaTypes c) (aob_InputMediaTypes r)\<rparr>)"

section \<open>Lemmas\<close>

text \<open>
  The one way a line's statement can promise more than a deployment serves: a semantic detection
  that falls back to the server one which leaves the caller a switch the semantic one does not.
\<close>

definition fallback_no_freer :: "realtime_parameters \<Rightarrow> bool" where
  "fallback_no_freer p \<longleftrightarrow>
     (case (TurnDetectionOf p TurnDetectionSemanticVAD, TurnDetectionOf p TurnDetectionServerVAD) of
        (Some s, Some v) \<Rightarrow> tdp_FixedResponses s \<longrightarrow> tdp_FixedResponses v
      | _ \<Rightarrow> True)"

lemma TurnDetectionOf_intersect:
  "TurnDetectionOf (intersect_both a b) k =
   (case (TurnDetectionOf a k, TurnDetectionOf b k) of (Some x, Some y) \<Rightarrow> Some (merge_detection x y) | _ \<Rightarrow> None)"
proof -
  have "List.find (\<lambda>t. tdp_Type t = k) (merge_detections b ds) =
      (case (List.find (\<lambda>t. tdp_Type t = k) ds, TurnDetectionOf b k) of
         (Some x, Some y) \<Rightarrow> Some (merge_detection x y) | _ \<Rightarrow> None)" for ds
    by (induction ds) (auto simp: merge_detection_def split: option.splits)
  then show ?thesis by (simp add: TurnDetectionOf_def intersect_both_def)
qed

lemma turn_detection_issues_Nil:
  "turn_detection_issues p pre d = [] \<longleftrightarrow>
   (\<exists>s. WireTurnDetection p (rtd_Type d) = Some s \<and>
     (tdp_FixedResponses s \<longrightarrow> rtd_CreateResponse d = Some True \<and> rtd_InterruptResponse d = Some True))"
  by (auto simp: turn_detection_issues_def split: option.splits)

lemma wire_intersect:
  assumes "WireTurnDetection (intersect_both a b) k = Some m" and "fallback_no_freer a" and "fallback_no_freer b"
  shows "(\<exists>s. WireTurnDetection a k = Some s \<and> (tdp_FixedResponses s \<longrightarrow> tdp_FixedResponses m)) \<and>
    (\<exists>s. WireTurnDetection b k = Some s \<and> (tdp_FixedResponses s \<longrightarrow> tdp_FixedResponses m))"
  using assms
  by (auto simp: WireTurnDetection_def TurnDetectionOf_intersect fallback_no_freer_def merge_detection_def
      split: option.splits if_splits)

lemma Unservable_Nil:
  "Unservable p pre f = Some [] \<longleftrightarrow>
   (case cff_TurnDetection f of None \<Rightarrow> True | Some d \<Rightarrow> turn_detection_issues p pre d = []) \<and>
   (case cff_ToolChoice f of None \<Rightarrow> True
    | Some c \<Rightarrow> (\<exists>kind. RealtimeToolChoiceOf c = Some kind \<and> tool_choice_issues p pre kind = [])) \<and>
   (cff_MaxOutputTokens f \<noteq> None \<longrightarrow> rp_MaxOutputTokens p \<noteq> None)"
  by (auto simp: Unservable_def Let_def split: option.splits)

section \<open>Concrete statements\<close>

definition demo_detection :: "string \<Rightarrow> bool \<Rightarrow> realtime_turn_detection_parameters" where
  "demo_detection kind fixed =
     \<lparr>tdp_Type = kind, tdp_FixedResponses = fixed, tdp_Threshold = None, tdp_MeteredUnits = [UnitSessionMilliseconds]\<rparr>"

definition demo_parameters :: "realtime_turn_detection_parameters list \<Rightarrow> realtime_parameters" where
  "demo_parameters ds =
     \<lparr>rp_TurnDetection = ds, rp_OutputModalities = [[''audio'']], rp_ToolChoice = [''auto''],
      rp_MaxOutputTokens = None, rp_InputTranscriptionPrompt = False\<rparr>"

definition semantic_request :: "bool \<Rightarrow> realtime_config_fields" where
  "semantic_request answer =
     \<lparr>cff_TurnDetection = Some \<lparr>rtd_Type = TurnDetectionSemanticVAD, rtd_Threshold = None, rtd_PrefixPaddingMs = None,
        rtd_SilenceDurationMs = None, rtd_Eagerness = Some ''auto'', rtd_CreateResponse = Some answer,
        rtd_InterruptResponse = Some True\<rparr>,
      cff_ToolChoice = None, cff_MaxOutputTokens = None\<rparr>"

section \<open>Properties\<close>

text \<open>
  A session configuration that a line's narrowed realtime statement serves is served by each of
  the two statements it was narrowed from, provided neither pairs a semantic turn detection with
  fixed responses with a server detection without them.
\<close>

theorem intersection_servable:
  assumes "Unservable (intersect_both a b) pre f = Some []" and "fallback_no_freer a" and "fallback_no_freer b"
  shows "Unservable a pre f = Some [] \<and> Unservable b pre f = Some []"
proof -
  have t: "turn_detection_issues a pre d = [] \<and> turn_detection_issues b pre d = []"
    if "turn_detection_issues (intersect_both a b) pre d = []" for d
    using that wire_intersect [OF _ assms(2,3)] unfolding turn_detection_issues_Nil by blast
  have c: "tool_choice_issues a pre kind = [] \<and> tool_choice_issues b pre kind = []"
    if "tool_choice_issues (intersect_both a b) pre kind = []" for kind
    using that by (auto simp: tool_choice_issues_def Let_def intersect_both_def intersectSorted_def is_member_def split: if_splits)
  have m: "rp_MaxOutputTokens a \<noteq> None \<and> rp_MaxOutputTokens b \<noteq> None"
    if "rp_MaxOutputTokens (intersect_both a b) \<noteq> None"
    using that by (auto simp: intersect_both_def split: if_splits)
  show ?thesis using assms(1) t c m unfolding Unservable_Nil by (auto split: option.splits)
qed

theorem intersection_servable_witness:
  "Unservable (demo_parameters [demo_detection TurnDetectionServerVAD False]) ''config'' (semantic_request False) = Some []"
proof -
  let ?a = "demo_parameters [demo_detection TurnDetectionServerVAD False]"
  have "Unservable (intersect_both ?a ?a) ''config'' (semantic_request False) = Some []" by code_simp
  moreover have "fallback_no_freer ?a" by code_simp
  ultimately show ?thesis using intersection_servable by blast
qed

text \<open>
  Without that proviso the promise fails: two statements, each of them valid, whose narrowed
  statement serves a configuration that the first one refuses.
\<close>

lemma narrowed_statement_overclaims:
  "let a = demo_parameters [demo_detection TurnDetectionServerVAD False, demo_detection TurnDetectionSemanticVAD True];
       b = demo_parameters [demo_detection TurnDetectionServerVAD False]
   in parameters_Validate a = None \<and> parameters_Validate b = None \<and>
      Unservable (intersect_both a b) ''config'' (semantic_request False) = Some [] \<and>
      Unservable a ''config'' (semantic_request False) \<noteq> Some []"
  by code_simp

end
