(* ===== verification/Parameters.thy ===== *)
theory Parameters
  imports Contract_Request
begin

text \<open>
  The caller controls a deployment may accept (\<open>internal/provider/parameters.go\<close>) and the route
  an adapter is called with (\<open>Route\<close> of \<open>internal/provider/adapter.go\<close>). A control is the string
  the source spells it with. A nil set, which is a set nobody stated, is \<open>None\<close>; Go's sets of
  controls are membership in a list.
\<close>

type_synonym request_parameter = string

abbreviation ParameterToolChoice :: request_parameter where
  "ParameterToolChoice \<equiv> ''toolChoice''"

abbreviation ParameterToolChoiceFunction :: request_parameter where
  "ParameterToolChoiceFunction \<equiv> ''toolChoice.function''"

abbreviation ParameterToolChoiceNone :: request_parameter where
  "ParameterToolChoiceNone \<equiv> ''toolChoice.none''"

abbreviation ParameterToolChoiceRequired :: request_parameter where
  "ParameterToolChoiceRequired \<equiv> ''toolChoice.required''"

definition RequestParameters :: "request_parameter list" where
  "RequestParameters =
     [''maxOutputTokens'', ''reasoning.effort'', ''responseFormat'', ''sampling.frequencyPenalty'',
      ''sampling.presencePenalty'', ''sampling.seed'', ''sampling.stopSequences'', ''sampling.temperature'',
      ''sampling.topP'', ParameterToolChoice, ParameterToolChoiceFunction, ParameterToolChoiceNone,
      ParameterToolChoiceRequired, ''tools'']"

definition ToolChoiceValues :: "request_parameter list" where
  "ToolChoiceValues = [ParameterToolChoiceFunction, ParameterToolChoiceNone, ParameterToolChoiceRequired]"

definition isToolChoiceValue :: "request_parameter \<Rightarrow> bool" where
  "isToolChoiceValue p \<longleftrightarrow>
     p = ParameterToolChoiceFunction \<or> p = ParameterToolChoiceNone \<or> p = ParameterToolChoiceRequired"

definition parameter_Field :: "request_parameter \<Rightarrow> string" where
  "parameter_Field p = (if isToolChoiceValue p then ParameterToolChoice else p)"

definition ToolChoiceParameters :: "tool_choice option \<Rightarrow> request_parameter list" where
  "ToolChoiceParameters choice =
     (case choice of
        None \<Rightarrow> []
      | Some c \<Rightarrow>
          if tch_Function c \<noteq> None then [ParameterToolChoice, ParameterToolChoiceFunction]
          else (case tch_Mode c of
                  None \<Rightarrow> [ParameterToolChoice]
                | Some ToolChoiceAuto \<Rightarrow> []
                | Some ToolChoiceNone \<Rightarrow> [ParameterToolChoice, ParameterToolChoiceNone]
                | Some ToolChoiceRequired \<Rightarrow> [ParameterToolChoice, ParameterToolChoiceRequired]
                | Some (OtherToolChoice _) \<Rightarrow> [ParameterToolChoice]))"

definition CanonicalParameterSet :: "request_parameter list \<Rightarrow> request_parameter list" where
  "CanonicalParameterSet parameters =
     (let stated = list_ex isToolChoiceValue parameters;
          whole = \<not> stated \<and> is_member ParameterToolChoice parameters;
          present = (\<lambda>p. is_member p parameters \<or> stated \<and> p = ParameterToolChoice \<or>
                         whole \<and> is_member p ToolChoiceValues)
      in filter present RequestParameters)"

definition IntersectParameterSets ::
  "request_parameter list option \<Rightarrow> request_parameter list option \<Rightarrow> request_parameter list option" where
  "IntersectParameterSets x y =
     (case (case x of None \<Rightarrow> (y, None) | Some _ \<Rightarrow> (x, y)) of
        (None, _) \<Rightarrow> None
      | (Some one, another) \<Rightarrow>
          let result = CanonicalParameterSet one;
              result = (case another of
                          None \<Rightarrow> result
                        | Some other \<Rightarrow> filter (\<lambda>p. is_member p (CanonicalParameterSet other)) result)
          in Some (if list_ex isToolChoiceValue result then result
                   else filter (\<lambda>p. p \<noteq> ParameterToolChoice) result))"

definition parameter_Valid :: "request_parameter \<Rightarrow> bool" where
  "parameter_Valid p \<longleftrightarrow> is_member p RequestParameters"

datatype parameter_set_error = UnknownParameter string nat | UnsortedParameter string

fun check_parameters :: "nat \<Rightarrow> string option \<Rightarrow> request_parameter list \<Rightarrow> parameter_set_error option" where
  "check_parameters index previous [] = None"
| "check_parameters index previous (p # ps) =
     (if \<not> parameter_Valid p then Some (UnknownParameter p index)
      else if (case previous of None \<Rightarrow> False | Some q \<Rightarrow> q \<ge> p) then Some (UnsortedParameter p)
      else check_parameters (Suc index) (Some p) ps)"

definition ValidateParameterSet :: "request_parameter list \<Rightarrow> parameter_set_error option" where
  "ValidateParameterSet parameters = check_parameters 0 None parameters"

definition SortParameters :: "request_parameter list \<Rightarrow> request_parameter list" where
  "SortParameters parameters = sort parameters"

section \<open>The route\<close>

record route =
  ro_DeploymentID :: deployment_id
  ro_Provider :: provider_slug
  ro_ModelReference :: model_reference
  ro_UpstreamModelID :: string
  ro_Regions :: "region list"
  ro_AcceptedParameters :: "request_parameter list option"
  ro_DecisionPriceLimit :: "(string \<times> string) option"
  ro_CustomerProviderCredential :: "customer_provider_credential option"

definition UnacceptedParameter :: "route \<Rightarrow> request_parameter list \<Rightarrow> request_parameter option" where
  "UnacceptedParameter r sent =
     (case ro_AcceptedParameters r of
        None \<Rightarrow> None
      | Some parameters \<Rightarrow>
          List.find (\<lambda>p. is_member p sent \<and> \<not> is_member p (CanonicalParameterSet parameters)) RequestParameters)"

section \<open>Specification\<close>

text \<open>
  What a stated set means, without its spelling: a control is taken when the set names it, and a
  tool-choice word by the two reading rules.
\<close>

definition takes :: "request_parameter list option \<Rightarrow> request_parameter \<Rightarrow> bool" where
  "takes stated p \<longleftrightarrow>
     (case stated of
        None \<Rightarrow> True
      | Some ps \<Rightarrow>
          p \<in> set ps \<or>
          p = ParameterToolChoice \<and> (\<exists>v \<in> set ps. isToolChoiceValue v) \<or>
          isToolChoiceValue p \<and> ParameterToolChoice \<in> set ps \<and> \<not> (\<exists>v \<in> set ps. isToolChoiceValue v))"

section \<open>Lemmas\<close>

lemma isToolChoiceValue_iff: "isToolChoiceValue p \<longleftrightarrow> p \<in> set ToolChoiceValues"
  by (auto simp: isToolChoiceValue_def ToolChoiceValues_def)

lemma toolChoice_not_value [simp]: "\<not> isToolChoiceValue ParameterToolChoice"
  by (simp add: isToolChoiceValue_def)

lemma vocabulary_values: "isToolChoiceValue p \<Longrightarrow> p \<in> set RequestParameters" "ParameterToolChoice \<in> set RequestParameters"
  by (auto simp: isToolChoiceValue_def RequestParameters_def)

lemma set_CanonicalParameterSet:
  "p \<in> set (CanonicalParameterSet ps) \<longleftrightarrow> p \<in> set RequestParameters \<and> takes (Some ps) p"
  by (auto simp: CanonicalParameterSet_def Let_def takes_def list_ex_iff isToolChoiceValue_iff is_member_def)

lemma UnacceptedParameter_None:
  "UnacceptedParameter r sent = None \<longleftrightarrow>
   (\<forall>p \<in> set sent. p \<in> set RequestParameters \<longrightarrow> takes (ro_AcceptedParameters r) p)"
  by (cases "ro_AcceptedParameters r")
    (auto simp: UnacceptedParameter_def find_None_iff set_CanonicalParameterSet is_member_def, auto simp: takes_def)

lemma intersect_members:
  assumes "IntersectParameterSets x y = Some zs"
  shows "p \<in> set zs \<longleftrightarrow> p \<in> set RequestParameters \<and> takes x p \<and> takes y p \<and>
    (p = ParameterToolChoice \<longrightarrow> (\<exists>v. isToolChoiceValue v \<and> takes x v \<and> takes y v))"
proof -
  have n: "takes None = (\<lambda>_. True)" by (simp add: takes_def fun_eq_iff)
  show ?thesis using assms vocabulary_values(1)
    by (cases x; cases y)
      (auto simp: IntersectParameterSets_def Let_def list_ex_iff set_CanonicalParameterSet is_member_def n split: if_splits)
qed

lemma takes_intersection:
  assumes "p \<in> set RequestParameters" and "p \<noteq> ParameterToolChoice"
  shows "takes (IntersectParameterSets x y) p \<longleftrightarrow> takes x p \<and> takes y p"
proof (cases "IntersectParameterSets x y")
  case None
  then show ?thesis
    by (cases x; cases y) (auto simp: IntersectParameterSets_def takes_def Let_def)
next
  case (Some zs)
  have field: "\<exists>v \<in> set zs. isToolChoiceValue v" if zs: "ParameterToolChoice \<in> set zs"
  proof -
    obtain v where "isToolChoiceValue v" "takes x v" "takes y v"
      using zs unfolding intersect_members [OF Some] by blast
    then have "v \<in> set zs" unfolding intersect_members [OF Some] using vocabulary_values(1) by auto
    with \<open>isToolChoiceValue v\<close> show ?thesis ..
  qed
  then have "takes (Some zs) p \<longleftrightarrow> p \<in> set zs" using assms(2) by (auto simp: takes_def)
  then show ?thesis unfolding Some intersect_members [OF Some] using assms by simp
qed

lemma takes_field: "isToolChoiceValue v \<Longrightarrow> takes x v \<Longrightarrow> takes x ParameterToolChoice"
  by (cases x) (auto simp: takes_def)

section \<open>Properties\<close>

text \<open>
  C39: Intersecting two statements about a model loses and invents nothing. A route that states the
  intersection refuses none of the controls a request sends exactly when a route with either
  statement would refuse none of them, as long as a request that sends a tool choice sends one of
  its values; a statement nobody made abstains.
\<close>

theorem IntersectParameterSets_equivalent:
  assumes "ParameterToolChoice \<in> set sent \<Longrightarrow> list_ex isToolChoiceValue sent"
  shows "UnacceptedParameter (r\<lparr>ro_AcceptedParameters := IntersectParameterSets x y\<rparr>) sent = None \<longleftrightarrow>
    UnacceptedParameter (r\<lparr>ro_AcceptedParameters := x\<rparr>) sent = None \<and>
    UnacceptedParameter (r\<lparr>ro_AcceptedParameters := y\<rparr>) sent = None"
proof -
  let ?ok = "\<lambda>z. \<forall>p \<in> set sent. p \<in> set RequestParameters \<longrightarrow> takes z p"
  let ?ok' = "\<lambda>z. \<forall>p \<in> set sent. p \<in> set RequestParameters \<and> p \<noteq> ParameterToolChoice \<longrightarrow> takes z p"
  have "takes z ParameterToolChoice" if z: "?ok' z" "ParameterToolChoice \<in> set sent" for z
  proof -
    obtain v where v: "v \<in> set sent" "isToolChoiceValue v" using assms z(2) by (auto simp: list_ex_iff)
    then have "v \<noteq> ParameterToolChoice" by (metis toolChoice_not_value)
    with v z(1) vocabulary_values(1) show ?thesis by (blast intro: takes_field)
  qed
  then have ok: "?ok z \<longleftrightarrow> ?ok' z" for z by blast
  have "?ok' (IntersectParameterSets x y) \<longleftrightarrow> ?ok' x \<and> ?ok' y"
    using takes_intersection by auto
  then have "?ok (IntersectParameterSets x y) \<longleftrightarrow> ?ok x \<and> ?ok y" by (simp only: ok)
  then show ?thesis by (simp add: UnacceptedParameter_None)
qed

theorem IntersectParameterSets_equivalent_witness:
  "UnacceptedParameter \<lparr>ro_DeploymentID = ''d'', ro_Provider = ''p'', ro_ModelReference = ''a/m@1'',
       ro_UpstreamModelID = ''u'', ro_Regions = [],
       ro_AcceptedParameters = IntersectParameterSets (Some [''toolChoice'', ''tools'']) (Some [''toolChoice.none'', ''tools'']),
       ro_DecisionPriceLimit = None, ro_CustomerProviderCredential = None\<rparr> [''toolChoice'', ''toolChoice.none''] = None"
  (is "UnacceptedParameter ?r ?sent = None")
proof -
  let ?x = "Some [''toolChoice'', ''tools'']" and ?y = "Some [''toolChoice.none'', ''tools'']"
  have "list_ex isToolChoiceValue ?sent" by code_simp
  moreover have "UnacceptedParameter (?r\<lparr>ro_AcceptedParameters := ?x\<rparr>) ?sent = None" by code_simp
  moreover have "UnacceptedParameter (?r\<lparr>ro_AcceptedParameters := ?y\<rparr>) ?sent = None" by code_simp
  ultimately show ?thesis using IntersectParameterSets_equivalent [where sent = ?sent and r = ?r and x = ?x and y = ?y] by simp
qed

end
