(* ===== verification/Money.thy ===== *)
theory Money
  imports Contract_Usage
begin

text \<open>
  Amounts of money (\<open>internal/providercost/providercost.go\<close>, \<open>listprice.go\<close> and the decimal parts
  of \<open>decisions.go\<close>): an \<open>int64\<close> count of $10^{-12}$ of a currency's unit, read from and printed as
  exact decimals, and the decimal strings of list prices and price ceilings.
\<close>

record money =
  mo_Currency :: string
  mo_Amount :: int

definition Scale :: nat where
  "Scale = 12"

definition currencyPattern :: regex where
  "currencyPattern = rseq [RBegin, RRepeat 3 (Some 3) (RChar is_upper), REnd]"

datatype money_error = NotACurrency | NotADecimal | TooPrecise | AmountTooLarge

text \<open>The loop stops before an accumulation that would leave the 64-bit range.\<close>

fun accumulate :: "int \<Rightarrow> string \<Rightarrow> int option" where
  "accumulate amount [] = Some amount"
| "accumulate amount (c # cs) =
     (if amount > (max_int64 - int (digit_value c)) div 10 then None
      else accumulate (amount * 10 + int (digit_value c)) cs)"

definition bad_sign_or_space :: "string \<Rightarrow> bool" where
  "bad_sign_or_space s \<longleftrightarrow> s = '''' \<or> trim_space s \<noteq> s \<or> has_prefix s ''-'' \<or> has_prefix s ''+''"

definition ParseDecimal :: "string \<Rightarrow> string \<Rightarrow> money_error + money" where
  "ParseDecimal currency s =
     (if \<not> match_string currencyPattern currency then Inl NotACurrency
      else if bad_sign_or_space s then Inl NotADecimal
      else let (whole, fraction, _) = strings_cut s ''.''
           in if whole = '''' \<or> length fraction > Scale \<or> strings_contains fraction ''.'' then Inl TooPrecise
              else if \<not> all_digits whole \<or> \<not> all_digits fraction then Inl NotADecimal
              else case accumulate 0 (whole @ fraction @ replicate (Scale - length fraction) (CHR ''0'')) of
                     None \<Rightarrow> Inl AmountTooLarge
                   | Some amount \<Rightarrow> Inr \<lparr>mo_Currency = currency, mo_Amount = amount\<rparr>)"

definition pad_digits :: "nat \<Rightarrow> nat \<Rightarrow> string" where
  "pad_digits w n = replicate (w - length (string_of_nat n)) (CHR ''0'') @ string_of_nat n"

text \<open>
  The decimal part of \<open>Money.String\<close>. Go divides towards zero, and a negative amount of less than one
  unit prints a whole part of 0 without its sign.
\<close>

definition money_decimal :: "int \<Rightarrow> string" where
  "money_decimal amount =
     string_of_int (amount sdiv 1000000000000) @ ''.'' @ pad_digits 12 (nat \<bar>amount smod 1000000000000\<bar>)"

definition money_String :: "money \<Rightarrow> string" where
  "money_String m =
     (if mo_Currency m = '''' then ''unmeasured''
      else mo_Currency m @ '' '' @ money_decimal (mo_Amount m))"

section \<open>List prices\<close>

definition zero_char :: "char \<Rightarrow> bool" where
  "zero_char c \<longleftrightarrow> c = CHR ''0''"

definition canonicalDecimal :: "string \<Rightarrow> string" where
  "canonicalDecimal s =
     (let (whole, fraction, _) = strings_cut s ''.'';
          whole = trim_left zero_char whole;
          whole = (if whole = '''' then ''0'' else whole);
          fraction = trim_right zero_char fraction
      in if fraction = '''' then whole else whole @ ''.'' @ fraction)"

definition shiftDecimal :: "string \<Rightarrow> nat \<Rightarrow> string option" where
  "shiftDecimal s exponent =
     (if bad_sign_or_space s then None
      else let (whole, fraction, _) = strings_cut s ''.''
           in if whole = '''' \<or> strings_contains fraction ''.'' \<or> strings_contains s ''.'' \<and> fraction = '''' then None
              else if \<not> all_digits (whole @ fraction) then None
              else let padded = fraction @ replicate (exponent - length fraction) (CHR ''0'')
                   in Some (canonicalDecimal (whole @ take exponent padded @ ''.'' @ drop exponent padded)))"

record list_price =
  lp_Currency :: string
  lp_Input :: string
  lp_Output :: string

definition list_price_ok :: "list_price \<Rightarrow> bool" where
  "list_price_ok p \<longleftrightarrow>
     \<not> isl (ParseDecimal (lp_Currency p) (lp_Input p)) \<and> \<not> isl (ParseDecimal (lp_Currency p) (lp_Output p)) \<and>
     canonicalDecimal (lp_Input p) = lp_Input p \<and> canonicalDecimal (lp_Output p) = lp_Output p"

definition ListPriceFromPerToken :: "string \<Rightarrow> string \<Rightarrow> string \<Rightarrow> list_price option" where
  "ListPriceFromPerToken currency inputPerToken outputPerToken =
     (case shiftDecimal inputPerToken 6 of
        None \<Rightarrow> None
      | Some input \<Rightarrow>
          (case shiftDecimal outputPerToken 6 of
             None \<Rightarrow> None
           | Some output \<Rightarrow>
               let price = \<lparr>lp_Currency = currency, lp_Input = input, lp_Output = output\<rparr>
               in if list_price_ok price then Some price else None))"

section \<open>Price ceilings\<close>

definition decisionDecimal :: regex where
  "decisionDecimal = rseq [RBegin, ralt [rlit ''0'', RSeq (RChar (in_range (CHR ''1'') (CHR ''9''))) (rstar is_digit)],
     ropt (RSeq (rlit ''.'') (ratleast 1 is_digit)), REnd]"

definition ParseDecisionTokenPrice :: "string \<Rightarrow> string option" where
  "ParseDecisionTokenPrice s = (if length s > 256 \<or> \<not> match_string decisionDecimal s then None else Some s)"

definition price_IsZero :: "string \<Rightarrow> bool" where
  "price_IsZero s \<longleftrightarrow> trim_right (one_of ''0.'') (trim_left (one_of ''0.'') s) = ''''"

section \<open>Lemmas\<close>

lemma value_of_digits_Nil [simp]: "value_of_digits [] = 0"
  by (simp add: value_of_digits_def)

lemma foldl_digits: "foldl (\<lambda>n c. n * 10 + int (digit_value c)) a s = a * 10 ^ length s + value_of_digits s"
proof (induction s arbitrary: a)
  case (Cons c s)
  have "value_of_digits (c # s) = foldl (\<lambda>n c. n * 10 + int (digit_value c)) (int (digit_value c)) s"
    by (simp add: value_of_digits_def)
  with Cons [of "a * 10 + int (digit_value c)"] Cons [of "int (digit_value c)"] show ?case by (simp add: algebra_simps)
qed simp

lemma value_of_digits_append: "value_of_digits (s @ t) = value_of_digits s * 10 ^ length t + value_of_digits t"
proof -
  have "value_of_digits (s @ t) = foldl (\<lambda>n c. n * 10 + int (digit_value c)) (value_of_digits s) t"
    by (simp add: value_of_digits_def)
  then show ?thesis by (simp only: foldl_digits)
qed

lemma value_of_digits_Cons: "value_of_digits (c # s) = int (digit_value c) * 10 ^ length s + value_of_digits s"
  using value_of_digits_append [of "[c]" s] by (simp add: value_of_digits_def)

lemma value_of_digits_nonneg: "0 \<le> value_of_digits s"
  by (induction s) (simp_all add: value_of_digits_Cons)

lemma digit_value_zero [simp]: "digit_value (CHR ''0'') = 0"
  by (simp add: digit_value_def byte_of_def)

lemma value_of_zeros [simp]: "value_of_digits (replicate n (CHR ''0'')) = 0"
  by (induction n) (simp_all add: value_of_digits_Cons)

lemma accumulate_exact:
  "0 \<le> a \<Longrightarrow> a \<le> max_int64 \<Longrightarrow>
   accumulate a s = (let v = a * 10 ^ length s + value_of_digits s in if v \<le> max_int64 then Some v else None)"
proof (induction s arbitrary: a)
  case (Cons c s)
  let ?b = "a * 10 + int (digit_value c)"
  have v: "a * 10 ^ length (c # s) + value_of_digits (c # s) = ?b * 10 ^ length s + value_of_digits s"
    by (simp add: value_of_digits_Cons algebra_simps)
  show ?case
  proof (cases "a > (max_int64 - int (digit_value c)) div 10")
    case True
    then have b: "?b > max_int64" by linarith
    have "?b \<le> ?b * 10 ^ length s" using Cons.prems(1) by (simp add: mult_le_cancel_left1)
    with b value_of_digits_nonneg [of s] have "\<not> a * 10 ^ length (c # s) + value_of_digits (c # s) \<le> max_int64"
      unfolding v by linarith
    with True show ?thesis by (simp only: accumulate.simps Let_def if_True if_False)
  next
    case False
    then have "?b \<le> max_int64" by linarith
    with False Cons.IH [of ?b] Cons.prems(1) show ?thesis unfolding v by simp
  qed
qed simp

lemma strings_index_dot: "CHR ''.'' \<notin> set w \<Longrightarrow> strings_index (w @ CHR ''.'' # f) ''.'' = Some (length w)"
  by (induction w) (auto simp: has_prefix_def)

lemma strings_index_no_dot: "CHR ''.'' \<notin> set w \<Longrightarrow> strings_index w ''.'' = None"
  by (induction w) (auto simp: has_prefix_def)

lemma digits_no_dot: "all_digits s \<Longrightarrow> CHR ''.'' \<notin> set s"
  by (auto simp: all_digits_def list_all_iff char_class_defs)

lemma trim_space_id: "s \<noteq> [] \<Longrightarrow> \<not> is_space (hd s) \<Longrightarrow> \<not> is_space (last s) \<Longrightarrow> trim_space s = s"
proof -
  assume s: "s \<noteq> []" and h: "\<not> is_space (hd s)" and l: "\<not> is_space (last s)"
  have "trim_left is_space s = s" using s h by (cases s) (simp_all add: trim_left_def)
  moreover have "dropWhile is_space (rev s) = rev s" using s l by (cases "rev s") (auto simp: last_rev hd_rev)
  ultimately show ?thesis by (simp add: trim_space_def trim_right_def)
qed

lemma digit_not_space: "is_digit c \<Longrightarrow> \<not> is_space c"
  by (auto simp: char_class_defs)

lemma length_string_of_nat: "n < 10 ^ Suc k \<Longrightarrow> length (string_of_nat n) \<le> Suc k"
proof (induction k arbitrary: n)
  case (Suc k)
  show ?case
  proof (cases "n < 10")
    case False
    from Suc.prems have "n div 10 < 10 ^ Suc k" by (simp add: div_less_iff_less_mult mult.commute)
    with Suc.IH [of "n div 10"] False show ?thesis by (subst string_of_nat.simps) simp
  qed (subst string_of_nat.simps, simp)
qed (subst string_of_nat.simps, simp)

lemma pad_digits_props:
  assumes "n < 10 ^ 12"
  shows "length (pad_digits 12 n) = 12 \<and> all_digits (pad_digits 12 n) \<and> value_of_digits (pad_digits 12 n) = int n"
proof -
  have "length (string_of_nat n) \<le> 12" using length_string_of_nat [of n 11] assms by simp
  moreover have "list_all is_digit (replicate k (CHR ''0''))" for k by (induction k) (simp_all add: char_class_defs)
  ultimately show ?thesis
    using string_of_nat_digits [of n]
    by (simp add: pad_digits_def value_of_digits_append value_of_string_of_nat all_digits_def list_all_append)
qed

lemma string_of_nat_nonempty: "string_of_nat n \<noteq> []"
  by (subst string_of_nat.simps) simp

section \<open>Properties\<close>

text \<open>
  C40: Reading an amount is exact: a decimal that is accepted denotes, at twelve decimal places,
  precisely the amount that is stored, which is a non-negative 64-bit integer; nothing is rounded.
\<close>

theorem ParseDecimal_exact:
  assumes "ParseDecimal currency s = Inr m" and "strings_cut s ''.'' = (whole, fraction, found)"
  shows "mo_Currency m = currency \<and> 0 \<le> mo_Amount m \<and> mo_Amount m \<le> max_int64 \<and> length fraction \<le> 12 \<and>
    mo_Amount m * 10 ^ length fraction = value_of_digits (whole @ fraction) * 10 ^ 12"
proof -
  let ?z = "replicate (Scale - length fraction) (CHR ''0'')"
  from assms have l: "length fraction \<le> 12" and acc: "accumulate 0 (whole @ fraction @ ?z) = Some (mo_Amount m)"
    and c: "mo_Currency m = currency"
    by (auto simp: ParseDecimal_def Let_def Scale_def split: if_splits option.splits)
  from acc have a: "mo_Amount m = value_of_digits ((whole @ fraction) @ ?z)" "mo_Amount m \<le> max_int64"
    using accumulate_exact [of 0 "whole @ fraction @ ?z"] by (auto simp: Let_def split: if_splits)
  then have "mo_Amount m = value_of_digits (whole @ fraction) * 10 ^ (12 - length fraction)"
    by (simp only: value_of_digits_append) (simp add: Scale_def)
  then have "mo_Amount m * 10 ^ length fraction = value_of_digits (whole @ fraction) * (10 ^ (12 - length fraction) * 10 ^ length fraction)"
    by simp
  also have "(10::int) ^ (12 - length fraction) * 10 ^ length fraction = 10 ^ 12"
    using l by (simp flip: power_add)
  finally show ?thesis using a l c value_of_digits_nonneg by simp
qed

theorem ParseDecimal_exact_witness: "mo_Amount \<lparr>mo_Currency = ''USD'', mo_Amount = 1250000000000\<rparr> * 10 ^ 2 = value_of_digits ''125'' * 10 ^ 12"
proof -
  have "ParseDecimal ''USD'' ''1.25'' = Inr \<lparr>mo_Currency = ''USD'', mo_Amount = 1250000000000\<rparr>" by code_simp
  moreover have "strings_cut ''1.25'' ''.'' = (''1'', ''25'', True)" by code_simp
  ultimately show ?thesis using ParseDecimal_exact by fastforce
qed

text \<open>
  The decimal an amount is printed as is read back as that amount, for every non-negative
  64-bit amount and every currency code.
\<close>

theorem ParseDecimal_roundtrip:
  assumes "0 \<le> amount" and "amount \<le> max_int64" and "match_string currencyPattern currency"
  shows "ParseDecimal currency (money_decimal amount) = Inr \<lparr>mo_Currency = currency, mo_Amount = amount\<rparr>"
proof -
  let ?w = "string_of_nat (nat (amount div 1000000000000))" and ?f = "pad_digits 12 (nat (amount mod 1000000000000))"
  have m: "money_decimal amount = ?w @ CHR ''.'' # ?f"
    using assms(1) by (cases "amount = 0")
      (simp_all add: money_decimal_def signed_divide_int_def signed_modulo_int_def string_of_int_def)
  have "nat (amount mod 1000000000000) < 10 ^ 12" by (simp add: nat_less_iff)
  from pad_digits_props [OF this] have f: "length ?f = 12" "all_digits ?f" "value_of_digits ?f = amount mod 1000000000000"
    using assms(1) by auto
  have w: "all_digits ?w" "?w \<noteq> []" "value_of_digits ?w = amount div 1000000000000"
    using assms(1) by (simp_all add: string_of_nat_digits string_of_nat_nonempty value_of_string_of_nat pos_imp_zdiv_nonneg_iff)
  have cut: "strings_cut (?w @ CHR ''.'' # ?f) ''.'' = (?w, ?f, True)"
    using strings_index_dot [OF digits_no_dot [OF w(1)]] by (simp add: strings_cut_def)
  obtain c cs where wc: "?w = c # cs" using w(2) by (cases ?w) auto
  have d: "is_digit c" using w(1) wc by (simp add: all_digits_def)
  have "?f \<noteq> []" using f(1) by auto
  then have "is_digit (last ?f)" using f(2) by (auto simp: all_digits_def list_all_iff)
  then have t: "trim_space (?w @ CHR ''.'' # ?f) = ?w @ CHR ''.'' # ?f"
    using trim_space_id [of "?w @ CHR ''.'' # ?f"] d wc \<open>?f \<noteq> []\<close> digit_not_space by (auto simp: last_append)
  have "c \<noteq> CHR ''-''" "c \<noteq> CHR ''+''" using d by (auto simp: char_class_defs)
  then have b: "\<not> bad_sign_or_space (?w @ CHR ''.'' # ?f)"
    using t wc by (simp add: bad_sign_or_space_def has_prefix_def)
  have "strings_contains ?f ''.'' = False"
    using strings_index_no_dot [OF digits_no_dot [OF f(2)]] by (simp add: strings_contains_def)
  moreover have "accumulate 0 (?w @ ?f) = Some amount"
    using accumulate_exact [of 0 "?w @ ?f"] assms(1,2) f(1,3) w(3) by (simp add: value_of_digits_append Let_def)
  ultimately show ?thesis
    using assms(3) b cut f(1,2) w(1,2) unfolding m by (simp add: ParseDecimal_def Scale_def)
qed

theorem ParseDecimal_roundtrip_witness:
  "ParseDecimal ''USD'' (money_decimal 2500000) = Inr \<lparr>mo_Currency = ''USD'', mo_Amount = 2500000\<rparr>"
proof -
  have "match_string currencyPattern ''USD''" by code_simp
  with ParseDecimal_roundtrip [of 2500000 "''USD''"] show ?thesis by simp
qed

end
