(* ===== verification/Provider_Cost.thy ===== *)
theory Provider_Cost
  imports Money Go_Json
begin

text \<open>
  What a request costs upstream (\<open>internal/providercost/providercost.go\<close> and the price ceiling of
  \<open>decisions.go\<close>): rate cards and their validation, the measurement of an attempt, of a request,
  and the events that persist it. Go maps keyed by deployment, version or currency are
  association lists. A nil \<open>*Cards\<close> is \<open>None\<close>. A rate-card file is its decoded value. Amounts
  wrap at 64 bits where the code multiplies and adds.
\<close>

section \<open>Rate cards\<close>

record rate =
  ra_Unit :: usage_unit
  ra_AmountPerUnit :: int

record card =
  cd_DeploymentID :: deployment_id
  cd_Currency :: string
  cd_Rates :: "rate list"
  cd_RequestInputTokens :: int

datatype rate_card_source = RateCardProviderAPI | RateCardProviderDocumentation | RateCardOperator | OtherCardSource string

record rate_card_observation =
  ob_VersionID :: string
  ob_Source :: rate_card_source
  ob_SourceVersion :: string
  ob_ObservedAt :: instant
  ob_EffectiveAt :: instant
  ob_ExpiresAt :: "instant option"
  ob_RateCards :: "card list"

record cards =
  byDeployment :: "(deployment_id \<times> card) list"
  observations :: "(string \<times> rate_card_observation) list"
  deploymentObservation :: "(deployment_id \<times> string) list"

record card_file =
  cf_SchemaVersion :: int
  cf_VersionID :: string
  cf_Source :: rate_card_source
  cf_SourceVersion :: string
  cf_ObservedAt :: instant
  cf_EffectiveAt :: instant
  cf_ExpiresAt :: "instant option"
  cf_RateCards :: "card list"

datatype card_error =
    IncompleteIdentity | BadCardSource | BadValidityWindow | NoRateCards | CardNamesNoDeployment
  | CardCurrency deployment_id | CardNoRates deployment_id | CardNegativeTokens deployment_id
  | CardTwice deployment_id | CardUnit deployment_id | CardNegative deployment_id | CardUnitTwice deployment_id
  | DuplicateVersion string

fun check_rates :: "deployment_id \<Rightarrow> usage_unit list \<Rightarrow> rate list \<Rightarrow> card_error option" where
  "check_rates d seen [] = None"
| "check_rates d seen (r # rs) =
     (if \<not> is_member (ra_Unit r) usageUnitValues then Some (CardUnit d)
      else if ra_AmountPerUnit r < 0 then Some (CardNegative d)
      else if is_member (ra_Unit r) seen then Some (CardUnitTwice d)
      else check_rates d (ra_Unit r # seen) rs)"

definition check_card :: "card \<Rightarrow> card_error option" where
  "check_card c =
     (if cd_DeploymentID c = '''' then Some CardNamesNoDeployment
      else if \<not> match_string currencyPattern (cd_Currency c) then Some (CardCurrency (cd_DeploymentID c))
      else if cd_Rates c = [] then Some (CardNoRates (cd_DeploymentID c))
      else if cd_RequestInputTokens c < 0 then Some (CardNegativeTokens (cd_DeploymentID c))
      else None)"

fun parse_cards :: "string \<Rightarrow> card list \<Rightarrow> cards \<Rightarrow> card_error + cards" where
  "parse_cards version [] t = Inr t"
| "parse_cards version (c # cs) t =
     (case check_card c of
        Some e \<Rightarrow> Inl e
      | None \<Rightarrow>
          if map_of (byDeployment t) (cd_DeploymentID c) \<noteq> None then Inl (CardTwice (cd_DeploymentID c))
          else case check_rates (cd_DeploymentID c) [] (cd_Rates c) of
                 Some e \<Rightarrow> Inl e
               | None \<Rightarrow> parse_cards version cs
                   (t\<lparr>byDeployment := (cd_DeploymentID c, c) # byDeployment t,
                      deploymentObservation := (cd_DeploymentID c, version) # deploymentObservation t\<rparr>))"

definition no_cards :: cards where
  "no_cards = \<lparr>byDeployment = [], observations = [], deploymentObservation = []\<rparr>"

definition cards_Parse :: "card_file \<Rightarrow> card_error + cards" where
  "cards_Parse f =
     (if cf_SchemaVersion f \<noteq> 1 \<or> trim_space (cf_VersionID f) \<noteq> cf_VersionID f \<or> cf_VersionID f = '''' \<or>
         trim_space (cf_SourceVersion f) \<noteq> cf_SourceVersion f \<or> cf_SourceVersion f = '''' \<or>
         cf_ObservedAt f = zero_time \<or> cf_EffectiveAt f = zero_time then Inl IncompleteIdentity
      else if cf_Source f \<noteq> RateCardProviderAPI \<and> cf_Source f \<noteq> RateCardProviderDocumentation \<and>
              cf_Source f \<noteq> RateCardOperator then Inl BadCardSource
      else if (case cf_ExpiresAt f of Some x \<Rightarrow> \<not> x > cf_EffectiveAt f | None \<Rightarrow> False) then Inl BadValidityWindow
      else if cf_RateCards f = [] then Inl NoRateCards
      else case parse_cards (cf_VersionID f) (cf_RateCards f) no_cards of
             Inl e \<Rightarrow> Inl e
           | Inr t \<Rightarrow> Inr (t\<lparr>observations := [(cf_VersionID f,
               \<lparr>ob_VersionID = cf_VersionID f, ob_Source = cf_Source f, ob_SourceVersion = cf_SourceVersion f,
                ob_ObservedAt = cf_ObservedAt f, ob_EffectiveAt = cf_EffectiveAt f, ob_ExpiresAt = cf_ExpiresAt f,
                ob_RateCards = cf_RateCards f\<rparr>)]\<rparr>))"

fun add_observations :: "(string \<times> rate_card_observation) list \<Rightarrow> cards \<Rightarrow> card_error + cards" where
  "add_observations [] t = Inr t"
| "add_observations ((v, ob) # obs) t =
     (if map_of (observations t) v \<noteq> None then Inl (DuplicateVersion v)
      else add_observations obs (t\<lparr>observations := (v, ob) # observations t\<rparr>))"

fun add_cards :: "cards \<Rightarrow> (deployment_id \<times> card) list \<Rightarrow> cards \<Rightarrow> card_error + cards" where
  "add_cards from [] t = Inr t"
| "add_cards from ((d, c) # cs) t =
     (if map_of (byDeployment t) d \<noteq> None then Inl (CardTwice d)
      else add_cards from cs
        (t\<lparr>byDeployment := (d, c) # byDeployment t,
           deploymentObservation :=
             (d, case map_of (deploymentObservation from) d of Some v \<Rightarrow> v | None \<Rightarrow> '''') # deploymentObservation t\<rparr>))"

fun combine_into :: "cards list \<Rightarrow> cards \<Rightarrow> card_error + cards" where
  "combine_into [] t = Inr t"
| "combine_into (x # xs) t =
     (case add_observations (observations x) t of
        Inl e \<Rightarrow> Inl e
      | Inr t1 \<Rightarrow> (case add_cards x (byDeployment x) t1 of Inl e \<Rightarrow> Inl e | Inr t2 \<Rightarrow> combine_into xs t2))"

definition combine :: "cards list \<Rightarrow> card_error + cards" where
  "combine tables = combine_into tables no_cards"

definition ObservationForDeployment :: "cards option \<Rightarrow> deployment_id \<Rightarrow> rate_card_observation option" where
  "ObservationForDeployment c d =
     (case c of
        None \<Rightarrow> None
      | Some t \<Rightarrow> (case map_of (deploymentObservation t) d of None \<Rightarrow> None | Some v \<Rightarrow> map_of (observations t) v))"

definition cards_RequestInputTokens :: "cards option \<Rightarrow> (deployment_id \<Rightarrow> bool) \<Rightarrow> int" where
  "cards_RequestInputTokens c admits =
     (case c of
        None \<Rightarrow> 0
      | Some t \<Rightarrow> fold (\<lambda>(d, k) most.
          if cd_RequestInputTokens k > most \<and> admits d then cd_RequestInputTokens k else most) (byDeployment t) 0)"

definition Priced :: "cards option \<Rightarrow> deployment_id \<Rightarrow> bool" where
  "Priced c d \<longleftrightarrow> (case c of None \<Rightarrow> False | Some t \<Rightarrow> map_of (byDeployment t) d \<noteq> None)"

section \<open>Measurement\<close>

datatype cost_source = SourceUnknown | SourceRateCard | SourceProviderReported

record measurement =
  me_Cost :: money
  me_Source :: cost_source
  me_RateCardVersionID :: string
  me_ProviderBilledCustomer :: bool
  me_Priced :: bool
  me_UnpricedUnits :: "usage_unit list"

definition unmeasured :: measurement where
  "unmeasured = \<lparr>me_Cost = \<lparr>mo_Currency = '''', mo_Amount = 0\<rparr>, me_Source = SourceUnknown, me_RateCardVersionID = '''',
     me_ProviderBilledCustomer = False, me_Priced = False, me_UnpricedUnits = []\<rparr>"

definition Complete :: "measurement \<Rightarrow> bool" where
  "Complete m \<longleftrightarrow> me_ProviderBilledCustomer m \<or> me_Priced m \<and> length (me_UnpricedUnits m) = 0"

definition in_force :: "rate_card_observation \<Rightarrow> instant \<Rightarrow> bool" where
  "in_force ob t \<longleftrightarrow> \<not> (t < ob_EffectiveAt ob \<or> (case ob_ExpiresAt ob of Some x \<Rightarrow> \<not> t < x | None \<Rightarrow> False))"

text \<open>A later rate for a unit overwrites an earlier one, as filling a map does.\<close>

definition rate_for :: "card \<Rightarrow> usage_unit \<Rightarrow> int option" where
  "rate_for c u = map_of (map (\<lambda>r. (ra_Unit r, ra_AmountPerUnit r)) (rev (cd_Rates c))) u"

definition price_unit :: "card \<Rightarrow> usage_quantity \<Rightarrow> measurement \<Rightarrow> measurement" where
  "price_unit c q m =
     (case rate_for c (uq_Unit q) of
        None \<Rightarrow> m\<lparr>me_UnpricedUnits := me_UnpricedUnits m @ [uq_Unit q]\<rparr>
      | Some r \<Rightarrow> m\<lparr>me_Cost := (me_Cost m)\<lparr>mo_Amount := int64 (mo_Amount (me_Cost m) + int64 (r * uq_Quantity q))\<rparr>\<rparr>)"

definition measureAt :: "cards option \<Rightarrow> instant \<Rightarrow> deployment_id \<Rightarrow> usage_quantity list \<Rightarrow> instant \<Rightarrow> measurement" where
  "measureAt c now d units t =
     (case c of
        None \<Rightarrow> unmeasured
      | Some table \<Rightarrow>
          let t = (if t = zero_time then now else t)
          in case ObservationForDeployment c d of
               None \<Rightarrow> unmeasured
             | Some ob \<Rightarrow>
                 if \<not> in_force ob t then unmeasured
                 else case map_of (byDeployment table) d of
                        None \<Rightarrow> unmeasured
                      | Some k \<Rightarrow>
                          let m = fold (price_unit k) units
                                \<lparr>me_Cost = \<lparr>mo_Currency = cd_Currency k, mo_Amount = 0\<rparr>, me_Source = SourceRateCard,
                                 me_RateCardVersionID = ob_VersionID ob, me_ProviderBilledCustomer = False,
                                 me_Priced = True, me_UnpricedUnits = []\<rparr>
                          in m\<lparr>me_UnpricedUnits := sort_key unit_text (me_UnpricedUnits m)\<rparr>)"

section \<open>One request, several attempts\<close>

datatype attempt_outcome = AttemptSucceeded | AttemptFailed | AttemptCancelled

record attempt_telemetry =
  te_StartedAt :: instant
  te_Latency :: duration
  te_TimeToFirstOutput :: duration
  te_Outcome :: attempt_outcome
  te_FailureCode :: "error_code option"

record attempt_usage =
  au_AttemptIndex :: int
  au_DeploymentID :: deployment_id
  au_Provider :: provider_slug
  au_ModelReference :: model_reference
  au_OccurredAt :: instant
  au_ProviderBilledCustomer :: bool
  au_KeyID :: string
  au_KeyClass :: key_class
  au_ProviderReportedCost :: "money option"
  au_Served :: bool
  au_Units :: "usage_quantity list"
  au_Telemetry :: attempt_telemetry

record cost_record =
  cr_RequestID :: request_id
  cr_Attempts :: "(attempt_usage \<times> measurement) list"
  cr_Totals :: "money list"
  cr_Complete :: bool

definition measure_attempt :: "cards option \<Rightarrow> instant \<Rightarrow> attempt_usage \<Rightarrow> measurement" where
  "measure_attempt c now a =
     (if au_ProviderBilledCustomer a then unmeasured\<lparr>me_ProviderBilledCustomer := True\<rparr>
      else case au_ProviderReportedCost a of
             Some m \<Rightarrow> unmeasured\<lparr>me_Cost := m, me_Priced := True, me_Source := SourceProviderReported\<rparr>
           | None \<Rightarrow> measureAt c now (au_DeploymentID a) (au_Units a) (au_OccurredAt a))"

definition add_total :: "measurement \<Rightarrow> (string \<times> int) list \<Rightarrow> (string \<times> int) list" where
  "add_total m totals =
     (if me_Priced m \<and> \<not> me_ProviderBilledCustomer m
      then let cur = mo_Currency (me_Cost m);
               old = (case map_of totals cur of Some n \<Rightarrow> n | None \<Rightarrow> 0)
           in AList.update cur (int64 (old + mo_Amount (me_Cost m))) totals
      else totals)"

definition MeasureRequest :: "cards option \<Rightarrow> instant \<Rightarrow> request_id \<Rightarrow> attempt_usage list \<Rightarrow> cost_record" where
  "MeasureRequest c now requestID attempts =
     (let ms = map (measure_attempt c now) attempts
      in \<lparr>cr_RequestID = requestID, cr_Attempts = zip attempts ms,
          cr_Totals = map (\<lambda>(cur, n). \<lparr>mo_Currency = cur, mo_Amount = n\<rparr>) (sort_key fst (fold add_total ms [])),
          cr_Complete = (list_all Complete ms \<and> length attempts \<noteq> 0)\<rparr>)"

section \<open>Events\<close>

record cost_event =
  ce_Request :: request_id
  ce_AttemptIndex :: int
  ce_Provider :: provider_slug
  ce_KeyID :: string
  ce_DeploymentID :: deployment_id
  ce_ModelReference :: model_reference
  ce_Cost :: money
  ce_Source :: cost_source
  ce_RateCardVersionID :: string
  ce_Complete :: bool
  ce_Served :: bool
  ce_OccurredAt :: instant
  ce_Units :: "usage_quantity list"
  ce_Telemetry :: attempt_telemetry

definition maxPersistenceBatchEvents :: nat where
  "maxPersistenceBatchEvents = 64"

definition maxTelemetryMilliseconds :: int where
  "maxTelemetryMilliseconds = 2 ^ 31 - 1"

definition sortedUnits :: "usage_quantity list \<Rightarrow> usage_quantity list" where
  "sortedUnits units = sort_key (\<lambda>q. unit_text (uq_Unit q)) units"

datatype event_fault =
    TooManyAttempts | EventIdentity | EventTelemetry | EventLatency | EventFailureCode | EventQuantity
  | EventUnitTwice | EventMoney | EventVersion | EventUnknownCost | EventIndexTwice

fun check_quantities :: "usage_unit list \<Rightarrow> usage_quantity list \<Rightarrow> event_fault option" where
  "check_quantities seen [] = None"
| "check_quantities seen (q # qs) =
     (if \<not> is_member (uq_Unit q) usageUnitValues \<or> uq_Quantity q < 0 then Some EventQuantity
      else if is_member (uq_Unit q) seen then Some EventUnitTwice
      else check_quantities (uq_Unit q # seen) qs)"

text \<open>Every error code is spelled as the failure-code pattern requires, so a failed attempt has to carry one.\<close>

definition validateTelemetry :: "cost_event \<Rightarrow> event_fault option" where
  "validateTelemetry v =
     (let t = ce_Telemetry v
      in if te_StartedAt t = zero_time \<or> te_Latency t < 0 \<or> te_TimeToFirstOutput t < 0 \<or>
            te_TimeToFirstOutput t > te_Latency t then Some EventTelemetry
         else if milliseconds (te_Latency t) > maxTelemetryMilliseconds then Some EventLatency
         else if (te_Outcome t = AttemptFailed) \<noteq> (te_FailureCode t \<noteq> None) then Some EventFailureCode
         else check_quantities [] (ce_Units v))"

definition validateEvent :: "cost_event \<Rightarrow> event_fault option" where
  "validateEvent v =
     (if ce_Request v = '''' \<or> ce_AttemptIndex v < 0 \<or> ce_Provider v = '''' \<or> ce_KeyID v = '''' \<or>
         ce_DeploymentID v = '''' \<or> ce_ModelReference v = '''' \<or> ce_OccurredAt v = zero_time then Some EventIdentity
      else case validateTelemetry v of
             Some e \<Rightarrow> Some e
           | None \<Rightarrow>
               (case ce_Source v of
                  SourceUnknown \<Rightarrow>
                    if mo_Currency (ce_Cost v) \<noteq> '''' \<or> mo_Amount (ce_Cost v) \<noteq> 0 \<or> ce_Complete v \<or>
                       ce_RateCardVersionID v \<noteq> '''' then Some EventUnknownCost else None
                | _ \<Rightarrow>
                    if \<not> match_string currencyPattern (mo_Currency (ce_Cost v)) \<or> mo_Amount (ce_Cost v) < 0
                    then Some EventMoney
                    else if ce_Source v = SourceRateCard \<and>
                            (ce_RateCardVersionID v = '''' \<or> length (ce_RateCardVersionID v) > 256) then Some EventVersion
                    else if ce_Source v = SourceProviderReported \<and> ce_RateCardVersionID v \<noteq> '''' then Some EventVersion
                    else None))"

definition event_of :: "request_id \<Rightarrow> attempt_usage \<Rightarrow> measurement \<Rightarrow> cost_event" where
  "event_of requestID a m =
     \<lparr>ce_Request = requestID, ce_AttemptIndex = au_AttemptIndex a, ce_Provider = au_Provider a, ce_KeyID = au_KeyID a,
      ce_DeploymentID = au_DeploymentID a, ce_ModelReference = au_ModelReference a, ce_Cost = me_Cost m,
      ce_Source = me_Source m, ce_RateCardVersionID = me_RateCardVersionID m, ce_Complete = Complete m,
      ce_Served = au_Served a, ce_OccurredAt = au_OccurredAt a, ce_Units = sortedUnits (au_Units a),
      ce_Telemetry = au_Telemetry a\<rparr>"

fun events_loop :: "request_id \<Rightarrow> int list \<Rightarrow> (attempt_usage \<times> measurement) list \<Rightarrow> event_fault + cost_event list" where
  "events_loop requestID seen [] = Inr []"
| "events_loop requestID seen ((a, m) # as) =
     (if au_ProviderBilledCustomer a \<or> au_KeyID a = '''' then events_loop requestID seen as
      else let v = event_of requestID a m
           in case validateEvent v of
                Some e \<Rightarrow> Inl e
              | None \<Rightarrow>
                  if is_member (ce_AttemptIndex v) seen then Inl EventIndexTwice
                  else case events_loop requestID (ce_AttemptIndex v # seen) as of
                         Inl e \<Rightarrow> Inl e | Inr vs \<Rightarrow> Inr (v # vs))"

definition Events :: "cost_record \<Rightarrow> event_fault + cost_event list" where
  "Events r =
     (if length (cr_Attempts r) > maxPersistenceBatchEvents then Inl TooManyAttempts
      else events_loop (cr_RequestID r) [] (cr_Attempts r))"

section \<open>The price ceiling of a decisions deployment\<close>

definition per_million :: "int \<Rightarrow> string" where
  "per_million n = string_of_int (n div 1000000) @ ''.'' @ pad_digits 6 (nat (n mod 1000000))"

fun decision_prices ::
  "rate list \<Rightarrow> string option \<Rightarrow> string option \<Rightarrow> (string option \<times> string option) option" where
  "decision_prices [] input output = Some (input, output)"
| "decision_prices (r # rs) input output =
     (if ra_AmountPerUnit r < 0 then None
      else case ParseDecisionTokenPrice (per_million (ra_AmountPerUnit r)) of
             None \<Rightarrow> None
           | Some price \<Rightarrow>
               (case ra_Unit r of
                  UnitInputTokens \<Rightarrow> if input \<noteq> None then None else decision_prices rs (Some price) output
                | UnitOutputTokens \<Rightarrow> if output \<noteq> None then None else decision_prices rs input (Some price)
                | _ \<Rightarrow> None))"

definition DecisionPriceLimit :: "cards option \<Rightarrow> deployment_id \<Rightarrow> instant \<Rightarrow> (string \<times> string) option" where
  "DecisionPriceLimit c d t =
     (case (c, ObservationForDeployment c d) of
        (Some table, Some ob) \<Rightarrow>
          if \<not> in_force ob t then None
          else (case map_of (byDeployment table) d of
                  None \<Rightarrow> None
                | Some k \<Rightarrow>
                    if cd_Currency k \<noteq> ''USD'' \<or> length (cd_Rates k) \<noteq> 2 then None
                    else (case decision_prices (cd_Rates k) None None of
                            Some (Some prompt, Some completion) \<Rightarrow>
                              if \<not> price_IsZero prompt \<and> price_IsZero completion then Some (prompt, completion) else None
                          | _ \<Rightarrow> None))
      | _ \<Rightarrow> None)"

section \<open>Specification\<close>

text \<open>The card that prices a deployment at an instant, and the cost in unbounded arithmetic.\<close>

definition card_in_force :: "cards option \<Rightarrow> deployment_id \<Rightarrow> instant \<Rightarrow> card option" where
  "card_in_force c d t =
     (case (c, ObservationForDeployment c d) of
        (Some table, Some ob) \<Rightarrow> if in_force ob t then map_of (byDeployment table) d else None
      | _ \<Rightarrow> None)"

definition unit_cost :: "card \<Rightarrow> usage_quantity \<Rightarrow> int" where
  "unit_cost k q = (case rate_for k (uq_Unit q) of Some r \<Rightarrow> r * uq_Quantity q | None \<Rightarrow> 0)"

definition attempt_card :: "cards option \<Rightarrow> instant \<Rightarrow> attempt_usage \<Rightarrow> card option" where
  "attempt_card c now a =
     card_in_force c (au_DeploymentID a) (if au_OccurredAt a = zero_time then now else au_OccurredAt a)"

definition attempt_cost :: "cards option \<Rightarrow> instant \<Rightarrow> attempt_usage \<Rightarrow> (string \<times> int) option" where
  "attempt_cost c now a =
     (if au_ProviderBilledCustomer a then None
      else case au_ProviderReportedCost a of
             Some m \<Rightarrow> Some (mo_Currency m, mo_Amount m)
           | None \<Rightarrow>
               (case attempt_card c now a of
                  Some k \<Rightarrow> Some (cd_Currency k, sum_list (map (unit_cost k) (au_Units a)))
                | None \<Rightarrow> None))"

definition accounted :: "cards option \<Rightarrow> instant \<Rightarrow> attempt_usage \<Rightarrow> bool" where
  "accounted c now a \<longleftrightarrow>
     au_ProviderBilledCustomer a \<or> au_ProviderReportedCost a \<noteq> None \<or>
     (case attempt_card c now a of
        Some k \<Rightarrow> list_all (\<lambda>q. rate_for k (uq_Unit q) \<noteq> None) (au_Units a) | None \<Rightarrow> False)"

definition spent_in :: "string \<Rightarrow> cards option \<Rightarrow> instant \<Rightarrow> attempt_usage \<Rightarrow> int" where
  "spent_in cur c now a = (case attempt_cost c now a of Some (x, n) \<Rightarrow> if x = cur then n else 0 | None \<Rightarrow> 0)"

section \<open>Lemmas\<close>

lemma price_unit_keeps [simp]:
  "me_Priced (price_unit k q m) = me_Priced m" "mo_Currency (me_Cost (price_unit k q m)) = mo_Currency (me_Cost m)"
  "me_ProviderBilledCustomer (price_unit k q m) = me_ProviderBilledCustomer m"
  by (simp_all add: price_unit_def split: option.splits)

lemma fold_price_keeps:
  "me_Priced (fold (price_unit k) us m) = me_Priced m"
  "mo_Currency (me_Cost (fold (price_unit k) us m)) = mo_Currency (me_Cost m)"
  "me_ProviderBilledCustomer (fold (price_unit k) us m) = me_ProviderBilledCustomer m"
  by (induction us arbitrary: m) simp_all

lemma fold_price_unpriced:
  "me_UnpricedUnits (fold (price_unit k) us m) =
     me_UnpricedUnits m @ filter (\<lambda>u. rate_for k u = None) (map uq_Unit us)"
  by (induction us arbitrary: m) (auto simp: price_unit_def split: option.splits)

lemma measureAt_card:
  "measureAt c now d us t =
     (case card_in_force c d (if t = zero_time then now else t) of
        None \<Rightarrow> unmeasured
      | Some k \<Rightarrow>
          let m = fold (price_unit k) us
                \<lparr>me_Cost = \<lparr>mo_Currency = cd_Currency k, mo_Amount = 0\<rparr>, me_Source = SourceRateCard,
                 me_RateCardVersionID = ob_VersionID (the (ObservationForDeployment c d)),
                 me_ProviderBilledCustomer = False, me_Priced = True, me_UnpricedUnits = []\<rparr>
          in m\<lparr>me_UnpricedUnits := sort_key unit_text (me_UnpricedUnits m)\<rparr>)"
  by (cases c; cases "ObservationForDeployment c d") (auto simp: measureAt_def card_in_force_def Let_def split: option.splits)

lemma sort_key_Nil_iff: "sort_key f xs = [] \<longleftrightarrow> xs = []"
  by (metis length_0_conv length_sort)

lemma Complete_attempt: "Complete (measure_attempt c now a) \<longleftrightarrow> accounted c now a"
  by (auto simp: measure_attempt_def accounted_def attempt_card_def Complete_def unmeasured_def measureAt_card Let_def
      fold_price_keeps fold_price_unpriced filter_empty_conv list_all_iff sort_key_Nil_iff
      split: option.splits)

text \<open>A table that was parsed or combined prices nothing negatively.\<close>

definition nonneg_rates :: "cards \<Rightarrow> bool" where
  "nonneg_rates t \<longleftrightarrow> (\<forall>d k r. map_of (byDeployment t) d = Some k \<longrightarrow> r \<in> set (cd_Rates k) \<longrightarrow> 0 \<le> ra_AmountPerUnit r)"

lemma check_rates_nonneg: "check_rates d seen rs = None \<Longrightarrow> r \<in> set rs \<Longrightarrow> 0 \<le> ra_AmountPerUnit r"
  by (induction d seen rs rule: check_rates.induct) (auto split: if_splits)

lemma parse_cards_nonneg: "parse_cards v cs t = Inr t' \<Longrightarrow> nonneg_rates t \<Longrightarrow> nonneg_rates t'"
proof (induction v cs t rule: parse_cards.induct)
  case (2 v c cs t)
  from 2(2) have ok: "check_card c = None" "map_of (byDeployment t) (cd_DeploymentID c) = None"
    "check_rates (cd_DeploymentID c) [] (cd_Rates c) = None" by (auto split: option.splits if_splits)
  have "nonneg_rates (t\<lparr>byDeployment := (cd_DeploymentID c, c) # byDeployment t,
      deploymentObservation := (cd_DeploymentID c, v) # deploymentObservation t\<rparr>)"
    using 2(3) check_rates_nonneg [OF ok(3)] by (auto simp: nonneg_rates_def)
  with 2(1,2) ok show ?case by simp
qed simp

lemma cards_Parse_nonneg: "cards_Parse f = Inr t \<Longrightarrow> nonneg_rates t"
  using parse_cards_nonneg [of "cf_VersionID f" "cf_RateCards f" no_cards]
  by (auto simp: cards_Parse_def nonneg_rates_def no_cards_def split: if_splits sum.splits)

lemma rate_for_nonneg:
  assumes "nonneg_rates t" and "card_in_force (Some t) d x = Some k" and "rate_for k u = Some r"
  shows "0 \<le> r"
proof -
  have "map_of (byDeployment t) d = Some k"
    using assms(2) by (auto simp: card_in_force_def split: option.splits if_splits)
  moreover from assms(3) have "\<exists>x \<in> set (cd_Rates k). ra_AmountPerUnit x = r"
    unfolding rate_for_def by (auto dest!: map_of_SomeD)
  ultimately show ?thesis using assms(1) by (auto simp: nonneg_rates_def)
qed

lemma fold_price_amount:
  assumes "\<And>q. q \<in> set us \<Longrightarrow> 0 \<le> unit_cost k q" and "0 \<le> mo_Amount (me_Cost m)"
    and "mo_Amount (me_Cost m) + sum_list (map (unit_cost k) us) \<le> max_int64"
  shows "mo_Amount (me_Cost (fold (price_unit k) us m)) = mo_Amount (me_Cost m) + sum_list (map (unit_cost k) us)"
  using assms
proof (induction us arbitrary: m)
  case (Cons q us)
  have rest: "0 \<le> sum_list (map (unit_cost k) us)" using Cons.prems(1) by (auto intro!: sum_list_nonneg)
  have q: "0 \<le> unit_cost k q" "mo_Amount (me_Cost m) + unit_cost k q \<le> max_int64"
    using Cons.prems rest by simp_all
  have step: "mo_Amount (me_Cost (price_unit k q m)) = mo_Amount (me_Cost m) + unit_cost k q"
    using q Cons.prems(2) by (auto simp: price_unit_def unit_cost_def int64_id split: option.splits)
  have "mo_Amount (me_Cost (fold (price_unit k) us (price_unit k q m))) =
      mo_Amount (me_Cost (price_unit k q m)) + sum_list (map (unit_cost k) us)"
    by (rule Cons.IH) (use Cons.prems q in \<open>simp_all add: step\<close>)
  then show ?case by (simp add: step)
qed simp

lemma measure_attempt_cost:
  assumes "c = Some t" and "nonneg_rates t" and "\<forall>q \<in> set (au_Units a). 0 \<le> uq_Quantity q"
    and "\<And>n cur. attempt_cost c now a = Some (cur, n) \<Longrightarrow> n \<le> max_int64"
  shows "(me_Priced (measure_attempt c now a) \<and> \<not> me_ProviderBilledCustomer (measure_attempt c now a) \<longleftrightarrow>
      attempt_cost c now a \<noteq> None) \<and>
    (\<forall>cur n. attempt_cost c now a = Some (cur, n) \<longrightarrow>
      me_Cost (measure_attempt c now a) = \<lparr>mo_Currency = cur, mo_Amount = n\<rparr>)"
proof (cases "au_ProviderBilledCustomer a \<or> au_ProviderReportedCost a \<noteq> None \<or> attempt_card c now a = None")
  case True
  then show ?thesis
    by (auto simp: measure_attempt_def attempt_cost_def unmeasured_def attempt_card_def measureAt_card split: option.splits)
next
  case False
  then obtain k where k: "attempt_card c now a = Some k" and n: "\<not> au_ProviderBilledCustomer a" "au_ProviderReportedCost a = None"
    by blast
  have cost: "attempt_cost c now a = Some (cd_Currency k, sum_list (map (unit_cost k) (au_Units a)))"
    using n k by (simp add: attempt_cost_def)
  have "0 \<le> unit_cost k q" if "q \<in> set (au_Units a)" for q
    using rate_for_nonneg [of t] assms(1-3) k that by (auto simp: unit_cost_def attempt_card_def split: option.splits)
  then have "mo_Amount (me_Cost (fold (price_unit k) (au_Units a) m)) = sum_list (map (unit_cost k) (au_Units a))"
    if "mo_Amount (me_Cost m) = 0" for m
    using fold_price_amount [of "au_Units a" k m] assms(4) [OF cost] that by simp
  then show ?thesis using n k cost
    by (simp add: measure_attempt_def measureAt_card attempt_card_def Let_def fold_price_keeps)
qed

definition counted :: "string \<Rightarrow> measurement \<Rightarrow> int" where
  "counted cur m =
     (if me_Priced m \<and> \<not> me_ProviderBilledCustomer m \<and> mo_Currency (me_Cost m) = cur then mo_Amount (me_Cost m) else 0)"

lemma counted_none:
  "\<not> (\<exists>m \<in> set ms. me_Priced m \<and> \<not> me_ProviderBilledCustomer m \<and> mo_Currency (me_Cost m) = cur) \<Longrightarrow>
   sum_list (map (counted cur) ms) = 0"
  by (induction ms) (auto simp: counted_def)

lemma fold_add_total:
  assumes "\<And>m. m \<in> set ms \<Longrightarrow> me_Priced m \<and> \<not> me_ProviderBilledCustomer m \<Longrightarrow> 0 \<le> mo_Amount (me_Cost m)"
    and "\<And>x n. map_of tot x = Some n \<Longrightarrow> 0 \<le> n"
    and "\<And>x. (case map_of tot x of Some n \<Rightarrow> n | None \<Rightarrow> 0) + sum_list (map (counted x) ms) \<le> max_int64"
  shows "map_of (fold add_total ms tot) cur =
    (if (\<exists>m \<in> set ms. me_Priced m \<and> \<not> me_ProviderBilledCustomer m \<and> mo_Currency (me_Cost m) = cur)
     then Some ((case map_of tot cur of Some n \<Rightarrow> n | None \<Rightarrow> 0) + sum_list (map (counted cur) ms)) else map_of tot cur)"
  using assms
proof (induction ms arbitrary: tot)
  case (Cons m ms)
  let ?x = "mo_Currency (me_Cost m)"
  let ?old = "\<lambda>x. case map_of tot x of Some n \<Rightarrow> n | None \<Rightarrow> 0"
  have pos: "0 \<le> sum_list (map (counted x) ms)" for x
    using Cons.prems(1) by (auto simp: counted_def intro!: sum_list_nonneg)
  show ?case
  proof (cases "me_Priced m \<and> \<not> me_ProviderBilledCustomer m")
    case False
    then have "add_total m tot = tot" "\<And>x. counted x m = 0" by (auto simp: add_total_def counted_def)
    with Cons.IH [of tot] Cons.prems False show ?thesis by auto
  next
    case True
    have n: "0 \<le> mo_Amount (me_Cost m)" using Cons.prems(1) [of m] True by simp
    have c: "counted x m = (if x = ?x then mo_Amount (me_Cost m) else 0)" for x
      using True by (simp add: counted_def)
    have o: "0 \<le> ?old ?x" using Cons.prems(2) [of ?x] by (auto split: option.splits)
    have b: "?old x + (counted x m + sum_list (map (counted x) ms)) \<le> max_int64" for x
      using Cons.prems(3) [of x] by simp
    have "?old ?x + mo_Amount (me_Cost m) \<le> max_int64" using b [of ?x] pos [of ?x] by (simp add: c)
    then have up: "map_of (add_total m tot) = (map_of tot)(?x \<mapsto> ?old ?x + mo_Amount (me_Cost m))"
      using True n o by (simp add: add_total_def update_conv' int64_id Let_def)
    have old: "(case map_of (add_total m tot) x of Some n \<Rightarrow> n | None \<Rightarrow> 0) = ?old x + counted x m" for x
      by (simp add: up c)
    have "map_of (fold add_total ms (add_total m tot)) cur =
      (if (\<exists>m \<in> set ms. me_Priced m \<and> \<not> me_ProviderBilledCustomer m \<and> mo_Currency (me_Cost m) = cur)
       then Some ((case map_of (add_total m tot) cur of Some n \<Rightarrow> n | None \<Rightarrow> 0) + sum_list (map (counted cur) ms))
       else map_of (add_total m tot) cur)"
    proof (rule Cons.IH)
      show "0 \<le> k" if "map_of (add_total m tot) x = Some k" for x k
        using that Cons.prems(2) [of x] n o by (auto simp: up split: if_splits)
      show "(case map_of (add_total m tot) x of Some n \<Rightarrow> n | None \<Rightarrow> 0) + sum_list (map (counted x) ms) \<le> max_int64" for x
        using b [of x] by (simp only: old add.assoc)
    qed (use Cons.prems(1) in simp)
    then show ?thesis using True counted_none [of ms cur] by (simp add: old add.assoc) (auto simp: up c)
  qed
qed simp

lemma attempt_cost_nonneg:
  assumes "nonneg_rates t" and "\<forall>q \<in> set (au_Units a). 0 \<le> uq_Quantity q"
    and "\<forall>m. au_ProviderReportedCost a = Some m \<longrightarrow> 0 \<le> mo_Amount m" and "attempt_cost (Some t) now a = Some (cur, n)"
  shows "0 \<le> n"
proof -
  have "0 \<le> unit_cost k q" if "attempt_card (Some t) now a = Some k" "q \<in> set (au_Units a)" for k q
    using rate_for_nonneg [OF assms(1)] assms(2) that by (auto simp: unit_cost_def attempt_card_def split: option.splits)
  with assms(3,4) show ?thesis
    by (auto simp: attempt_cost_def intro!: sum_list_nonneg split: if_splits option.splits)
qed

lemma totals_lookup:
  assumes nn: "nonneg_rates t"
    and q: "\<forall>a \<in> set attempts. \<forall>q \<in> set (au_Units a). 0 \<le> uq_Quantity q"
    and r: "\<forall>a \<in> set attempts. \<forall>m. au_ProviderReportedCost a = Some m \<longrightarrow> 0 \<le> mo_Amount m"
    and b: "\<forall>cur. sum_list (map (spent_in cur (Some t) now) attempts) \<le> max_int64"
  shows "map_of (fold add_total (map (measure_attempt (Some t) now) attempts) []) cur =
    (if (\<exists>a \<in> set attempts. \<exists>n. attempt_cost (Some t) now a = Some (cur, n))
     then Some (sum_list (map (spent_in cur (Some t) now) attempts)) else None)"
proof -
  let ?c = "Some t" and ?M = "measure_attempt (Some t) now"
  have pos: "0 \<le> n" if "a \<in> set attempts" "attempt_cost ?c now a = Some (cur, n)" for a cur n
    using attempt_cost_nonneg [OF nn _ _ that(2)] q r that(1) by blast
  have bound: "n \<le> max_int64" if "a \<in> set attempts" "attempt_cost ?c now a = Some (cur, n)" for a cur n
  proof -
    have "spent_in cur ?c now a \<le> sum_list (map (spent_in cur ?c now) attempts)"
      using that(1) pos by (intro member_le_sum_list) (auto simp: spent_in_def split: option.splits)
    then have "spent_in cur ?c now a \<le> max_int64" using b order_trans by blast
    with that(2) show ?thesis by (simp add: spent_in_def)
  qed
  have each: "(me_Priced (?M a) \<and> \<not> me_ProviderBilledCustomer (?M a) \<longleftrightarrow> attempt_cost ?c now a \<noteq> None) \<and>
      (\<forall>cur n. attempt_cost ?c now a = Some (cur, n) \<longrightarrow> me_Cost (?M a) = \<lparr>mo_Currency = cur, mo_Amount = n\<rparr>)"
    if "a \<in> set attempts" for a
    by (rule measure_attempt_cost [OF refl nn]) (use q that bound in auto)
  have counted: "counted cur (?M a) = spent_in cur ?c now a" if "a \<in> set attempts" for a cur
    using each [OF that] by (cases "attempt_cost ?c now a") (auto simp: counted_def spent_in_def)
  have sums: "sum_list (map (counted cur) (map ?M attempts)) = sum_list (map (spent_in cur ?c now) attempts)" for cur
    by (simp add: counted cong: map_cong)
  have ex: "(\<exists>m \<in> set (map ?M attempts). me_Priced m \<and> \<not> me_ProviderBilledCustomer m \<and> mo_Currency (me_Cost m) = cur) \<longleftrightarrow>
      (\<exists>a \<in> set attempts. \<exists>n. attempt_cost ?c now a = Some (cur, n))"
    using each by fastforce
  have "map_of (fold add_total (map ?M attempts) []) cur =
    (if (\<exists>m \<in> set (map ?M attempts). me_Priced m \<and> \<not> me_ProviderBilledCustomer m \<and> mo_Currency (me_Cost m) = cur)
     then Some ((case map_of [] cur of Some n \<Rightarrow> n | None \<Rightarrow> 0) + sum_list (map (counted cur) (map ?M attempts)))
     else map_of [] cur)"
  proof (rule fold_add_total)
    show "0 \<le> mo_Amount (me_Cost m)"
      if "m \<in> set (map ?M attempts)" "me_Priced m \<and> \<not> me_ProviderBilledCustomer m" for m
      using that each pos by fastforce
  qed (use b in \<open>simp_all add: sums del: map_map\<close>)
  then show ?thesis unfolding ex by (simp add: sums del: map_map)
qed

lemma add_total_keys: "distinct (map fst tot) \<Longrightarrow> distinct (map fst (fold add_total ms tot))"
  by (induction ms arbitrary: tot) (auto simp: add_total_def Let_def distinct_update)

lemma map_of_sort_key: "distinct (map fst al) \<Longrightarrow> map_of (sort_key fst al) = map_of al"
  by (rule map_of_inject_set [THEN iffD2]) (simp_all add: distinct_map inj_on_def)

section \<open>A concrete table\<close>

definition demo_file :: card_file where
  "demo_file = \<lparr>cf_SchemaVersion = 1, cf_VersionID = ''v1'', cf_Source = RateCardOperator, cf_SourceVersion = ''s1'',
     cf_ObservedAt = 1, cf_EffectiveAt = 2, cf_ExpiresAt = None,
     cf_RateCards = [\<lparr>cd_DeploymentID = ''d'', cd_Currency = ''USD'',
       cd_Rates = [\<lparr>ra_Unit = UnitInputTokens, ra_AmountPerUnit = 2500000\<rparr>,
                   \<lparr>ra_Unit = UnitOutputTokens, ra_AmountPerUnit = 0\<rparr>], cd_RequestInputTokens = 0\<rparr>]\<rparr>"

definition demo_cards :: cards where
  "demo_cards = (case cards_Parse demo_file of Inr t \<Rightarrow> t | Inl _ \<Rightarrow> no_cards)"

definition demo_attempt :: "deployment_id \<Rightarrow> usage_quantity list \<Rightarrow> attempt_usage" where
  "demo_attempt d us =
     \<lparr>au_AttemptIndex = 0, au_DeploymentID = d, au_Provider = ''p'', au_ModelReference = ''a/m@1'', au_OccurredAt = 5,
      au_ProviderBilledCustomer = False, au_KeyID = ''k'', au_KeyClass = KeyClassPaid, au_ProviderReportedCost = None,
      au_Served = True, au_Units = us,
      au_Telemetry = \<lparr>te_StartedAt = 5, te_Latency = 1, te_TimeToFirstOutput = 0, te_Outcome = AttemptSucceeded,
        te_FailureCode = None\<rparr>\<rparr>"

section \<open>Properties\<close>

text \<open>
  An unknown cost is never taken for a zero cost. A request's record claims to be complete
  precisely when something was attempted and every attempt is accounted for: billed to the
  customer, stated by the provider, or priced unit by unit by a rate card in force when it ran.
\<close>

theorem MeasureRequest_complete_iff:
  "cr_Complete (MeasureRequest c now requestID attempts) \<longleftrightarrow> attempts \<noteq> [] \<and> list_all (accounted c now) attempts"
  by (auto simp: MeasureRequest_def Let_def list_all_iff Complete_attempt)

text \<open>
  C32: A request's totals are exact. With a table that was parsed, non-negative quantities and
  provider amounts, and no currency's sum above the 64-bit range, the totals hold one amount per
  currency in which a platform attempt was priced, in currency order, and it is the sum of those
  attempts in unbounded arithmetic; attempts billed to a customer contribute nothing.
\<close>

theorem MeasureRequest_totals_exact:
  assumes "cards_Parse f = Inr t"
    and "\<forall>a \<in> set attempts. \<forall>q \<in> set (au_Units a). 0 \<le> uq_Quantity q"
    and "\<forall>a \<in> set attempts. \<forall>m. au_ProviderReportedCost a = Some m \<longrightarrow> 0 \<le> mo_Amount m"
    and "\<forall>cur. sum_list (map (spent_in cur (Some t) now) attempts) \<le> max_int64"
  shows "sorted (map mo_Currency (cr_Totals (MeasureRequest (Some t) now requestID attempts))) \<and>
    distinct (map mo_Currency (cr_Totals (MeasureRequest (Some t) now requestID attempts))) \<and>
    (m \<in> set (cr_Totals (MeasureRequest (Some t) now requestID attempts)) \<longleftrightarrow>
       (\<exists>a \<in> set attempts. \<exists>n. attempt_cost (Some t) now a = Some (mo_Currency m, n)) \<and>
       mo_Amount m = sum_list (map (spent_in (mo_Currency m) (Some t) now) attempts))"
proof -
  let ?c = "Some t"
  let ?tot = "fold add_total (map (measure_attempt (Some t) now) attempts) []"
  note look = totals_lookup [OF cards_Parse_nonneg [OF assms(1)] assms(2-4)]
  have d: "distinct (map fst ?tot)" using add_total_keys [of "[]"] by simp
  then have ds: "distinct (map fst (sort_key fst ?tot))" by (simp add: distinct_map)
  have cur: "map mo_Currency (cr_Totals (MeasureRequest ?c now requestID attempts)) = map fst (sort_key fst ?tot)"
    by (simp add: MeasureRequest_def Let_def case_prod_beta comp_def)
  have "m \<in> set (cr_Totals (MeasureRequest ?c now requestID attempts)) \<longleftrightarrow> (mo_Currency m, mo_Amount m) \<in> set (sort_key fst ?tot)"
    by (force simp: MeasureRequest_def Let_def image_iff)
  also have "\<dots> \<longleftrightarrow> map_of ?tot (mo_Currency m) = Some (mo_Amount m)"
    using d ds map_of_eq_Some_iff [OF d] by simp
  finally show ?thesis using ds cur look by (auto split: if_splits)
qed

theorem MeasureRequest_totals_exact_witness:
  "\<lparr>mo_Currency = ''USD'', mo_Amount = 25000000\<rparr> \<in> set (cr_Totals (MeasureRequest (Some demo_cards) 9 ''r''
     [demo_attempt ''d'' [\<lparr>uq_Unit = UnitInputTokens, uq_Quantity = 10\<rparr>], demo_attempt ''unpriced'' []]))"
proof -
  let ?a = "demo_attempt ''d'' [\<lparr>uq_Unit = UnitInputTokens, uq_Quantity = 10\<rparr>]" and ?b = "demo_attempt ''unpriced'' []"
  have p: "cards_Parse demo_file = Inr demo_cards" by code_simp
  have a: "attempt_cost (Some demo_cards) 9 ?a = Some (''USD'', 25000000)" by code_simp
  have b: "attempt_cost (Some demo_cards) 9 ?b = None" by code_simp
  show ?thesis
    using MeasureRequest_totals_exact [OF p, of "[?a, ?b]" 9 "''r''" "\<lparr>mo_Currency = ''USD'', mo_Amount = 25000000\<rparr>"] a b
    by (simp add: spent_in_def) (simp add: demo_attempt_def)
qed

end
