(* ===== verification/Go_Time.thy ===== *)
theory Go_Time
  imports Go_Numbers
begin

text \<open>
  \<open>time.Parse (time.RFC3339Nano, s)\<close>, which \<open>contract.Timestamp.Time\<close> is, as the instant it denotes.
  The hour may have a single digit, a comma may stand for the point, digits after the ninth of
  a fraction are dropped and a zone may be up to 24:60, as Go's parser has it.
\<close>

definition leap_year :: "int \<Rightarrow> bool" where
  "leap_year y \<longleftrightarrow> y mod 4 = 0 \<and> (y mod 100 \<noteq> 0 \<or> y mod 400 = 0)"

definition days_in :: "int \<Rightarrow> int \<Rightarrow> int" where
  "days_in y m =
     (if m = 2 then (if leap_year y then 29 else 28)
      else if m = 4 \<or> m = 6 \<or> m = 9 \<or> m = 11 then 30 else 31)"

text \<open>Days from the first of January of the year 1.\<close>

definition days_before :: "int \<Rightarrow> int \<Rightarrow> int" where
  "days_before y m =
     365 * (y - 1) + (y - 1) div 4 - (y - 1) div 100 + (y - 1) div 400 + sum_list (map (\<lambda>k. days_in y k) [1..m - 1])"

definition literal :: "char \<Rightarrow> string \<Rightarrow> string option" where
  "literal c s = (case s of d # r \<Rightarrow> if d = c then Some r else None | [] \<Rightarrow> None)"

text \<open>\<open>getnum\<close>: two digits, or one when the field is not fixed and no second digit follows.\<close>

definition getnum :: "bool \<Rightarrow> string \<Rightarrow> (int \<times> string) option" where
  "getnum fixed s =
     (case s of
        [] \<Rightarrow> None
      | c # r \<Rightarrow>
          if \<not> is_digit c then None
          else (case r of
                  d # r' \<Rightarrow>
                    if is_digit d then Some (int (digit_value c) * 10 + int (digit_value d), r')
                    else if fixed then None else Some (int (digit_value c), r)
                | [] \<Rightarrow> if fixed then None else Some (int (digit_value c), r)))"

definition get_year :: "string \<Rightarrow> (int \<times> string) option" where
  "get_year s =
     (let y = take 4 s in if length y = 4 \<and> all_digits y then Some (value_of_digits y, drop 4 s) else None)"

definition get_fraction :: "string \<Rightarrow> int \<times> string" where
  "get_fraction s =
     (case s of
        c # d # _ \<Rightarrow>
          if (c = CHR ''.'' \<or> c = CHR '','') \<and> is_digit d
          then let ds = takeWhile is_digit (tl s); used = take 9 ds
               in (value_of_digits used * 10 ^ (9 - length used), drop (length ds) (tl s))
          else (0, s)
      | _ \<Rightarrow> (0, s))"

definition get_zone :: "string \<Rightarrow> (int \<times> string) option" where
  "get_zone s =
     (if has_prefix s ''Z'' then Some (0, drop 1 s)
      else case s of
             sign # h1 # h2 # colon # m1 # m2 # r \<Rightarrow>
               if colon \<noteq> CHR '':'' then None
               else (case (getnum True [h1, h2], getnum True [m1, m2]) of
                       (Some (hr, _), Some (mm, _)) \<Rightarrow>
                         if hr > 24 \<or> mm > 60 then None
                         else if sign = CHR ''+'' then Some ((hr * 60 + mm) * 60, r)
                         else if sign = CHR ''-'' then Some (- ((hr * 60 + mm) * 60), r) else None
                     | _ \<Rightarrow> None)
           | _ \<Rightarrow> None)"

definition bounded :: "int \<Rightarrow> int \<Rightarrow> (int \<times> string) option \<Rightarrow> (int \<times> string) option" where
  "bounded lo hi r = (case r of Some (n, s) \<Rightarrow> if lo \<le> n \<and> n \<le> hi then Some (n, s) else None | None \<Rightarrow> None)"

definition timestamp_Time :: "string \<Rightarrow> instant option" where
  "timestamp_Time s =
     Option.bind (get_year s) (\<lambda>(year, s).
     Option.bind (literal (CHR ''-'') s) (\<lambda>s.
     Option.bind (bounded 1 12 (getnum True s)) (\<lambda>(month, s).
     Option.bind (literal (CHR ''-'') s) (\<lambda>s.
     Option.bind (getnum True s) (\<lambda>(day, s).
     Option.bind (literal (CHR ''T'') s) (\<lambda>s.
     Option.bind (bounded 0 23 (getnum False s)) (\<lambda>(hr, s).
     Option.bind (literal (CHR '':'') s) (\<lambda>s.
     Option.bind (bounded 0 59 (getnum True s)) (\<lambda>(mm, s).
     Option.bind (literal (CHR '':'') s) (\<lambda>s.
     Option.bind (bounded 0 59 (getnum True s)) (\<lambda>(sec, s).
     case get_fraction s of (nanos, s) \<Rightarrow>
     Option.bind (get_zone s) (\<lambda>(offset, s).
       if s \<noteq> [] \<or> day < 1 \<or> day > days_in year month then None
       else Some ((((days_before year month + day - 1) * 24 + hr) * 60 + mm) * 60 * 1000000000
                  + (sec - offset) * 1000000000 + nanos)))))))))))))"

end
