(* ===== verification/Inventory.thy ===== *)
theory Inventory
  imports Inventory_Realtime Parameters Provider_Cost Go_Time
begin

text \<open>
  The deployment inventory (\<open>internal/inventory/inventory.go\<close> and \<open>store.go\<close>): the declared rows, their
  validation into route sets, the resolution of a model reference, the catalogue projections,
  and the store that keeps the last good snapshot. A snapshot file is its decoded value, or the
  fact that it did not decode. The Go maps of an inventory are association lists without repeated
  keys; what the code collects through a map is sorted before it is returned.
\<close>

section \<open>Rows\<close>

record observed =
  obs_DisplayName :: "string option"
  obs_CreatedAt :: "string option"
  obs_ContextTokens :: "int option"
  obs_MaxOutputTokens :: "int option"
  obs_InputModalities :: "string list option"
  obs_OutputModalities :: "string list option"
  obs_SupportsTools :: "bool option"
  obs_ReasoningEfforts :: "reasoning_effort list option"
  obs_AcceptedParameters :: "request_parameter list option"
  obs_ListPrice :: "list_price option"
  obs_Realtime :: "realtime_observation option"
  obs_Audio :: "audio_observation option"

record deployment =
  de_DeploymentID :: deployment_id
  de_Provider :: provider_slug
  de_ModelReference :: model_reference
  de_UpstreamModelID :: string
  de_Regions :: "region list"
  de_Current :: bool
  de_Observed :: "observed option"

definition MaxDisplayNameLength :: nat where "MaxDisplayNameLength = 200"

definition DefaultMaxSnapshotAge :: duration where "DefaultMaxSnapshotAge = hour"

datatype observed_error =
    BadDisplayName | ControlInDisplayName | BadCreatedAt | BadContextTokens | BadMaxOutput
  | EmptyModalities string | UnsortedModalities string | BadModality string nat | ModalityTwice string string
  | BadEffort nat | EffortTwice reasoning_effort | BadAcceptedParameters parameter_set_error | BadListPrice
  | BadRealtime observation_fault | BadAudio observation_fault

definition ValidModality :: "string \<Rightarrow> bool" where
  "ValidModality m \<longleftrightarrow> length m \<noteq> 0 \<and> length m \<le> 32 \<and>
     list_all (\<lambda>c. is_lower c \<or> c = CHR ''_'' \<or> c = CHR ''-'' \<or> is_digit c) m"

fun check_modalities :: "string \<Rightarrow> nat \<Rightarrow> string option \<Rightarrow> string list \<Rightarrow> observed_error option" where
  "check_modalities name index previous [] = None"
| "check_modalities name index previous (m # ms) =
     (if \<not> ValidModality m then Some (BadModality name index)
      else if previous = Some m then Some (ModalityTwice name m)
      else check_modalities name (Suc index) (Some m) ms)"

definition modalities_error :: "string \<Rightarrow> string list option \<Rightarrow> observed_error option" where
  "modalities_error name ms =
     (case ms of
        None \<Rightarrow> None
      | Some l \<Rightarrow> if l = [] then Some (EmptyModalities name)
                  else if \<not> sorted l then Some (UnsortedModalities name)
                  else check_modalities name 0 None l)"

fun check_efforts :: "nat \<Rightarrow> reasoning_effort list \<Rightarrow> reasoning_effort list \<Rightarrow> observed_error option" where
  "check_efforts index earlier [] = None"
| "check_efforts index earlier (e # es) =
     (if \<not> is_member e reasoningEffortValues then Some (BadEffort index)
      else if is_member e earlier then Some (EffortTwice e)
      else check_efforts (Suc index) (earlier @ [e]) es)"

definition display_name_error :: "string \<Rightarrow> observed_error option" where
  "display_name_error name =
     (if name = '''' \<or> trim_space name \<noteq> name \<or> rune_count name > MaxDisplayNameLength \<or> \<not> valid_utf8 name
      then Some BadDisplayName
      else if has_control name then Some ControlInDisplayName else None)"

definition observed_Validate :: "observed \<Rightarrow> observed_error option" where
  "observed_Validate ob = first_error
     [(case obs_DisplayName ob of None \<Rightarrow> None | Some name \<Rightarrow> display_name_error name),
      (case obs_CreatedAt ob of None \<Rightarrow> None | Some s \<Rightarrow> refuse (timestamp_Time s = None) BadCreatedAt),
      (case obs_ContextTokens ob of None \<Rightarrow> None | Some n \<Rightarrow> refuse (n \<le> 0) BadContextTokens),
      (case obs_MaxOutputTokens ob of None \<Rightarrow> None | Some n \<Rightarrow> refuse (n \<le> 0) BadMaxOutput),
      modalities_error ''inputModalities'' (obs_InputModalities ob),
      modalities_error ''outputModalities'' (obs_OutputModalities ob),
      (case obs_ReasoningEfforts ob of None \<Rightarrow> None | Some es \<Rightarrow> check_efforts 0 [] es),
      (case obs_AcceptedParameters ob of None \<Rightarrow> None | Some ps \<Rightarrow> map_option BadAcceptedParameters (ValidateParameterSet ps)),
      (case obs_ListPrice ob of None \<Rightarrow> None | Some p \<Rightarrow> refuse (\<not> list_price_ok p) BadListPrice),
      (case obs_Realtime ob of None \<Rightarrow> None | Some r \<Rightarrow> map_option BadRealtime (realtime_Validate r)),
      (case obs_Audio ob of None \<Rightarrow> None | Some a \<Rightarrow> map_option BadAudio (audio_Validate a))]"

section \<open>Route sets\<close>

record endpoint =
  ep_DeploymentID :: deployment_id
  ep_Provider :: provider_slug
  ep_UpstreamModelID :: string
  ep_Regions :: "region list"
  ep_Observed :: "observed option"

record route_set =
  rs_reference :: model_reference
  rs_endpoints :: "endpoint list"

definition acceptedParametersOf :: "observed option \<Rightarrow> request_parameter list option" where
  "acceptedParametersOf ob = Option.bind ob obs_AcceptedParameters"

definition candidate :: "model_reference \<Rightarrow> endpoint \<Rightarrow> route" where
  "candidate reference e =
     \<lparr>ro_DeploymentID = ep_DeploymentID e, ro_Provider = ep_Provider e, ro_ModelReference = reference,
      ro_UpstreamModelID = ep_UpstreamModelID e, ro_Regions = ep_Regions e,
      ro_AcceptedParameters = acceptedParametersOf (ep_Observed e),
      ro_DecisionPriceLimit = None, ro_CustomerProviderCredential = None\<rparr>"

definition Candidates :: "route_set \<Rightarrow> route list" where
  "Candidates s = map (candidate (rs_reference s)) (rs_endpoints s)"

record inventory =
  iv_snapshotID :: string
  iv_issuedAt :: instant
  iv_maxAge :: duration
  iv_byReference :: "(model_reference \<times> route_set) list"
  iv_currentOf :: "(model_id \<times> route_set) list"

definition inventory_Age :: "inventory \<Rightarrow> instant \<Rightarrow> duration" where
  "inventory_Age i t = time_sub t (iv_issuedAt i)"

definition ServesUnpinned :: "inventory \<Rightarrow> instant \<Rightarrow> bool" where
  "ServesUnpinned i t \<longleftrightarrow> inventory_Age i t \<le> iv_maxAge i"

section \<open>Parsing\<close>

record inventory_file =
  if_SnapshotID :: string
  if_IssuedAt :: string
  if_Deployments :: "deployment list"

datatype inventory_error =
    BadHorizon | BadJSON | NoDeployments | NoSnapshotID | NoIssuedAt | BadIssuedAt
  | BadDeploymentID | BadProvider deployment_id | BadReference deployment_id | UnpinnedDeployment deployment_id
  | NoUpstreamModel deployment_id | BadObserved deployment_id observed_error | BadRegion deployment_id nat
  | RegionTwice deployment_id region | DeploymentTwice deployment_id
  | TwoCurrent model_reference model_reference model_id

fun check_regions :: "deployment_id \<Rightarrow> nat \<Rightarrow> region list \<Rightarrow> region list \<Rightarrow> inventory_error option" where
  "check_regions d index seen [] = None"
| "check_regions d index seen (r # rs) =
     (if \<not> region_Valid r then Some (BadRegion d index)
      else if is_member r seen then Some (RegionTwice d r)
      else check_regions d (Suc index) (r # seen) rs)"

definition check_deployment :: "deployment \<Rightarrow> inventory_error option" where
  "check_deployment d =
     (if length (de_DeploymentID d) = 0 \<or> length (de_DeploymentID d) > 128 then Some BadDeploymentID
      else if \<not> slug_Valid (de_Provider d) then Some (BadProvider (de_DeploymentID d))
      else if \<not> reference_Valid (de_ModelReference d) then Some (BadReference (de_DeploymentID d))
      else if \<not> Pinned (de_ModelReference d) then Some (UnpinnedDeployment (de_DeploymentID d))
      else if de_UpstreamModelID d = '''' then Some (NoUpstreamModel (de_DeploymentID d))
      else case Option.bind (de_Observed d) observed_Validate of
             Some e \<Rightarrow> Some (BadObserved (de_DeploymentID d) e)
           | None \<Rightarrow> check_regions (de_DeploymentID d) 0 [] (de_Regions d))"

definition endpoint_of :: "deployment \<Rightarrow> endpoint" where
  "endpoint_of d =
     \<lparr>ep_DeploymentID = de_DeploymentID d, ep_Provider = de_Provider d, ep_UpstreamModelID = de_UpstreamModelID d,
      ep_Regions = de_Regions d, ep_Observed = de_Observed d\<rparr>"

definition add_endpoint :: "deployment \<Rightarrow> (model_reference \<times> route_set) list \<Rightarrow> (model_reference \<times> route_set) list" where
  "add_endpoint d m =
     (let old = (case map_of m (de_ModelReference d) of Some s \<Rightarrow> rs_endpoints s | None \<Rightarrow> [])
      in AList.update (de_ModelReference d)
           \<lparr>rs_reference = de_ModelReference d, rs_endpoints = old @ [endpoint_of d]\<rparr> m)"

fun parse_deployments ::
  "deployment list \<Rightarrow> deployment_id list \<Rightarrow> (model_reference \<times> route_set) list \<Rightarrow> (model_id \<times> model_reference) list \<Rightarrow>
   inventory_error + (model_reference \<times> route_set) list \<times> (model_id \<times> model_reference) list" where
  "parse_deployments [] seen m cur = Inr (m, cur)"
| "parse_deployments (d # ds) seen m cur =
     (case check_deployment d of
        Some e \<Rightarrow> Inl e
      | None \<Rightarrow>
          if is_member (de_DeploymentID d) seen then Inl (DeploymentTwice (de_DeploymentID d))
          else let m' = add_endpoint d m; line = ModelID (de_ModelReference d)
               in if \<not> de_Current d then parse_deployments ds (de_DeploymentID d # seen) m' cur
                  else (case map_of cur line of
                          Some existing \<Rightarrow>
                            if existing \<noteq> de_ModelReference d
                            then Inl (TwoCurrent existing (de_ModelReference d) line)
                            else parse_deployments ds (de_DeploymentID d # seen) m' (AList.update line (de_ModelReference d) cur)
                        | None \<Rightarrow> parse_deployments ds (de_DeploymentID d # seen) m' (AList.update line (de_ModelReference d) cur)))"

text \<open>Indexing a map with a reference it does not hold gives the empty route set.\<close>

definition set_of :: "(model_reference \<times> route_set) list \<Rightarrow> model_reference \<Rightarrow> route_set" where
  "set_of m r = (case map_of m r of Some s \<Rightarrow> s | None \<Rightarrow> \<lparr>rs_reference = '''', rs_endpoints = []\<rparr>)"

definition inventory_Parse :: "inventory_file option \<Rightarrow> duration \<Rightarrow> inventory_error + inventory" where
  "inventory_Parse raw maxAge =
     (if maxAge \<le> 0 then Inl BadHorizon
      else case raw of
             None \<Rightarrow> Inl BadJSON
           | Some f \<Rightarrow>
               if if_Deployments f = [] then Inl NoDeployments
               else if if_SnapshotID f = '''' then Inl NoSnapshotID
               else if if_IssuedAt f = '''' then Inl NoIssuedAt
               else (case timestamp_Time (if_IssuedAt f) of
                       None \<Rightarrow> Inl BadIssuedAt
                     | Some issued \<Rightarrow>
                         (case parse_deployments (if_Deployments f) [] [] [] of
                            Inl e \<Rightarrow> Inl e
                          | Inr (m, cur) \<Rightarrow>
                              Inr \<lparr>iv_snapshotID = if_SnapshotID f, iv_issuedAt = issued, iv_maxAge = maxAge,
                                   iv_byReference = m,
                                   iv_currentOf = map (\<lambda>(line, r). (line, set_of m r)) cur\<rparr>)))"

section \<open>Resolution\<close>

datatype resolve_error =
    ErrNoRoute model_reference
  | ErrSnapshotTooStale model_reference string duration duration

definition Resolve :: "inventory \<Rightarrow> model_reference \<Rightarrow> instant \<Rightarrow> resolve_error + route_set" where
  "Resolve i reference t =
     (case map_of (iv_byReference i) reference of
        Some s \<Rightarrow> Inr s
      | None \<Rightarrow>
          if Pinned reference then Inl (ErrNoRoute reference)
          else if \<not> ServesUnpinned i t
          then Inl (ErrSnapshotTooStale reference (iv_snapshotID i) (inventory_Age i t) (iv_maxAge i))
          else case map_of (iv_currentOf i) (ModelID reference) of
                 None \<Rightarrow> Inl (ErrNoRoute reference)
               | Some s \<Rightarrow> Inr s)"

section \<open>Projections\<close>

definition inventory_Deployments :: "inventory \<Rightarrow> endpoint list" where
  "inventory_Deployments i =
     sort_key ep_DeploymentID (map snd
       (fold (\<lambda>(_, s) seen. fold (\<lambda>e seen. AList.update (ep_DeploymentID e) e seen) (rs_endpoints s) seen)
         (iv_byReference i) []))"

datatype lookup_error = AmbiguousDeployment | AbsentDeployment

definition inventory_Deployment :: "inventory \<Rightarrow> deployment_id \<Rightarrow> lookup_error + route" where
  "inventory_Deployment i d =
     (case filter (\<lambda>r. ro_DeploymentID r = d) (concat (map (\<lambda>(_, s). Candidates s) (iv_byReference i))) of
        [] \<Rightarrow> Inl AbsentDeployment
      | [r] \<Rightarrow> Inr r
      | _ \<Rightarrow> Inl AmbiguousDeployment)"

text \<open>A descriptor as the inventory fills it in: the commercial basis is added where it is served.\<close>

record deployment_descriptor =
  dd_DeploymentID :: deployment_id
  dd_ModelReference :: model_reference
  dd_Provider :: provider_slug
  dd_Regions :: "region list"
  dd_AcceptedParameters :: "request_parameter list option"

definition DeploymentDescriptors :: "inventory \<Rightarrow> deployment_descriptor list" where
  "DeploymentDescriptors i =
     sort_key dd_DeploymentID (concat (map (\<lambda>(_, s). map (\<lambda>e.
       \<lparr>dd_DeploymentID = ep_DeploymentID e, dd_ModelReference = rs_reference s, dd_Provider = ep_Provider e,
        dd_Regions = ep_Regions e, dd_AcceptedParameters = acceptedParametersOf (ep_Observed e)\<rparr>) (rs_endpoints s))
       (iv_byReference i)))"

definition PinnedOnlyReferences :: "inventory \<Rightarrow> model_reference list" where
  "PinnedOnlyReferences i =
     sort (map fst (filter (\<lambda>(r, s). rs_endpoints s \<noteq> [] \<and> \<not> is_member r (map (\<lambda>(_, c). rs_reference c) (iv_currentOf i)))
       (iv_byReference i)))"

definition inventory_Providers :: "inventory \<Rightarrow> provider_slug list" where
  "inventory_Providers i = sort (remdups (map ep_Provider (inventory_Deployments i)))"

section \<open>The catalogue\<close>

record list_price_observation =
  lo_DeploymentID :: deployment_id
  lo_Provider :: provider_slug
  lo_ListPrice :: list_price

record catalogue_entry =
  ca_Model :: model_id
  ca_Reference :: model_reference
  ca_Providers :: "provider_slug list"
  ca_DisplayName :: "string option"
  ca_CreatedAt :: "timestamp option"
  ca_ContextTokens :: "int option"
  ca_MaxOutputTokens :: "int option"
  ca_InputModalities :: "string list option"
  ca_OutputModalities :: "string list option"
  ca_SupportsTools :: "bool option"
  ca_ReasoningEfforts :: "reasoning_effort list option"
  ca_AcceptedParameters :: "request_parameter list option"
  ca_ListPrices :: "list_price_observation list"
  ca_Realtime :: "realtime_observation option"
  ca_Audio :: "audio_observation option"

text \<open>The local variables of \<open>aggregateObservations\<close>; a set of strings is a list.\<close>

record aggregation =
  ag_createdAt :: instant
  ag_inputs :: "string list option"
  ag_outputs :: "string list option"
  ag_efforts :: "reasoning_effort list option"
  ag_parameters :: "request_parameter list option"

definition minimum :: "int option \<Rightarrow> int option \<Rightarrow> int option" where
  "minimum current reported =
     (case (reported, current) of
        (None, _) \<Rightarrow> current
      | (Some r, None) \<Rightarrow> Some r
      | (Some r, Some c) \<Rightarrow> if r < c then Some r else current)"

definition intersect :: "'a list option \<Rightarrow> 'a list option \<Rightarrow> 'a list option" where
  "intersect known reported =
     (case reported of
        None \<Rightarrow> known
      | Some vs \<Rightarrow> Some (filter (\<lambda>v. case known of None \<Rightarrow> True | Some s \<Rightarrow> is_member v s) vs))"

definition sortedKeys :: "string list option \<Rightarrow> string list option" where
  "sortedKeys s = map_option (\<lambda>vs. sort (remdups vs)) s"

definition aggregate_one :: "endpoint \<Rightarrow> catalogue_entry \<times> aggregation \<Rightarrow> catalogue_entry \<times> aggregation" where
  "aggregate_one e = (\<lambda>(entry, ag).
     case ep_Observed e of
       None \<Rightarrow> (entry, ag)
     | Some ob \<Rightarrow>
         let created = (case Option.bind (obs_CreatedAt ob) timestamp_Time of
                          None \<Rightarrow> None
                        | Some t \<Rightarrow> if ca_CreatedAt entry = None \<or> t < ag_createdAt ag then Some t else None)
         in (entry\<lparr>
               ca_DisplayName := (case ca_DisplayName entry of Some n \<Rightarrow> Some n | None \<Rightarrow> obs_DisplayName ob),
               ca_CreatedAt := (case created of None \<Rightarrow> ca_CreatedAt entry | Some t \<Rightarrow> Some (NewTimestamp t)),
               ca_ContextTokens := minimum (ca_ContextTokens entry) (obs_ContextTokens ob),
               ca_MaxOutputTokens := minimum (ca_MaxOutputTokens entry) (obs_MaxOutputTokens ob),
               ca_SupportsTools :=
                 (case obs_SupportsTools ob of
                    None \<Rightarrow> ca_SupportsTools entry
                  | Some b \<Rightarrow> Some (b \<and> (case ca_SupportsTools entry of None \<Rightarrow> True | Some c \<Rightarrow> c))),
               ca_ListPrices := ca_ListPrices entry @
                 (case obs_ListPrice ob of
                    None \<Rightarrow> []
                  | Some p \<Rightarrow> [\<lparr>lo_DeploymentID = ep_DeploymentID e, lo_Provider = ep_Provider e, lo_ListPrice = p\<rparr>]),
               ca_Realtime := aggregateRealtime (ca_Realtime entry) (obs_Realtime ob),
               ca_Audio := aggregateAudio (ca_Audio entry) (obs_Audio ob)\<rparr>,
             \<lparr>ag_createdAt = (case created of None \<Rightarrow> ag_createdAt ag | Some t \<Rightarrow> t),
              ag_inputs = intersect (ag_inputs ag) (obs_InputModalities ob),
              ag_outputs = intersect (ag_outputs ag) (obs_OutputModalities ob),
              ag_efforts = intersect (ag_efforts ag) (obs_ReasoningEfforts ob),
              ag_parameters = IntersectParameterSets (ag_parameters ag) (obs_AcceptedParameters ob)\<rparr>))"

definition aggregateObservations :: "catalogue_entry \<Rightarrow> endpoint list \<Rightarrow> catalogue_entry" where
  "aggregateObservations entry endpoints =
     (let (entry, ag) = fold aggregate_one (sort_key ep_DeploymentID endpoints)
            (entry, \<lparr>ag_createdAt = zero_time, ag_inputs = None, ag_outputs = None, ag_efforts = None, ag_parameters = None\<rparr>)
      in entry\<lparr>ca_InputModalities := sortedKeys (ag_inputs ag), ca_OutputModalities := sortedKeys (ag_outputs ag),
              ca_ReasoningEfforts :=
                map_option (\<lambda>es. filter (\<lambda>e. is_member e es) reasoningEffortValues) (ag_efforts ag),
              ca_AcceptedParameters := ag_parameters ag\<rparr>)"

definition catalogue_entry_of :: "model_id \<Rightarrow> route_set \<Rightarrow> catalogue_entry" where
  "catalogue_entry_of line s = aggregateObservations
     \<lparr>ca_Model = line, ca_Reference = rs_reference s,
      ca_Providers = sort (remdups (map ep_Provider (rs_endpoints s))),
      ca_DisplayName = None, ca_CreatedAt = None, ca_ContextTokens = None, ca_MaxOutputTokens = None,
      ca_InputModalities = None, ca_OutputModalities = None, ca_SupportsTools = None, ca_ReasoningEfforts = None,
      ca_AcceptedParameters = None, ca_ListPrices = [], ca_Realtime = None, ca_Audio = None\<rparr> (rs_endpoints s)"

definition Catalogue :: "inventory \<Rightarrow> catalogue_entry list" where
  "Catalogue i = sort_key ca_Model (map (\<lambda>(line, s). catalogue_entry_of line s) (iv_currentOf i))"

section \<open>The store\<close>

text \<open>
  Why the last reload failed: the code keeps a redacted text of it, the model the reason itself.
  What a reload reads is a file that cannot be read or one with some decoded value. \<open>ReloadValidated\<close>
  takes the consumer's check; \<open>Reload\<close> passes none.
\<close>

datatype 'e reload_failure = FileUnreadable | ParseRefused inventory_error | ConsumerRefused 'e

record 'e inventory_store =
  ist_maxAge :: duration
  ist_current :: inventory
  ist_lastReload :: "'e reload_failure option"

definition NewStore :: "inventory_file option option \<Rightarrow> duration \<Rightarrow> 'e reload_failure + 'e inventory_store" where
  "NewStore content configured =
     (let maxAge = (if configured \<le> 0 then DefaultMaxSnapshotAge else configured)
      in case content of
           None \<Rightarrow> Inl FileUnreadable
         | Some raw \<Rightarrow>
             (case inventory_Parse raw maxAge of
                Inl e \<Rightarrow> Inl (ParseRefused e)
              | Inr i \<Rightarrow> Inr \<lparr>ist_maxAge = maxAge, ist_current = i, ist_lastReload = None\<rparr>))"

definition reloadFailed ::
  "'e reload_failure \<Rightarrow> 'e inventory_store \<Rightarrow> 'e reload_failure option \<times> 'e inventory_store" where
  "reloadFailed e s = (Some e, s\<lparr>ist_lastReload := Some e\<rparr>)"

definition ReloadValidated ::
  "(inventory \<Rightarrow> 'e option) \<Rightarrow> inventory_file option option \<Rightarrow> 'e inventory_store \<Rightarrow>
   'e reload_failure option \<times> 'e inventory_store" where
  "ReloadValidated validate content s =
     (case content of
        None \<Rightarrow> reloadFailed FileUnreadable s
      | Some raw \<Rightarrow>
          (case inventory_Parse raw (ist_maxAge s) of
             Inl e \<Rightarrow> reloadFailed (ParseRefused e) s
           | Inr loaded \<Rightarrow>
               (case validate loaded of
                  Some e \<Rightarrow> reloadFailed (ConsumerRefused e) s
                | None \<Rightarrow> (None, s\<lparr>ist_current := loaded, ist_lastReload := None\<rparr>))))"

section \<open>Specification\<close>

text \<open>What a snapshot's declared rows mean for a reference, without any index.\<close>

definition rows_of :: "deployment list \<Rightarrow> model_reference \<Rightarrow> deployment list" where
  "rows_of ds r = filter (\<lambda>d. de_ModelReference d = r) ds"

definition declared_set :: "deployment list \<Rightarrow> model_reference \<Rightarrow> route_set" where
  "declared_set ds r = \<lparr>rs_reference = r, rs_endpoints = map endpoint_of (rows_of ds r)\<rparr>"

definition current_row :: "deployment list \<Rightarrow> model_id \<Rightarrow> deployment option" where
  "current_row ds line = List.find (\<lambda>d. de_Current d \<and> ModelID (de_ModelReference d) = line) ds"

definition resolve_declared ::
  "inventory_file \<Rightarrow> instant \<Rightarrow> duration \<Rightarrow> model_reference \<Rightarrow> instant \<Rightarrow> resolve_error + route_set" where
  "resolve_declared f issued maxAge reference t =
     (let ds = if_Deployments f
      in if rows_of ds reference \<noteq> [] then Inr (declared_set ds reference)
         else if Pinned reference then Inl (ErrNoRoute reference)
         else if time_sub t issued > maxAge
         then Inl (ErrSnapshotTooStale reference (if_SnapshotID f) (time_sub t issued) maxAge)
         else case current_row ds (ModelID reference) of
                None \<Rightarrow> Inl (ErrNoRoute reference)
              | Some d \<Rightarrow> Inr (declared_set ds (de_ModelReference d)))"

definition route_well_formed :: "route \<Rightarrow> bool" where
  "route_well_formed r \<longleftrightarrow>
     ro_DeploymentID r \<noteq> '''' \<and> length (ro_DeploymentID r) \<le> 128 \<and> slug_Valid (ro_Provider r) \<and>
     reference_Valid (ro_ModelReference r) \<and> Pinned (ro_ModelReference r) \<and> ro_UpstreamModelID r \<noteq> '''' \<and>
     distinct (ro_Regions r) \<and> list_all region_Valid (ro_Regions r) \<and>
     (case ro_AcceptedParameters r of None \<Rightarrow> True | Some ps \<Rightarrow> ValidateParameterSet ps = None)"

definition reloads ::
  "(inventory \<Rightarrow> 'e option) \<Rightarrow> inventory_file option option list \<Rightarrow> 'e inventory_store \<Rightarrow> 'e inventory_store" where
  "reloads validate contents s = fold (\<lambda>content s. snd (ReloadValidated validate content s)) contents s"

text \<open>What a file's content installs, if anything.\<close>

definition installs :: "(inventory \<Rightarrow> 'e option) \<Rightarrow> duration \<Rightarrow> inventory_file option option \<Rightarrow> inventory option" where
  "installs validate maxAge content =
     (case content of
        None \<Rightarrow> None
      | Some raw \<Rightarrow>
          (case inventory_Parse raw maxAge of
             Inl _ \<Rightarrow> None
           | Inr i \<Rightarrow> if validate i = None then Some i else None))"

definition demo_row :: "deployment_id \<Rightarrow> model_reference \<Rightarrow> bool \<Rightarrow> deployment" where
  "demo_row d r current =
     \<lparr>de_DeploymentID = d, de_Provider = ''p'', de_ModelReference = r, de_UpstreamModelID = ''u'', de_Regions = [''eu''],
      de_Current = current, de_Observed = None\<rparr>"

definition demo_inventory_file :: inventory_file where
  "demo_inventory_file =
     \<lparr>if_SnapshotID = ''s'', if_IssuedAt = ''2026-01-01T00:00:00Z'',
      if_Deployments = [demo_row ''d'' ''a/m@1'' True, demo_row ''e'' ''a/m@1'' True, demo_row ''g'' ''a/m@0'' False]\<rparr>"

definition demo_inventory :: inventory where
  "demo_inventory =
     \<lparr>iv_snapshotID = ''s'', iv_issuedAt = 63902822400000000000, iv_maxAge = hour,
      iv_byReference = map (\<lambda>r. (r, declared_set (if_Deployments demo_inventory_file) r)) [''a/m@1'', ''a/m@0''],
      iv_currentOf = [(''a/m'', declared_set (if_Deployments demo_inventory_file) ''a/m@1'')]\<rparr>"

lemma demo_inventory_parsed: "inventory_Parse (Some demo_inventory_file) hour = Inr demo_inventory"
  by code_simp

section \<open>Lemmas\<close>

lemma filter_key_single: "distinct (map g xs) \<Longrightarrow> x \<in> set xs \<Longrightarrow> filter (\<lambda>y. g y = g x) xs = [x]"
  by (induction xs) (auto simp: filter_empty_conv rev_image_eqI)

lemma concat_single:
  assumes "distinct (map fst m)" and "\<And>r s. (r, s) \<in> set m \<Longrightarrow> g r s = (if r = k then [c] else [])" and "\<exists>v. (k, v) \<in> set m"
  shows "concat (map (\<lambda>(r, s). g r s) m) = [c]"
  using assms
proof (induction m)
  case (Cons p m)
  obtain r s where p: "p = (r, s)" by (cases p)
  show ?case
  proof (cases "r = k")
    case True
    then have "concat (map (\<lambda>(r, s). g r s) m) = []" using Cons.prems(1,2) by (force simp: p)
    with True Cons.prems(2) [of r s] show ?thesis by (simp add: p)
  next
    case False
    with Cons show ?thesis by (auto simp: p)
  qed
qed simp

lemma map_of_add_endpoint:
  "map_of (add_endpoint d m) r =
   (if r = de_ModelReference d
    then Some \<lparr>rs_reference = r, rs_endpoints = (case map_of m r of Some s \<Rightarrow> rs_endpoints s | None \<Rightarrow> []) @ [endpoint_of d]\<rparr>
    else map_of m r)"
  by (simp add: add_endpoint_def Let_def update_conv')

lemma parse_step:
  assumes "parse_deployments (d # ds) seen m cur = Inr res"
  obtains cur2 where "check_deployment d = None" and "de_DeploymentID d \<notin> set seen"
    and "parse_deployments ds (de_DeploymentID d # seen) (add_endpoint d m) cur2 = Inr res"
    and "map_of cur2 =
      (if de_Current d then (map_of cur)(ModelID (de_ModelReference d) \<mapsto> de_ModelReference d) else map_of cur)"
    and "de_Current d \<longrightarrow> map_of cur (ModelID (de_ModelReference d)) \<in> {None, Some (de_ModelReference d)}"
  using assms by (auto simp: Let_def is_member_def update_conv' split: option.splits if_splits)

lemma parse_deployments_sets:
  "parse_deployments ds seen m cur = Inr (m', cur') \<Longrightarrow>
   map_of m' r = (if rows_of ds r = [] then map_of m r
     else Some \<lparr>rs_reference = r, rs_endpoints =
       (case map_of m r of Some s \<Rightarrow> rs_endpoints s | None \<Rightarrow> []) @ map endpoint_of (rows_of ds r)\<rparr>)"
proof (induction ds arbitrary: seen m cur)
  case (Cons d ds)
  from Cons.prems obtain cur2 where
    "parse_deployments ds (de_DeploymentID d # seen) (add_endpoint d m) cur2 = Inr (m', cur')" by (rule parse_step)
  from Cons.IH [OF this] show ?case by (auto simp: rows_of_def map_of_add_endpoint)
qed (simp add: rows_of_def)

lemma parse_deployments_current:
  "parse_deployments ds seen m cur = Inr (m', cur') \<Longrightarrow>
   map_of cur' line = Some r \<longleftrightarrow>
   map_of cur line = Some r \<or> (\<exists>d \<in> set ds. de_Current d \<and> de_ModelReference d = r \<and> ModelID r = line)"
proof (induction ds arbitrary: seen m cur)
  case (Cons d ds)
  from Cons.prems obtain cur2 where
    p: "parse_deployments ds (de_DeploymentID d # seen) (add_endpoint d m) cur2 = Inr (m', cur')"
    and c: "map_of cur2 =
      (if de_Current d then (map_of cur)(ModelID (de_ModelReference d) \<mapsto> de_ModelReference d) else map_of cur)"
    and old: "de_Current d \<longrightarrow> map_of cur (ModelID (de_ModelReference d)) \<in> {None, Some (de_ModelReference d)}"
    by (rule parse_step)
  show ?case unfolding Cons.IH [OF p] c using old by (auto split: if_splits)
qed simp

lemma parse_deployments_checked:
  "parse_deployments ds seen m cur = Inr res \<Longrightarrow>
   distinct (map de_DeploymentID ds) \<and> list_all (\<lambda>d. check_deployment d = None) ds \<and>
   set (map de_DeploymentID ds) \<inter> set seen = {}"
proof (induction ds arbitrary: seen m cur)
  case (Cons d ds)
  from Cons.prems obtain cur2 where "check_deployment d = None" "de_DeploymentID d \<notin> set seen"
    and "parse_deployments ds (de_DeploymentID d # seen) (add_endpoint d m) cur2 = Inr res" by (rule parse_step)
  with Cons.IH [OF this(3)] show ?case by auto
qed simp

lemma parse_deployments_keys:
  "parse_deployments ds seen m cur = Inr (m', cur') \<Longrightarrow> distinct (map fst m) \<Longrightarrow> distinct (map fst m')"
proof (induction ds arbitrary: seen m cur)
  case (Cons d ds)
  from Cons.prems(1) obtain cur2 where
    "parse_deployments ds (de_DeploymentID d # seen) (add_endpoint d m) cur2 = Inr (m', cur')" by (rule parse_step)
  with Cons.IH [OF this] Cons.prems(2) show ?case by (simp add: add_endpoint_def Let_def distinct_update)
qed simp

lemma inventory_ParseE:
  assumes "inventory_Parse (Some f) maxAge = Inr i"
  obtains issued m cur where "timestamp_Time (if_IssuedAt f) = Some issued"
    and "parse_deployments (if_Deployments f) [] [] [] = Inr (m, cur)"
    and "i = \<lparr>iv_snapshotID = if_SnapshotID f, iv_issuedAt = issued, iv_maxAge = maxAge, iv_byReference = m,
      iv_currentOf = map (\<lambda>(line, r). (line, set_of m r)) cur\<rparr>" and "0 < maxAge"
  using assms by (auto simp: inventory_Parse_def split: if_splits option.splits sum.splits)

lemma declared_sets:
  assumes "parse_deployments ds [] [] [] = Inr (m, cur)"
  shows "map_of m r = (if rows_of ds r = [] then None else Some (declared_set ds r))"
  using parse_deployments_sets [OF assms, of r] by (simp add: declared_set_def)

lemma declared_current:
  assumes "parse_deployments ds [] [] [] = Inr (m, cur)"
  shows "map_of cur line = map_option de_ModelReference (current_row ds line)"
proof (cases "current_row ds line")
  case None
  then have "map_of cur line \<noteq> Some r" for r
    unfolding parse_deployments_current [OF assms] by (auto simp: current_row_def find_None_iff)
  with None show ?thesis by (cases "map_of cur line") auto
next
  case (Some d)
  then have "d \<in> set ds \<and> de_Current d \<and> ModelID (de_ModelReference d) = line"
    by (auto simp: current_row_def dest: find_SomeD)
  then have "map_of cur line = Some (de_ModelReference d)"
    unfolding parse_deployments_current [OF assms] by auto
  with Some show ?thesis by simp
qed

lemma map_of_current: "map_of (map (\<lambda>(l, r). (l, g r)) xs) l = map_option g (map_of xs l)"
  by (induction xs) auto

lemma Resolve_declared:
  assumes "inventory_Parse (Some f) maxAge = Inr i" and "timestamp_Time (if_IssuedAt f) = Some issued"
  shows "Resolve i reference t = resolve_declared f issued maxAge reference t"
proof -
  from assms(1) obtain m cur where p: "parse_deployments (if_Deployments f) [] [] [] = Inr (m, cur)"
    and i: "i = \<lparr>iv_snapshotID = if_SnapshotID f, iv_issuedAt = issued, iv_maxAge = maxAge, iv_byReference = m,
      iv_currentOf = map (\<lambda>(line, r). (line, set_of m r)) cur\<rparr>"
    by (rule inventory_ParseE) (use assms(2) in simp)
  have "set_of m (de_ModelReference d) = declared_set (if_Deployments f) (de_ModelReference d)"
    if "current_row (if_Deployments f) line = Some d" for line d
  proof -
    from that have "d \<in> set (if_Deployments f)" by (auto simp: current_row_def dest: find_SomeD)
    then have "rows_of (if_Deployments f) (de_ModelReference d) \<noteq> []" by (auto simp: rows_of_def filter_empty_conv)
    then show ?thesis by (simp add: set_of_def declared_sets [OF p])
  qed
  then show ?thesis
    by (auto simp: Resolve_def resolve_declared_def i declared_sets [OF p] declared_current [OF p] map_of_current
        ServesUnpinned_def inventory_Age_def Let_def split: option.splits)
qed

lemma check_regions_ok:
  "check_regions d n seen rs = None \<Longrightarrow> distinct rs \<and> list_all region_Valid rs \<and> set rs \<inter> set seen = {}"
  by (induction d n seen rs rule: check_regions.induct) (auto simp: is_member_def split: if_splits)

lemma observed_parameters_ok:
  "observed_Validate ob = None \<Longrightarrow> obs_AcceptedParameters ob = Some ps \<Longrightarrow> ValidateParameterSet ps = None"
  by (auto simp: observed_Validate_def first_error_None)

lemma check_deployment_route:
  assumes "check_deployment d = None"
  shows "route_well_formed (candidate (de_ModelReference d) (endpoint_of d))"
proof -
  have "Option.bind (de_Observed d) observed_Validate = None"
    using assms by (auto simp: check_deployment_def split: if_splits option.splits)
  then have "(case Option.bind (de_Observed d) obs_AcceptedParameters of None \<Rightarrow> True | Some ps \<Rightarrow> ValidateParameterSet ps = None)"
    by (cases "de_Observed d") (auto dest: observed_parameters_ok split: option.splits)
  moreover have "check_regions (de_DeploymentID d) 0 [] (de_Regions d) = None"
    using assms by (auto simp: check_deployment_def split: if_splits option.splits)
  ultimately show ?thesis
    using assms check_regions_ok [of "de_DeploymentID d" 0 "[]" "de_Regions d"]
    by (auto simp: check_deployment_def route_well_formed_def candidate_def endpoint_of_def acceptedParametersOf_def
        split: if_splits)
qed

lemma resolve_declaredE:
  assumes "resolve_declared f issued maxAge reference t = Inr s"
  obtains r where "s = declared_set (if_Deployments f) r" and "rows_of (if_Deployments f) r \<noteq> []"
    and "ModelID r = ModelID reference" and "Pinned reference \<longrightarrow> r = reference"
proof (cases "rows_of (if_Deployments f) reference = []")
  case True
  then obtain d where d: "current_row (if_Deployments f) (ModelID reference) = Some d"
    and s: "s = declared_set (if_Deployments f) (de_ModelReference d)" and p: "\<not> Pinned reference"
    using assms by (auto simp: resolve_declared_def Let_def split: if_splits option.splits)
  from d have "d \<in> set (if_Deployments f)" "ModelID (de_ModelReference d) = ModelID reference"
    by (auto simp: current_row_def dest: find_SomeD)
  moreover from this have "rows_of (if_Deployments f) (de_ModelReference d) \<noteq> []"
    by (auto simp: rows_of_def filter_empty_conv)
  ultimately show ?thesis using that s p by blast
next
  case False
  then show ?thesis using that [of reference] assms by (simp add: resolve_declared_def Let_def)
qed

lemma Resolve_candidates:
  assumes "inventory_Parse (Some f) maxAge = Inr i" and "Resolve i reference t = Inr s"
  shows "Candidates s \<noteq> [] \<and>
    list_all (\<lambda>c. route_well_formed c \<and> ro_ModelReference c = rs_reference s) (Candidates s) \<and>
    ModelID (rs_reference s) = ModelID reference \<and> (Pinned reference \<longrightarrow> rs_reference s = reference)"
proof -
  from assms(1) obtain issued m cur where time: "timestamp_Time (if_IssuedAt f) = Some issued"
    and p: "parse_deployments (if_Deployments f) [] [] [] = Inr (m, cur)" by (rule inventory_ParseE)
  have "resolve_declared f issued maxAge reference t = Inr s"
    using assms(2) Resolve_declared [OF assms(1) time] by simp
  then obtain r where s: "s = declared_set (if_Deployments f) r" and r: "rows_of (if_Deployments f) r \<noteq> []"
    "ModelID r = ModelID reference" "Pinned reference \<longrightarrow> r = reference" by (rule resolve_declaredE)
  have "route_well_formed (candidate r (endpoint_of d))" if "d \<in> set (rows_of (if_Deployments f) r)" for d
    using that parse_deployments_checked [OF p] check_deployment_route [of d]
    by (auto simp: rows_of_def list_all_iff)
  with r show ?thesis by (auto simp: s declared_set_def Candidates_def list_all_iff candidate_def)
qed

lemma ReloadValidated_current:
  "ist_current (snd (ReloadValidated validate content s)) =
     (case installs validate (ist_maxAge s) content of Some i \<Rightarrow> i | None \<Rightarrow> ist_current s)"
  "ist_maxAge (snd (ReloadValidated validate content s)) = ist_maxAge s"
  by (auto simp: ReloadValidated_def installs_def reloadFailed_def split: option.splits sum.splits)

section \<open>Properties\<close>

text \<open>
  C33: Resolution refines the declared rows. For a snapshot that parses, the indexes answer exactly
  what the rows say: a reference with rows resolves, at any age, to all of them and in their order;
  a pinned reference without rows is refused; and an unpinned one follows the row marked current
  in its model line as long as the snapshot is within its horizon, and is refused as stale after it.
\<close>

theorem Resolve_refines_rows:
  assumes "inventory_Parse (Some f) maxAge = Inr i" and "timestamp_Time (if_IssuedAt f) = Some issued"
  shows "Resolve i reference t = resolve_declared f issued maxAge reference t"
  by (rule Resolve_declared [OF assms])

theorem Resolve_refines_rows_witness:
  "Resolve demo_inventory ''a/m'' 63902822400000000001 = Inr (declared_set (if_Deployments demo_inventory_file) ''a/m@1'')"
proof -
  have "inventory_Parse (Some demo_inventory_file) hour = Inr demo_inventory" by (rule demo_inventory_parsed)
  moreover have "timestamp_Time (if_IssuedAt demo_inventory_file) = Some 63902822400000000000" by code_simp
  moreover have "resolve_declared demo_inventory_file 63902822400000000000 hour ''a/m'' 63902822400000000001 =
      Inr (declared_set (if_Deployments demo_inventory_file) ''a/m@1'')" by code_simp
  ultimately show ?thesis using Resolve_refines_rows by metis
qed

text \<open>
  A declared row is found again: in a snapshot that parses, looking a row's deployment id up
  returns the route of that row, with its provider, reference, upstream model, regions and
  accepted controls, and no other row is ever returned for it.
\<close>

theorem declared_row_found:
  assumes "inventory_Parse (Some f) maxAge = Inr i" and "d \<in> set (if_Deployments f)"
  shows "inventory_Deployment i (de_DeploymentID d) = Inr (candidate (de_ModelReference d) (endpoint_of d))"
proof -
  let ?ds = "if_Deployments f" and ?c = "candidate (de_ModelReference d) (endpoint_of d)"
  from assms(1) obtain issued m cur where p: "parse_deployments ?ds [] [] [] = Inr (m, cur)" and m: "iv_byReference i = m"
    by (rule inventory_ParseE) simp
  have keys: "distinct (map fst m)" using parse_deployments_keys [OF p] by simp
  have ids: "distinct (map de_DeploymentID ?ds)" using parse_deployments_checked [OF p] by simp
  have one: "filter (\<lambda>r. ro_DeploymentID r = de_DeploymentID d) (Candidates s) = (if r = de_ModelReference d then [?c] else [])"
    if "(r, s) \<in> set m" for r s
  proof -
    have "s = declared_set ?ds r"
      using map_of_is_SomeI [OF keys that] by (simp add: declared_sets [OF p] split: if_splits)
    then have s: "Candidates s = map (\<lambda>x. candidate r (endpoint_of x)) (rows_of ?ds r)"
      by (simp add: Candidates_def declared_set_def)
    have c: "ro_DeploymentID (candidate r (endpoint_of x)) = de_DeploymentID x" for x
      by (simp add: candidate_def endpoint_of_def)
    have "filter (\<lambda>x. de_DeploymentID x = de_DeploymentID d) (rows_of ?ds r) =
        filter (\<lambda>x. de_ModelReference x = r) (filter (\<lambda>x. de_DeploymentID x = de_DeploymentID d) ?ds)"
      by (auto simp: rows_of_def intro: filter_cong)
    then show ?thesis by (simp add: s c filter_map comp_def filter_key_single [OF ids assms(2)])
  qed
  have "rows_of ?ds (de_ModelReference d) \<noteq> []" using assms(2) by (auto simp: rows_of_def filter_empty_conv)
  then have "\<exists>s. (de_ModelReference d, s) \<in> set m"
    using declared_sets [OF p, of "de_ModelReference d"] map_of_SomeD by fastforce
  then have "concat (map (\<lambda>(r, s). filter (\<lambda>r. ro_DeploymentID r = de_DeploymentID d) (Candidates s)) m) = [?c]"
    by (intro concat_single [OF keys]) (use one in auto)
  then have "filter (\<lambda>r. ro_DeploymentID r = de_DeploymentID d) (concat (map (\<lambda>(_, s). Candidates s) m)) = [?c]"
    by (simp add: filter_concat comp_def case_prod_unfold)
  then show ?thesis by (simp add: inventory_Deployment_def m)
qed

theorem declared_row_found_witness:
  "inventory_Deployment demo_inventory ''e'' = Inr (candidate ''a/m@1'' (endpoint_of (demo_row ''e'' ''a/m@1'' True)))"
proof -
  have "inventory_Parse (Some demo_inventory_file) hour = Inr demo_inventory" by (rule demo_inventory_parsed)
  moreover have "demo_row ''e'' ''a/m@1'' True \<in> set (if_Deployments demo_inventory_file)"
    by (simp add: demo_inventory_file_def)
  ultimately show ?thesis using declared_row_found by (fastforce simp: demo_row_def)
qed

text \<open>
  C35: What a parsed snapshot resolves to is well formed: at least one candidate, every one of them
  stamped with the set's single reference, which is a valid pinned revision of the model line asked
  for and the very reference asked for when that was pinned, and every one with a valid provider, an
  upstream model, distinct valid regions and a valid set of accepted controls.
\<close>

theorem resolved_candidates_well_formed:
  assumes "inventory_Parse (Some f) maxAge = Inr i" and "Resolve i reference t = Inr s"
  shows "Candidates s \<noteq> [] \<and>
    list_all (\<lambda>c. route_well_formed c \<and> ro_ModelReference c = rs_reference s) (Candidates s) \<and>
    ModelID (rs_reference s) = ModelID reference \<and> (Pinned reference \<longrightarrow> rs_reference s = reference)"
  by (rule Resolve_candidates [OF assms])

theorem resolved_candidates_well_formed_witness:
  "list_all route_well_formed (Candidates (declared_set (if_Deployments demo_inventory_file) ''a/m@1''))"
proof -
  have "inventory_Parse (Some demo_inventory_file) hour = Inr demo_inventory" by (rule demo_inventory_parsed)
  moreover have "Resolve demo_inventory ''a/m'' 63902822400000000001 =
      Inr (declared_set (if_Deployments demo_inventory_file) ''a/m@1'')" by code_simp
  ultimately show ?thesis using resolved_candidates_well_formed by (force simp: list_all_iff)
qed

text \<open>
  The store serves the last good snapshot. After any sequence of reloads it serves what the last
  readable, parseable and accepted content installed, whole, or the snapshot it started with when
  there was none.
\<close>

theorem store_serves_last_good:
  "ist_current (reloads validate contents s) =
     last (ist_current s # List.map_filter (installs validate (ist_maxAge s)) contents)"
  unfolding reloads_def
proof (induction contents arbitrary: s)
  case (Cons c contents)
  then show ?case by (simp add: ReloadValidated_current List.map_filter_simps split: option.splits)
qed (simp add: List.map_filter_simps)

end
