(* ===== verification/Provider_Failure.thy ===== *)
theory Provider_Failure
  imports Contract_Errors
begin

text \<open>
  The failure vocabulary of \<open>internal/provider/errors.go\<close> and the reading of a failure about the
  credential that produced it (\<open>internal/provider/credential.go\<close>). A Go \<open>error\<close> is a chain the
  \<open>errors\<close> package walks through \<open>Unwrap\<close>; \<open>go_error\<close> has the adapters' error types, the
  sentinels the executor tests for, any other error, and wrapping.
\<close>

record upstream_failure =
  uf_Code :: error_code
  uf_Category :: upstream_category
  uf_Detail :: string
  uf_RetryAfterMs :: int
  uf_Passthrough :: "passthrough option"
  uf_RecursOnThisRoute :: bool

record unsupported =
  us_Code :: error_code
  us_Param :: string
  us_Detail :: string

datatype sentinel =
    ContextCanceled | ContextDeadlineExceeded | ErrClientGone | ErrSwitchTooLate | ErrRealtimeUpstreamClosed

datatype go_error =
    ErrUpstream upstream_failure
  | ErrCustomerUpstream upstream_failure
  | ErrCustomerCredential "error_code option"
  | ErrUnsupported unsupported
  | ErrSentinel sentinel
  | ErrOther string
  | ErrWrapped string go_error

section \<open>errors.As and errors.Is\<close>

fun as_upstream :: "go_error \<Rightarrow> upstream_failure option" where
  "as_upstream (ErrUpstream f) = Some f"
| "as_upstream (ErrCustomerUpstream f) = Some f"
| "as_upstream (ErrWrapped _ e) = as_upstream e"
| "as_upstream _ = None"

fun as_customer_upstream :: "go_error \<Rightarrow> upstream_failure option" where
  "as_customer_upstream (ErrCustomerUpstream f) = Some f"
| "as_customer_upstream (ErrWrapped _ e) = as_customer_upstream e"
| "as_customer_upstream _ = None"

fun as_customer_credential :: "go_error \<Rightarrow> error_code option option" where
  "as_customer_credential (ErrCustomerCredential c) = Some c"
| "as_customer_credential (ErrWrapped _ e) = as_customer_credential e"
| "as_customer_credential _ = None"

fun as_unsupported :: "go_error \<Rightarrow> unsupported option" where
  "as_unsupported (ErrUnsupported u) = Some u"
| "as_unsupported (ErrWrapped _ e) = as_unsupported e"
| "as_unsupported _ = None"

fun errors_is :: "go_error \<Rightarrow> sentinel \<Rightarrow> bool" where
  "errors_is (ErrSentinel s) t \<longleftrightarrow> s = t"
| "errors_is (ErrWrapped _ e) t \<longleftrightarrow> errors_is e t"
| "errors_is _ t \<longleftrightarrow> False"

section \<open>Operations\<close>

definition ContractError :: "upstream_failure \<Rightarrow> request_id \<Rightarrow> contract_error" where
  "ContractError e requestID =
     (let failure = NewError requestID (uf_Code e) (uf_Detail e);
          failure = (if uf_RetryAfterMs e > 0 then WithRetryAfter failure (uf_RetryAfterMs e) else failure)
      in WithUpstream failure (uf_Category e) (uf_Passthrough e))"

definition CustomerCredentialFailure :: "bool \<Rightarrow> upstream_failure \<Rightarrow> go_error" where
  "CustomerCredentialFailure customerOwned failure =
     (if \<not> customerOwned then ErrUpstream failure
      else case uf_Code failure of
             CodeProviderCredentialInvalid \<Rightarrow> ErrCustomerCredential (Some (uf_Code failure))
           | CodeProviderBillingRefused \<Rightarrow> ErrCustomerCredential (Some (uf_Code failure))
           | CodeRateLimited \<Rightarrow> ErrCustomerUpstream failure
           | _ \<Rightarrow> ErrUpstream failure)"

fun AttributableCategory :: "upstream_category \<Rightarrow> bool" where
  "AttributableCategory UpstreamRateLimit = True"
| "AttributableCategory UpstreamQuota = True"
| "AttributableCategory UpstreamTimeout = True"
| "AttributableCategory UpstreamOverloaded = True"
| "AttributableCategory UpstreamServerError = True"
| "AttributableCategory UpstreamAuthentication = True"
| "AttributableCategory UpstreamInvalidReq = False"
| "AttributableCategory UpstreamContentFilter = False"
| "AttributableCategory UpstreamUnknown = False"

definition DeploymentAttributable :: "go_error \<Rightarrow> bool" where
  "DeploymentAttributable err \<longleftrightarrow>
     (if as_customer_upstream err \<noteq> None then False
      else case as_upstream err of None \<Rightarrow> False | Some f \<Rightarrow> AttributableCategory (uf_Category f))"

definition secretRedactionMarker :: string where
  "secretRedactionMarker = ''[redacted]''"

definition RedactSecret :: "string \<Rightarrow> string \<Rightarrow> string" where
  "RedactSecret text secret =
     (if secret = '''' then text else replace_all text secret secretRedactionMarker)"

section \<open>What a failure says about the key\<close>

datatype credential_verdict =
    CredentialHealthy | CredentialExhausted | CredentialRejected | CredentialRequestFault

fun verdict_for_code :: "error_code \<Rightarrow> credential_verdict" where
  "verdict_for_code CodeProviderCredentialInvalid = CredentialRejected"
| "verdict_for_code CodeBYOKCredentialInvalid = CredentialRequestFault"
| "verdict_for_code CodeProviderBillingRefused = CredentialExhausted"
| "verdict_for_code CodeQuotaExceeded = CredentialRequestFault"
| "verdict_for_code CodeInsufficientBalance = CredentialRequestFault"
| "verdict_for_code CodeSpendingLimitExceeded = CredentialRequestFault"
| "verdict_for_code CodeInvalidRequest = CredentialRequestFault"
| "verdict_for_code CodeModelNotFound = CredentialRequestFault"
| "verdict_for_code CodeUnsupportedModality = CredentialRequestFault"
| "verdict_for_code CodeContextLengthExceeded = CredentialRequestFault"
| "verdict_for_code CodeRequestTooLarge = CredentialRequestFault"
| "verdict_for_code CodeOutputLimitExceeded = CredentialRequestFault"
| "verdict_for_code CodeUpstreamContentFiltered = CredentialRequestFault"
| "verdict_for_code CodePermissionDenied = CredentialRequestFault"
| "verdict_for_code CodeAuthenticationFailed = CredentialRequestFault"
| "verdict_for_code CodeRateLimited = CredentialHealthy"
| "verdict_for_code CodeProviderTimeout = CredentialHealthy"
| "verdict_for_code CodeProviderOverloaded = CredentialHealthy"
| "verdict_for_code CodeProviderError = CredentialHealthy"
| "verdict_for_code _ = CredentialHealthy"

definition CredentialVerdictFor :: "go_error \<Rightarrow> credential_verdict" where
  "CredentialVerdictFor err =
     (case as_upstream err of None \<Rightarrow> CredentialHealthy | Some f \<Rightarrow> verdict_for_code (uf_Code f))"

definition ThrottledFailure :: "go_error \<Rightarrow> bool" where
  "ThrottledFailure err \<longleftrightarrow>
     (case as_upstream err of None \<Rightarrow> False | Some f \<Rightarrow> uf_Category f = UpstreamRateLimit)"

section \<open>Lemmas\<close>

lemma ContractError_simps [simp]:
  "ce_Code (ContractError f q) = uf_Code f"
  "ce_RequestID (ContractError f q) = q"
  "ce_Retryable (ContractError f q) = Retryable (uf_Code f)"
  by (simp_all add: ContractError_def Let_def)

lemma ContractError_built: "built_error (ContractError f q)"
  unfolding ContractError_def Let_def by (auto intro: built_error.intros)

lemma customer_upstream_is_upstream:
  "as_customer_upstream e = Some f \<Longrightarrow> as_upstream e = Some f"
  by (induction e) auto

lemma verdict_retires_iff:
  "verdict_for_code c = CredentialExhausted \<longleftrightarrow> c = CodeProviderBillingRefused"
  "verdict_for_code c = CredentialRejected \<longleftrightarrow> c = CodeProviderCredentialInvalid"
  by (cases c; simp)+

text \<open>
  A replaced text never runs together with what surrounds it, because the marker starts and ends
  with a bracket and the secret has none.
\<close>

lemma replace_all_prefix:
  "prefix q (replace_all s p secretRedactionMarker) \<Longrightarrow> CHR ''['' \<notin> set q \<Longrightarrow> prefix q s"
proof (induction s arbitrary: q)
  case (Cons c cs)
  then show ?case
    by (cases q) (auto simp: secretRedactionMarker_def split: if_splits)
qed simp

lemma sublist_append_separated:
  assumes "sublist q (xs @ d # ys)" and "d \<notin> set q"
  shows "sublist q xs \<or> sublist q ys"
proof -
  from assms(1) obtain u v where uv: "xs @ d # ys = u @ q @ v" by (auto simp: sublist_def)
  show ?thesis
  proof (cases "length (u @ q) \<le> length xs")
    case True
    then have "xs = u @ q @ drop (length (u @ q)) xs"
      using uv by (metis append.assoc append_eq_append_conv_if append_take_drop_id)
    then show ?thesis by (metis sublist_appendI)
  next
    case False
    have "length xs < length u"
    proof (rule ccontr)
      assume "\<not> length xs < length u"
      with False have "length u \<le> length xs" "length xs < length u + length q" by auto
      then have "length xs - length u < length q" by linarith
      then have "(u @ q @ v) ! length xs = q ! (length xs - length u)"
        using \<open>length u \<le> length xs\<close> by (simp add: nth_append)
      moreover have "(xs @ d # ys) ! length xs = d" by simp
      ultimately have "q ! (length xs - length u) = d" using uv by simp
      with \<open>length xs < length u + length q\<close> \<open>length u \<le> length xs\<close> have "d \<in> set q"
        by (metis add_diff_inverse_nat nat_add_left_cancel_less not_le nth_mem)
      with assms(2) show False ..
    qed
    then have "ys = drop (Suc (length xs)) u @ q @ v"
      using arg_cong [OF uv, of "drop (Suc (length xs))"] by simp
    then show ?thesis by (metis sublist_appendI)
  qed
qed

lemma marker_sublist:
  assumes "sublist q (secretRedactionMarker @ r)" and "CHR ''['' \<notin> set q" and "CHR '']'' \<notin> set q"
  shows "q = [] \<or> sublist q ''redacted'' \<or> sublist q r"
proof -
  have "sublist q ([] @ CHR ''['' # ''redacted'' @ CHR '']'' # r)"
    using assms(1) by (simp add: secretRedactionMarker_def)
  from sublist_append_separated [OF this assms(2)]
  have "q = [] \<or> sublist q (''redacted'' @ CHR '']'' # r)" by auto
  then show ?thesis using sublist_append_separated [of q "''redacted''" "CHR '']''" r] assms(3) by blast
qed

lemma replace_all_removes:
  assumes "p \<noteq> []" and "CHR ''['' \<notin> set p" and "CHR '']'' \<notin> set p" and "\<not> sublist p ''redacted''"
  shows "\<not> sublist p (replace_all s p secretRedactionMarker)"
proof (induction "length s" arbitrary: s rule: less_induct)
  case less
  show ?case
  proof (cases s)
    case Nil
    with assms(1) show ?thesis by simp
  next
    case (Cons c cs)
    show ?thesis
    proof (cases "has_prefix s p")
      case True
      with assms(1) Cons have "length (drop (length p) s) < length s" by (cases p) auto
      from less [OF this] marker_sublist [OF _ assms(2,3)] True show ?thesis
        using assms(1,4) Cons by auto
    next
      case False
      have "\<not> sublist p (replace_all cs p secretRedactionMarker)" by (rule less) (simp add: Cons)
      moreover have "\<not> prefix p (c # replace_all cs p secretRedactionMarker)"
      proof
        assume "prefix p (c # replace_all cs p secretRedactionMarker)"
        then have "prefix p (replace_all s p secretRedactionMarker)" using False Cons by simp
        from replace_all_prefix [OF this assms(2)] False show False
          by (auto simp: has_prefix_iff prefix_def)
      qed
      ultimately show ?thesis using False Cons by (simp add: sublist_Cons_right)
    qed
  qed
qed

section \<open>Properties\<close>

text \<open>
  C36: \<open>RedactSecret\<close> leaves no occurrence of the secret, neither in the text nor across a marker,
  for every secret that has no square bracket and is not part of the word \<open>redacted\<close>.
\<close>

theorem RedactSecret_removes_secret:
  assumes "secret \<noteq> ''''" and "CHR ''['' \<notin> set secret" and "CHR '']'' \<notin> set secret"
    and "\<not> strings_contains ''redacted'' secret"
  shows "\<not> strings_contains (RedactSecret text secret) secret"
  using replace_all_removes [of secret "text"] assms
  by (simp add: RedactSecret_def strings_contains_sublist)

theorem RedactSecret_removes_secret_witness:
  "RedactSecret ''key=abcabcx'' ''abc'' = ''key=[redacted][redacted]x'' \<and>
   \<not> strings_contains (RedactSecret ''key=abcabcx'' ''abc'') ''abc''"
proof
  show "RedactSecret ''key=abcabcx'' ''abc'' = ''key=[redacted][redacted]x''" by code_simp
  show "\<not> strings_contains (RedactSecret ''key=abcabcx'' ''abc'') ''abc''"
    by (rule RedactSecret_removes_secret) (simp_all add: strings_contains_def has_prefix_def)
qed

text \<open>
  C26: A failure of a customer's own credential is never attributed to the shared deployment and
  never retires a key: an authentication or billing refusal becomes a customer-credential
  failure, a throttle a customer failure that keeps its code, and only other failures stay
  upstream failures.
\<close>

theorem customer_failures_stay_with_customer:
  assumes "uf_Code f \<in> {CodeProviderCredentialInvalid, CodeProviderBillingRefused, CodeRateLimited}"
  shows "\<not> DeploymentAttributable (ErrWrapped w (CustomerCredentialFailure True f)) \<and>
    CredentialVerdictFor (ErrWrapped w (CustomerCredentialFailure True f)) = CredentialHealthy \<and>
    (uf_Code f = CodeRateLimited \<longrightarrow>
       as_customer_upstream (CustomerCredentialFailure True f) = Some f)"
  using assms by (auto simp: CustomerCredentialFailure_def DeploymentAttributable_def CredentialVerdictFor_def)

theorem customer_failures_stay_with_customer_witness:
  "\<not> DeploymentAttributable (ErrWrapped ''w'' (CustomerCredentialFailure True
     \<lparr>uf_Code = CodeRateLimited, uf_Category = UpstreamRateLimit, uf_Detail = '''', uf_RetryAfterMs = 5,
      uf_Passthrough = None, uf_RecursOnThisRoute = False\<rparr>))"
  by (rule conjunct1 [OF customer_failures_stay_with_customer]) simp

end
