(* ===== verification/Route_Resolution.thy ===== *)
theory Route_Resolution
  imports Inventory Provider_Failure
begin

text \<open>
  How the executor turns the signed route list of an envelope into the candidates it may try
  (\<open>resolve\<close> and \<open>resolveAuthorizedRoutes\<close> of \<open>internal/kaana/executor.go\<close>). The texts of the refusals
  quote values as \<open>strconv.Quote\<close> does, which is the \<open>quoted\<close> argument; \<open>describe\<close> renders what
  the envelope's validation found.
\<close>

record candidate =
  cn_route :: route
  cn_fundingCeiling :: funding_tier

definition HasScope :: "authenticated_principal \<Rightarrow> scope \<Rightarrow> bool" where
  "HasScope p s \<longleftrightarrow> is_member s (slice (ap_InferenceScopes p))"

definition invalidAuthorizedRoute :: "request_id \<Rightarrow> nat \<Rightarrow> string \<Rightarrow> contract_error" where
  "invalidAuthorizedRoute requestID index detail =
     WithParam (NewError requestID CodeInvalidRequest detail) (''authorizedRoutes['' @ string_of_nat index @ '']'')"

fun take_regions :: "region list \<Rightarrow> region list \<Rightarrow> bool" where
  "take_regions [] inventoried \<longleftrightarrow> inventoried = []"
| "take_regions (r # rs) inventoried \<longleftrightarrow> is_member r inventoried \<and> take_regions rs (removeAll r inventoried)"

definition regionsMatch :: "region list \<Rightarrow> region list \<Rightarrow> bool" where
  "regionsMatch authorized inventoried \<longleftrightarrow>
     length authorized = length inventoried \<and> take_regions authorized (remdups inventoried)"

definition quoted_list :: "(string \<Rightarrow> string) \<Rightarrow> string list \<Rightarrow> string" where
  "quoted_list quoted vs = ''['' @ join '' '' (map quoted vs) @ '']''"

definition in_inventory :: string where
  "in_inventory = '' in Kaana'' @ CHR 0x27 # ''s inventory''"

definition ceiling_of :: "authorized_route \<Rightarrow> funding_tier" where
  "ceiling_of a = (case ar_MaxFundingTier a of None \<Rightarrow> FundingTierNone | Some t \<Rightarrow> t)"

definition resolve_one ::
  "(string \<Rightarrow> string) \<Rightarrow> inventory \<Rightarrow> request_id \<Rightarrow> instant \<Rightarrow> nat \<Rightarrow> (model_id \<times> model_reference) list \<Rightarrow>
   authorized_route \<Rightarrow> contract_error + candidate" where
  "resolve_one quoted snapshot requestID t index revisions a =
     (case Resolve snapshot (ar_ModelReference a) t of
        Inl _ \<Rightarrow> Inl (invalidAuthorizedRoute requestID index
          (''modelReference '' @ quoted (ar_ModelReference a) @ '' is not present'' @ in_inventory))
      | Inr s \<Rightarrow>
          (case List.find (\<lambda>r. ro_DeploymentID r = ar_DeploymentID a) (Candidates s) of
             None \<Rightarrow> Inl (invalidAuthorizedRoute requestID index
               (''deploymentId '' @ quoted (ar_DeploymentID a) @ '' does not serve modelReference '' @
                quoted (ar_ModelReference a) @ in_inventory))
           | Some r \<Rightarrow>
               if ro_Provider r \<noteq> ar_Provider a
               then Inl (invalidAuthorizedRoute requestID index
                 (''provider '' @ quoted (ar_Provider a) @ '' does not match inventory provider '' @ quoted (ro_Provider r) @
                  '' for deployment '' @ quoted (ar_DeploymentID a)))
               else if \<not> regionsMatch (slice (ar_Regions a)) (ro_Regions r)
               then Inl (invalidAuthorizedRoute requestID index
                 (''regions '' @ quoted_list quoted (slice (ar_Regions a)) @ '' do not match inventory regions '' @
                  quoted_list quoted (ro_Regions r) @ '' for deployment '' @ quoted (ar_DeploymentID a)))
               else (case map_of revisions (ModelID (ro_ModelReference r)) of
                       Some revision \<Rightarrow>
                         if revision \<noteq> ro_ModelReference r
                         then Inl (invalidAuthorizedRoute requestID index
                           (''model line '' @ quoted (ModelID (ro_ModelReference r)) @ '' appears with both '' @ quoted revision @
                            '' and '' @ quoted (ro_ModelReference r) @ ''; one execution cannot switch revisions silently''))
                         else Inr \<lparr>cn_route = r\<lparr>ro_CustomerProviderCredential := ar_CustomerProviderCredential a\<rparr>,
                                   cn_fundingCeiling = ceiling_of a\<rparr>
                     | None \<Rightarrow> Inr \<lparr>cn_route = r\<lparr>ro_CustomerProviderCredential := ar_CustomerProviderCredential a\<rparr>,
                                    cn_fundingCeiling = ceiling_of a\<rparr>)))"

fun resolve_routes ::
  "(string \<Rightarrow> string) \<Rightarrow> inventory \<Rightarrow> request_id \<Rightarrow> instant \<Rightarrow> nat \<Rightarrow> (model_id \<times> model_reference) list \<Rightarrow>
   authorized_route list \<Rightarrow> contract_error + candidate list" where
  "resolve_routes quoted snapshot requestID t index revisions [] = Inr []"
| "resolve_routes quoted snapshot requestID t index revisions (a # as) =
     (case resolve_one quoted snapshot requestID t index revisions a of
        Inl e \<Rightarrow> Inl e
      | Inr c \<Rightarrow>
          let reference = ro_ModelReference (cn_route c)
          in case resolve_routes quoted snapshot requestID t (Suc index) ((ModelID reference, reference) # revisions) as of
               Inl e \<Rightarrow> Inl e
             | Inr cs \<Rightarrow> Inr (c # cs))"

definition resolveAuthorizedRoutes ::
  "(string \<Rightarrow> string) \<Rightarrow> inventory \<Rightarrow> request_id \<Rightarrow> authorized_route list \<Rightarrow> instant \<Rightarrow> contract_error + candidate list" where
  "resolveAuthorizedRoutes quoted snapshot requestID routes t = resolve_routes quoted snapshot requestID t 0 [] routes"

fun check_model_target ::
  "(string \<Rightarrow> string) \<Rightarrow> request_id \<Rightarrow> model_reference \<Rightarrow> nat \<Rightarrow> authorized_route list \<Rightarrow> contract_error option" where
  "check_model_target quoted requestID primary index [] = None"
| "check_model_target quoted requestID primary index (a # as) =
     (if ar_Substitution a = SubstitutionCrossModel
      then Some (invalidAuthorizedRoute requestID index ''a concrete model target cannot authorize cross-model substitution'')
      else if ar_ModelReference a \<noteq> primary
      then Some (invalidAuthorizedRoute requestID index (''same-model execution must keep the primary revision '' @ quoted primary))
      else check_model_target quoted requestID primary (Suc index) as)"

fun price_candidates :: "cards option \<Rightarrow> instant \<Rightarrow> candidate list \<Rightarrow> candidate list" where
  "price_candidates costs t [] = []"
| "price_candidates costs t (c # cs) =
     (case DecisionPriceLimit costs (ro_DeploymentID (cn_route c)) t of
        None \<Rightarrow> price_candidates costs t cs
      | Some limit \<Rightarrow>
          c\<lparr>cn_route := (cn_route c)\<lparr>ro_DecisionPriceLimit := Some limit\<rparr>\<rparr> # price_candidates costs t cs)"

definition resolve ::
  "(string \<Rightarrow> string) \<Rightarrow> (request_error \<Rightarrow> string) \<Rightarrow> inventory \<Rightarrow> cards option \<Rightarrow> request \<Rightarrow> instant \<Rightarrow>
   contract_error + candidate list" where
  "resolve quoted describe snapshot costs r t =
     (let requestID = at_RequestID (rq_Attribution r); principal = at_Principal (rq_Attribution r);
          routes = rq_AuthorizedRoutes r
      in if routes = []
         then Inl (WithParam (NewError requestID CodeInvalidRequest
                ''the envelope requires at least one exact route authorized by Oxy'') ''authorizedRoutes'')
         else case request_Validate r of
           Some e \<Rightarrow> Inl (NewError requestID CodeInvalidRequest (describe e))
         | None \<Rightarrow>
             if \<not> isFirstParty (ap_Authority principal) \<and> \<not> HasScope principal ScopeInvoke
             then Inl (NewError requestID CodeInsufficientScope ''the envelope does not carry inference:invoke'')
             else case (if rt_Kind (rq_Target r) = TargetModel
                        then check_model_target quoted requestID (ar_ModelReference (hd routes)) 0 routes else None) of
               Some e \<Rightarrow> Inl e
             | None \<Rightarrow>
                 (case resolveAuthorizedRoutes quoted snapshot requestID routes t of
                    Inl e \<Rightarrow> Inl e
                  | Inr cs \<Rightarrow>
                      if cm_APIFormat (rq_Client r) \<noteq> APIFormatDecisions then Inr cs
                      else (case price_candidates costs t cs of
                              [] \<Rightarrow> Inl (NewError requestID CodeNoRouteAvailable ''no authorized decisions route has a reviewed price'')
                            | priced \<Rightarrow> Inr priced)))"

section \<open>Specification\<close>

text \<open>A candidate executes exactly what one signed entry authorizes, as the inventory knows it.\<close>

definition authorized_by :: "inventory \<Rightarrow> instant \<Rightarrow> candidate \<Rightarrow> authorized_route \<Rightarrow> bool" where
  "authorized_by snapshot t c a \<longleftrightarrow>
     ro_DeploymentID (cn_route c) = ar_DeploymentID a \<and> ro_Provider (cn_route c) = ar_Provider a \<and>
     set (ro_Regions (cn_route c)) = set (slice (ar_Regions a)) \<and>
     ro_CustomerProviderCredential (cn_route c) = ar_CustomerProviderCredential a \<and>
     cn_fundingCeiling c = ceiling_of a \<and>
     (\<exists>s. Resolve snapshot (ar_ModelReference a) t = Inr s \<and>
        (cn_route c)\<lparr>ro_CustomerProviderCredential := None, ro_DecisionPriceLimit := None\<rparr> \<in> set (Candidates s))"

definition one_revision :: "candidate list \<Rightarrow> bool" where
  "one_revision cs \<longleftrightarrow>
     (\<forall>c \<in> set cs. \<forall>d \<in> set cs. ModelID (ro_ModelReference (cn_route c)) = ModelID (ro_ModelReference (cn_route d)) \<longrightarrow>
        ro_ModelReference (cn_route c) = ro_ModelReference (cn_route d))"

definition demo_envelope :: request where
  "demo_envelope = demo_request [user_message [text_part ''hi'']]
     (map (\<lambda>d. (demo_route d ''a/m@1'')\<lparr>ar_Regions := Some [''eu'']\<rparr>) [''e'', ''d''])"

definition demo_candidates :: "candidate list" where
  "demo_candidates = map (\<lambda>d. \<lparr>cn_route = candidate ''a/m@1'' (endpoint_of (demo_row d ''a/m@1'' True)),
     cn_fundingCeiling = FundingTierNone\<rparr>) [''e'', ''d'']"

section \<open>Lemmas\<close>

lemma take_regions_set: "take_regions rs known \<Longrightarrow> set rs = set known"
  by (induction rs known rule: take_regions.induct) (auto simp: is_member_def)

lemma Candidates_plain:
  "r \<in> set (Candidates s) \<Longrightarrow> ro_CustomerProviderCredential r = None \<and> ro_DecisionPriceLimit r = None"
  by (auto simp: Candidates_def candidate_def)

lemma resolve_one_authorized:
  assumes "resolve_one quoted snapshot requestID t index revisions a = Inr c"
  shows "authorized_by snapshot t c a \<and>
    map_of revisions (ModelID (ro_ModelReference (cn_route c))) \<in> {None, Some (ro_ModelReference (cn_route c))}"
proof -
  from assms obtain s r where s: "Resolve snapshot (ar_ModelReference a) t = Inr s"
    and f: "List.find (\<lambda>r. ro_DeploymentID r = ar_DeploymentID a) (Candidates s) = Some r"
    and p: "ro_Provider r = ar_Provider a" "regionsMatch (slice (ar_Regions a)) (ro_Regions r)"
    and c: "c = \<lparr>cn_route = r\<lparr>ro_CustomerProviderCredential := ar_CustomerProviderCredential a\<rparr>, cn_fundingCeiling = ceiling_of a\<rparr>"
    and rev: "map_of revisions (ModelID (ro_ModelReference r)) \<in> {None, Some (ro_ModelReference r)}"
    by (auto simp: resolve_one_def split: sum.splits option.splits if_splits)
  from find_SomeD [OF f] have r: "r \<in> set (Candidates s)" "ro_DeploymentID r = ar_DeploymentID a" by auto
  have "r\<lparr>ro_CustomerProviderCredential := None, ro_DecisionPriceLimit := None\<rparr> = r"
    using Candidates_plain [OF r(1)] by (cases r) simp
  with r s p rev show ?thesis
    by (auto simp: authorized_by_def c regionsMatch_def dest: take_regions_set)
qed

lemma resolve_routes_authorized:
  assumes "resolve_routes quoted snapshot requestID t index revisions as = Inr cs"
  shows "list_all2 (authorized_by snapshot t) cs as \<and> one_revision cs \<and>
    (\<forall>c \<in> set cs. \<forall>m. map_of revisions (ModelID (ro_ModelReference (cn_route c))) = Some m \<longrightarrow>
       m = ro_ModelReference (cn_route c))"
  using assms
proof (induction as arbitrary: index revisions cs)
  case (Cons a as)
  from Cons.prems obtain c ds where c: "resolve_one quoted snapshot requestID t index revisions a = Inr c"
    and ds: "resolve_routes quoted snapshot requestID t (Suc index)
      ((ModelID (ro_ModelReference (cn_route c)), ro_ModelReference (cn_route c)) # revisions) as = Inr ds"
    and cs: "cs = c # ds"
    by (auto simp: Let_def split: sum.splits)
  note one = resolve_one_authorized [OF c] and rest = Cons.IH [OF ds]
  let ?id = "\<lambda>x. ModelID (ro_ModelReference (cn_route x))" and ?ref = "\<lambda>x. ro_ModelReference (cn_route x)"
  have known: "m = ?ref x" if "x \<in> set ds" "map_of ((?id c, ?ref c) # revisions) (?id x) = Some m" for x m
    using rest that by blast
  have same: "?ref c = ?ref x" if "x \<in> set ds" "?id x = ?id c" for x
    using known [OF that(1), of "?ref c"] that(2) by simp
  have rev: "m = ?ref x" if "x \<in> set cs" "map_of revisions (?id x) = Some m" for x m
  proof (cases "x = c \<or> ?id x = ?id c")
    case True
    then have "?ref x = ?ref c" using that(1) same [of x] by (auto simp: cs)
    then show ?thesis using one that(2) by auto
  next
    case False
    with that known [of x m] show ?thesis by (simp add: cs)
  qed
  have "one_revision cs"
    using rest same unfolding one_revision_def cs set_simps by (metis insert_iff)
  moreover note rev
  ultimately show ?case using one rest by (auto simp: cs)
qed (simp add: one_revision_def)

lemma price_candidates_authorized:
  "list_all2 (authorized_by snapshot t) cs as \<Longrightarrow>
   \<exists>bs. subseq bs as \<and> list_all2 (authorized_by snapshot t) (price_candidates costs u cs) bs"
proof (induction cs as rule: list_all2_induct)
  case (Cons c cs a as)
  then obtain bs where bs: "subseq bs as" "list_all2 (authorized_by snapshot t) (price_candidates costs u cs) bs" by blast
  show ?case
  proof (cases "DecisionPriceLimit costs (ro_DeploymentID (cn_route c)) u")
    case None
    with bs show ?thesis by auto
  next
    case (Some limit)
    have "authorized_by snapshot t (c\<lparr>cn_route := (cn_route c)\<lparr>ro_DecisionPriceLimit := Some limit\<rparr>\<rparr>) a"
      using Cons(1) by (simp add: authorized_by_def)
    with Some bs show ?thesis by (intro exI [of _ "a # bs"]) auto
  qed
qed simp

lemma price_candidates_limit:
  "c \<in> set (price_candidates costs u cs) \<Longrightarrow>
   (\<exists>limit. ro_DecisionPriceLimit (cn_route c) = Some limit \<and>
     DecisionPriceLimit costs (ro_DeploymentID (cn_route c)) u = Some limit) \<and> (\<exists>d \<in> set cs. ro_ModelReference (cn_route c) = ro_ModelReference (cn_route d))"
  by (induction cs) (auto split: option.splits)

lemma resolveE:
  assumes "resolve quoted describe snapshot costs r t = Inr cs"
  obtains ds where "request_Validate r = None"
    and "resolveAuthorizedRoutes quoted snapshot (at_RequestID (rq_Attribution r)) (rq_AuthorizedRoutes r) t = Inr ds"
    and "cs = (if cm_APIFormat (rq_Client r) \<noteq> APIFormatDecisions then ds else price_candidates costs t ds)" and "cs \<noteq> []"
proof -
  from assms have "rq_AuthorizedRoutes r \<noteq> []" by (auto simp: resolve_def Let_def)
  moreover from assms obtain ds where "request_Validate r = None"
    and d: "resolveAuthorizedRoutes quoted snapshot (at_RequestID (rq_Attribution r)) (rq_AuthorizedRoutes r) t = Inr ds"
    and cs: "cs = (if cm_APIFormat (rq_Client r) \<noteq> APIFormatDecisions then ds else price_candidates costs t ds)"
    and p: "cm_APIFormat (rq_Client r) = APIFormatDecisions \<longrightarrow> price_candidates costs t ds \<noteq> []"
    by (auto simp: resolve_def Let_def split: if_splits option.splits sum.splits list.splits)
  moreover have "length ds = length (rq_AuthorizedRoutes r)"
    using resolve_routes_authorized [OF d [unfolded resolveAuthorizedRoutes_def]] by (auto dest: list_all2_lengthD)
  ultimately have "cs \<noteq> []" by (cases ds) (auto split: if_splits)
  with that \<open>request_Validate r = None\<close> d cs show ?thesis by blast
qed

section \<open>Properties\<close>

text \<open>
  C3: Resolution adds, reorders and corrects nothing. The candidates of a request that resolves are,
  one by one and in order, entries of its signed list: all of them, or for decisions those with a
  reviewed price ceiling, which they then carry. Each candidate is the inventory's own row for
  that entry, with the entry's provider, regions, customer credential and funding ceiling, and no
  model line appears with two revisions.
\<close>

theorem resolve_keeps_signed_list:
  assumes "resolve quoted describe snapshot costs r t = Inr cs"
  shows "cs \<noteq> [] \<and> one_revision cs \<and>
    (\<exists>as. subseq as (rq_AuthorizedRoutes r) \<and> list_all2 (authorized_by snapshot t) cs as \<and>
       (cm_APIFormat (rq_Client r) \<noteq> APIFormatDecisions \<longrightarrow> as = rq_AuthorizedRoutes r) \<and>
       (cm_APIFormat (rq_Client r) = APIFormatDecisions \<longrightarrow>
          list_all (\<lambda>c. ro_DecisionPriceLimit (cn_route c) \<noteq> None \<and>
            ro_DecisionPriceLimit (cn_route c) = DecisionPriceLimit costs (ro_DeploymentID (cn_route c)) t) cs))"
proof -
  from assms obtain ds where d: "resolve_routes quoted snapshot (at_RequestID (rq_Attribution r)) t 0 [] (rq_AuthorizedRoutes r) = Inr ds"
    and cs: "cs = (if cm_APIFormat (rq_Client r) \<noteq> APIFormatDecisions then ds else price_candidates costs t ds)" and n: "cs \<noteq> []"
    by (rule resolveE) (simp add: resolveAuthorizedRoutes_def)
  note a = resolve_routes_authorized [OF d]
  show ?thesis
  proof (cases "cm_APIFormat (rq_Client r) = APIFormatDecisions")
    case False
    with a cs n show ?thesis by (auto intro!: exI [of _ "rq_AuthorizedRoutes r"])
  next
    case True
    then have p: "cs = price_candidates costs t ds" using cs by simp
    have "one_revision cs" unfolding one_revision_def p
    proof (intro ballI impI)
      fix c d
      assume "c \<in> set (price_candidates costs t ds)" "d \<in> set (price_candidates costs t ds)"
        and m: "ModelID (ro_ModelReference (cn_route c)) = ModelID (ro_ModelReference (cn_route d))"
      then obtain c' d' where "c' \<in> set ds" "ro_ModelReference (cn_route c) = ro_ModelReference (cn_route c')"
        "d' \<in> set ds" "ro_ModelReference (cn_route d) = ro_ModelReference (cn_route d')"
        using price_candidates_limit by metis
      with a m show "ro_ModelReference (cn_route c) = ro_ModelReference (cn_route d)"
        unfolding one_revision_def by metis
    qed
    moreover obtain as where "subseq as (rq_AuthorizedRoutes r)" "list_all2 (authorized_by snapshot t) cs as"
      using price_candidates_authorized a unfolding p by metis
    moreover have "list_all (\<lambda>c. ro_DecisionPriceLimit (cn_route c) \<noteq> None \<and>
        ro_DecisionPriceLimit (cn_route c) = DecisionPriceLimit costs (ro_DeploymentID (cn_route c)) t) cs"
      unfolding p list_all_iff using price_candidates_limit by fastforce
    ultimately show ?thesis using n True by blast
  qed
qed

theorem resolve_keeps_signed_list_witness:
  "one_revision demo_candidates \<and> (\<exists>as. subseq as (rq_AuthorizedRoutes demo_envelope) \<and>
     list_all2 (authorized_by demo_inventory 63902822400000000001) demo_candidates as)"
proof -
  have "resolve (\<lambda>s. s) (\<lambda>_. []) demo_inventory None demo_envelope 63902822400000000001 = Inr demo_candidates"
    by code_simp
  from resolve_keeps_signed_list [OF this] show ?thesis by blast
qed

end
