(* ===== verification/Usage_Estimate.thy ===== *)
theory Usage_Estimate
  imports Contract_Request
begin

text \<open>
  \<open>internal/kaana/usage_estimate.go\<close>: the fallback count of tokens for a provider that reports no
  usage. Counters are unbounded, where the code's are 64-bit; they count characters of a request
  that was held in memory.
\<close>

datatype delta_channel =
  ChannelOutputText | ChannelReasoning | ChannelRefusal | ChannelOutputAudioTranscript | OtherChannel string

record token_estimate =
  asciiCharacters :: int
  nonASCIICharacters :: int

record usage_estimate =
  est_input :: token_estimate
  est_output :: token_estimate
  est_reasoning :: token_estimate
  outputDelivered :: bool

definition no_tokens :: token_estimate where
  "no_tokens = \<lparr>asciiCharacters = 0, nonASCIICharacters = 0\<rparr>"

text \<open>A byte that starts no rune decodes as U+FFFD of width 1, which is not ASCII.\<close>

function tokens_add :: "token_estimate \<Rightarrow> string \<Rightarrow> token_estimate" where
  "tokens_add e [] = e"
| "tokens_add e (c # cs) =
     (case rune_width (c # cs) of
        None \<Rightarrow> tokens_add (e\<lparr>nonASCIICharacters := nonASCIICharacters e + 1\<rparr>) cs
      | Some w \<Rightarrow>
          if byte_of c < 128
          then tokens_add (e\<lparr>asciiCharacters := asciiCharacters e + 1\<rparr>) (drop w (c # cs))
          else tokens_add (e\<lparr>nonASCIICharacters := nonASCIICharacters e + 1\<rparr>) (drop w (c # cs)))"
  by pat_completeness auto
termination
  by (relation "measure (\<lambda>(e, s). length s)") (auto simp del: rune_width.simps dest: rune_width_bounds)

definition tokens :: "token_estimate \<Rightarrow> int" where
  "tokens e = (asciiCharacters e + 3) div 4 + nonASCIICharacters e"

definition add_optional :: "token_estimate \<Rightarrow> string option \<Rightarrow> token_estimate" where
  "add_optional e s = (case s of Some x \<Rightarrow> tokens_add e x | None \<Rightarrow> e)"

definition addJSON :: "token_estimate \<Rightarrow> json \<Rightarrow> token_estimate" where
  "addJSON e v = tokens_add e (json_Marshal v)"

definition add_part :: "token_estimate \<Rightarrow> content_part \<Rightarrow> token_estimate" where
  "add_part e p =
     (case cp_Type p of
        ContentPartText \<Rightarrow> add_optional e (cp_Text p)
      | ContentPartRefusal \<Rightarrow> add_optional e (cp_Text p)
      | ContentPartFile \<Rightarrow> add_optional e (cp_Filename p)
      | _ \<Rightarrow> e)"

definition add_message :: "token_estimate \<Rightarrow> message \<Rightarrow> token_estimate" where
  "add_message e m =
     (let e1 = add_optional (add_optional (tokens_add e (role_text (msg_Role m))) (msg_Name m)) (msg_ToolCallID m);
          e2 = foldl add_part e1 (msg_Content m)
      in foldl (\<lambda>e c. tokens_add (tokens_add e (tc_Name c)) (tc_Arguments c)) e2 (slice (msg_ToolCalls m)))"

definition add_input :: "token_estimate \<Rightarrow> input \<Rightarrow> token_estimate" where
  "add_input e i =
     (case in_Format i of
        InputMessages \<Rightarrow> foldl add_message e (slice (in_Messages i))
      | InputText \<Rightarrow> add_optional e (in_Text i)
      | InputTextBatch \<Rightarrow> foldl tokens_add e (slice (in_Texts i))
      | _ \<Rightarrow> e)"

definition add_tool :: "token_estimate \<Rightarrow> tool_definition \<Rightarrow> token_estimate" where
  "add_tool e t = addJSON (add_optional (tokens_add e (td_Name t)) (td_Description t)) (td_Parameters t)"

definition add_tool_choice :: "token_estimate \<Rightarrow> tool_choice \<Rightarrow> token_estimate" where
  "add_tool_choice e c =
     add_optional (add_optional e (map_option tool_choice_text (tch_Mode c))) (tch_Function c)"

definition add_response_format :: "token_estimate \<Rightarrow> response_format \<Rightarrow> token_estimate" where
  "add_response_format e f =
     addJSON (add_optional (tokens_add e (response_format_text (rf_Type f))) (rf_Name f)) (rf_Schema f)"

definition newUsageEstimate :: "request \<Rightarrow> usage_estimate" where
  "newUsageEstimate r =
     (let e1 = add_input no_tokens (rq_Input r);
          e2 = foldl add_tool e1 (rq_Tools r);
          e3 = (case rq_ToolChoice r of Some c \<Rightarrow> add_tool_choice e2 c | None \<Rightarrow> e2);
          e4 = (case rq_ResponseFormat r of Some f \<Rightarrow> add_response_format e3 f | None \<Rightarrow> e3)
      in \<lparr>est_input = e4, est_output = no_tokens, est_reasoning = no_tokens, outputDelivered = False\<rparr>)"

definition addDelta :: "usage_estimate \<Rightarrow> delta_channel \<Rightarrow> string \<Rightarrow> usage_estimate" where
  "addDelta e channel s =
     (let e1 = (if s \<noteq> [] then e\<lparr>outputDelivered := True\<rparr> else e)
      in if channel = ChannelReasoning then e1\<lparr>est_reasoning := tokens_add (est_reasoning e1) s\<rparr>
         else e1\<lparr>est_output := tokens_add (est_output e1) s\<rparr>)"

definition addToolCall :: "usage_estimate \<Rightarrow> string \<Rightarrow> string \<Rightarrow> usage_estimate" where
  "addToolCall e name arguments =
     e\<lparr>outputDelivered := True, est_output := tokens_add (tokens_add (est_output e) name) arguments\<rparr>"

definition quantity :: "usage_unit \<Rightarrow> int \<Rightarrow> usage_quantity" where
  "quantity u n = \<lparr>uq_Unit = u, uq_Quantity = n\<rparr>"

definition positive_unit :: "usage_unit \<Rightarrow> token_estimate \<Rightarrow> usage_quantity list" where
  "positive_unit u e = (if tokens e > 0 then [quantity u (tokens e)] else [])"

definition estimate_units :: "usage_estimate \<Rightarrow> usage_quantity list" where
  "estimate_units e =
     [quantity UnitRequests 1] @ positive_unit UnitInputTokens (est_input e) @
     positive_unit UnitOutputTokens (est_output e) @ positive_unit UnitReasoningTokens (est_reasoning e)"

text \<open>The position map is filled in order, so a repeated unit is found at its last position.\<close>

fun last_position :: "usage_unit \<Rightarrow> usage_quantity list \<Rightarrow> nat option" where
  "last_position u [] = None"
| "last_position u (q # qs) =
     (case last_position u qs of
        Some i \<Rightarrow> Some (Suc i)
      | None \<Rightarrow> if uq_Unit q = u then Some 0 else None)"

definition supplement_one :: "usage_quantity \<Rightarrow> usage_quantity list \<Rightarrow> usage_quantity list" where
  "supplement_one estimated result =
     (case last_position (uq_Unit estimated) result of
        None \<Rightarrow> result @ [estimated]
      | Some i \<Rightarrow>
          if (uq_Unit estimated = UnitOutputTokens \<or> uq_Unit estimated = UnitReasoningTokens) \<and>
             uq_Quantity estimated > uq_Quantity (result ! i)
          then result[i := (result ! i)\<lparr>uq_Quantity := uq_Quantity estimated\<rparr>] else result)"

definition supplement :: "usage_estimate \<Rightarrow> usage_quantity list \<Rightarrow> usage_quantity list" where
  "supplement e units = fold supplement_one (estimate_units e) units"

section \<open>Specification\<close>

text \<open>A unit list as the quantities it states, and what supplementing one statement with another means.\<close>

definition unit_quantity :: "usage_quantity list \<Rightarrow> usage_unit \<rightharpoonup> int" where
  "unit_quantity qs = map_of (map (\<lambda>q. (uq_Unit q, uq_Quantity q)) qs)"

fun strongest_evidence :: "usage_unit \<Rightarrow> int option \<Rightarrow> int option \<Rightarrow> int option" where
  "strongest_evidence u None estimated = estimated"
| "strongest_evidence u (Some reported) None = Some reported"
| "strongest_evidence u (Some reported) (Some estimated) =
     Some (if u = UnitOutputTokens \<or> u = UnitReasoningTokens then max reported estimated else reported)"

section \<open>Lemmas\<close>

definition tokens_ok :: "token_estimate \<Rightarrow> bool" where
  "tokens_ok e \<longleftrightarrow> 0 \<le> asciiCharacters e \<and> 0 \<le> nonASCIICharacters e"

lemma tokens_add_mono:
  "asciiCharacters e \<le> asciiCharacters (tokens_add e s) \<and> nonASCIICharacters e \<le> nonASCIICharacters (tokens_add e s)"
  by (induction e s rule: tokens_add.induct) (force split: option.splits simp del: rune_width.simps)+

lemma tokens_add_ok: "tokens_ok e \<Longrightarrow> tokens_ok (tokens_add e s)"
  using tokens_add_mono [of e s] by (auto simp: tokens_ok_def)

lemma tokens_nonneg: "tokens_ok e \<Longrightarrow> 0 \<le> tokens e"
  by (auto simp: tokens_ok_def tokens_def pos_imp_zdiv_nonneg_iff)

lemma estimate_units_distinct: "distinct (map uq_Unit (estimate_units e))"
  by (auto simp: estimate_units_def positive_unit_def quantity_def)

lemma last_position_None: "last_position u qs = None \<longleftrightarrow> u \<notin> uq_Unit ` set qs"
  by (induction qs) (auto split: option.splits)

lemma last_position_Some: "last_position u qs = Some i \<Longrightarrow> i < length qs \<and> uq_Unit (qs ! i) = u"
  by (induction qs arbitrary: i) (auto split: option.splits if_splits)

lemma unit_quantity_nth:
  "distinct (map uq_Unit qs) \<Longrightarrow> i < length qs \<Longrightarrow> unit_quantity qs (uq_Unit (qs ! i)) = Some (uq_Quantity (qs ! i))"
  unfolding unit_quantity_def by (rule map_of_is_SomeI) (auto simp: comp_def)

lemma unit_quantity_None: "unit_quantity qs u = None \<longleftrightarrow> u \<notin> uq_Unit ` set qs"
  by (auto simp: unit_quantity_def map_of_eq_None_iff image_iff)

lemma unit_quantity_update:
  "distinct (map uq_Unit qs) \<Longrightarrow> i < length qs \<Longrightarrow>
   unit_quantity (qs[i := (qs ! i)\<lparr>uq_Quantity := n\<rparr>]) = (unit_quantity qs)(uq_Unit (qs ! i) \<mapsto> n)"
proof (induction qs arbitrary: i)
  case (Cons q qs)
  then show ?case
  proof (cases i)
    case (Suc j)
    with Cons have "uq_Unit q \<noteq> uq_Unit (qs ! j)" by auto
    with Cons Suc show ?thesis by (auto simp: unit_quantity_def fun_eq_iff)
  qed (auto simp: unit_quantity_def fun_eq_iff)
qed simp

lemma map_unit_update: "i < length qs \<Longrightarrow> map uq_Unit (qs[i := (qs ! i)\<lparr>uq_Quantity := n\<rparr>]) = map uq_Unit qs"
  by (simp add: map_update list_update_same_conv)

lemma supplement_one_units:
  "map uq_Unit (supplement_one x qs) =
     map uq_Unit qs @ (if uq_Unit x \<in> uq_Unit ` set qs then [] else [uq_Unit x])"
  using last_position_None [of "uq_Unit x" qs] last_position_Some [of "uq_Unit x" qs]
  by (auto simp: supplement_one_def map_unit_update split: option.splits)

lemma supplement_one_distinct:
  "distinct (map uq_Unit qs) \<Longrightarrow> distinct (map uq_Unit (supplement_one x qs))"
  unfolding supplement_one_units by auto

lemma supplement_one_quantity:
  assumes "distinct (map uq_Unit qs)"
  shows "unit_quantity (supplement_one x qs) u =
    (if u = uq_Unit x then strongest_evidence u (unit_quantity qs u) (Some (uq_Quantity x)) else unit_quantity qs u)"
proof (cases "last_position (uq_Unit x) qs")
  case None
  then have "unit_quantity qs (uq_Unit x) = None" by (simp add: unit_quantity_None last_position_None)
  then show ?thesis using None
    by (auto simp: supplement_one_def unit_quantity_def map_add_def split: option.splits)
next
  case (Some i)
  note i = last_position_Some [OF Some]
  with unit_quantity_nth [OF assms, of i] have q: "unit_quantity qs (uq_Unit x) = Some (uq_Quantity (qs ! i))" by simp
  then show ?thesis using Some i assms
    by (auto simp: supplement_one_def unit_quantity_update max_def)
qed

lemma fold_supplement_distinct:
  "distinct (map uq_Unit qs) \<Longrightarrow> distinct (map uq_Unit (fold supplement_one es qs))"
  by (induction es arbitrary: qs) (auto simp: supplement_one_distinct)

lemma fold_supplement_prefix: "\<exists>us. map uq_Unit (fold supplement_one es qs) = map uq_Unit qs @ us"
proof (induction es arbitrary: qs)
  case (Cons x es)
  from Cons.IH [of "supplement_one x qs"] show ?case by (auto simp: supplement_one_units)
qed simp

lemma fold_supplement_quantity:
  "distinct (map uq_Unit es) \<Longrightarrow> distinct (map uq_Unit qs) \<Longrightarrow>
   unit_quantity (fold supplement_one es qs) u = strongest_evidence u (unit_quantity qs u) (unit_quantity es u)"
proof (induction es arbitrary: qs)
  case Nil
  then show ?case by (cases "unit_quantity qs u") (simp_all add: unit_quantity_def)
next
  case (Cons x es)
  have e: "unit_quantity (x # es) u = (if u = uq_Unit x then Some (uq_Quantity x) else unit_quantity es u)"
    by (simp add: unit_quantity_def)
  have n: "u = uq_Unit x \<Longrightarrow> unit_quantity es u = None" using Cons.prems(1) by (auto simp: unit_quantity_None)
  have "unit_quantity (fold supplement_one (x # es) qs) u =
      strongest_evidence u (unit_quantity (supplement_one x qs) u) (unit_quantity es u)"
    using Cons supplement_one_distinct [of qs x] by simp
  then show ?case using n Cons.prems(2)
    by (cases "unit_quantity qs u") (auto simp: e supplement_one_quantity)
qed

section \<open>Properties\<close>

text \<open>
  C31: Supplementing reported units with the estimate. Reported units keep their positions and no
  unit is ever repeated; each unit's quantity is the strongest evidence for it: a reported input,
  media or request count stands, a reported output or reasoning count is raised to the
  reconstruction of what was delivered and never lowered, and a missing unit is filled in.
\<close>

theorem supplement_is_strongest_evidence:
  assumes "distinct (map uq_Unit units)"
  shows "distinct (map uq_Unit (supplement e units)) \<and>
    map uq_Unit (take (length units) (supplement e units)) = map uq_Unit units \<and>
    unit_quantity (supplement e units) u = strongest_evidence u (unit_quantity units u) (unit_quantity (estimate_units e) u)"
proof -
  obtain us where us: "map uq_Unit (supplement e units) = map uq_Unit units @ us"
    using fold_supplement_prefix unfolding supplement_def by blast
  then have "map uq_Unit (take (length units) (supplement e units)) = map uq_Unit units"
    by (simp add: take_map [symmetric] us)
  then show ?thesis
    using fold_supplement_distinct [OF assms] fold_supplement_quantity [OF estimate_units_distinct assms]
    by (simp add: supplement_def)
qed

theorem supplement_is_strongest_evidence_witness:
  "unit_quantity (supplement
      (addDelta \<lparr>est_input = no_tokens, est_output = no_tokens, est_reasoning = no_tokens, outputDelivered = False\<rparr>
        ChannelOutputText ''hello'') [quantity UnitInputTokens 9, quantity UnitOutputTokens 1]) UnitOutputTokens = Some 2"
proof -
  let ?e = "addDelta \<lparr>est_input = no_tokens, est_output = no_tokens, est_reasoning = no_tokens, outputDelivered = False\<rparr>
    ChannelOutputText ''hello''"
  let ?u = "[quantity UnitInputTokens 9, quantity UnitOutputTokens 1]"
  have d: "distinct (map uq_Unit ?u)" by (simp add: quantity_def)
  have "strongest_evidence UnitOutputTokens (unit_quantity ?u UnitOutputTokens)
      (unit_quantity (estimate_units ?e) UnitOutputTokens) = Some 2" by code_simp
  then show ?thesis using supplement_is_strongest_evidence [OF d, of ?e UnitOutputTokens] by simp
qed

end
