(* ===== verification/Emitter.thy ===== *)
theory Emitter
  imports Usage_Estimate Provider_Failure Parameters
begin

text \<open>
  The event stream: the event shapes of \<open>internal/contract/stream.go\<close> and the emitter of
  \<open>internal/kaana/emitter.go\<close>, which frames what an adapter reports, defers the start event until
  there is output, and enforces the order of events.

  The sink is a parameter, a function of what it was offered before and of the event offered now,
  that answers with an error or none. The emitter's \<open>em_log\<close> is a history variable: every event
  offered to the sink, oldest first, with whether it was accepted. Each operation returns the
  error of the Go method and the emitter after the call. The sequence counter is unbounded.
\<close>

section \<open>Events\<close>

datatype finish_reason =
    FinishStop | FinishLength | FinishToolCalls | FinishContentFilter | FinishRefusal | FinishCancelled
  | OtherFinish string

datatype route_switch_reason =
    SwitchDeploymentUnavailable | SwitchProviderError | SwitchProviderTimeout | SwitchProviderOverloaded
  | SwitchRateLimited | SwitchCapacity | SwitchPolicyPreference

datatype stream_event_type =
  EventStart | EventDelta | EventAudio | EventToolCall | EventUsage | EventRouteSwitch | EventError | EventDone

datatype route_switch_detail =
    SwitchScopeDeployment provider_slug model_reference deployment_id
  | SwitchScopeModel provider_slug model_id model_reference model_reference

text \<open>
  What each kind of event carries besides its framing. A model-scope switch always has
  \<open>authorizedByPolicy\<close> set, the only value its constructor in the code gives it.
\<close>

datatype event_body =
    StreamStartEvent "string option" model_reference provider_slug timestamp
  | StreamDeltaEvent int delta_channel string
  | StreamAudioEvent int string string
  | StreamToolCallEvent string "string option" "string option" bool
  | StreamUsageEvent deployment_id "usage_quantity list" usage_source
  | StreamRouteSwitchEvent route_switch_reason route_switch_detail timestamp
  | StreamErrorEvent contract_error
  | StreamDoneEvent "string option" finish_reason timestamp

record stream_event =
  ev_SchemaVersion :: int
  ev_RequestID :: request_id
  ev_Seq :: int
  ev_Body :: event_body

fun EventType :: "event_body \<Rightarrow> stream_event_type" where
  "EventType (StreamStartEvent _ _ _ _) = EventStart"
| "EventType (StreamDeltaEvent _ _ _) = EventDelta"
| "EventType (StreamAudioEvent _ _ _) = EventAudio"
| "EventType (StreamToolCallEvent _ _ _ _) = EventToolCall"
| "EventType (StreamUsageEvent _ _ _) = EventUsage"
| "EventType (StreamRouteSwitchEvent _ _ _) = EventRouteSwitch"
| "EventType (StreamErrorEvent _) = EventError"
| "EventType (StreamDoneEvent _ _ _) = EventDone"

definition StreamUsageEventSchemaVersion :: int where
  "StreamUsageEventSchemaVersion = 2"

definition audioMediaTypeValues :: "string list" where
  "audioMediaTypeValues = [''audio/mpeg'', ''audio/wav'', ''audio/ogg'', ''audio/aac'', ''audio/flac'', ''audio/pcm'']"

definition MaxAudioChunkBytes :: int where
  "MaxAudioChunkBytes = 49152"

record tool_call_delta =
  tcd_ID :: string
  tcd_Name :: string
  tcd_ArgumentsDelta :: string
  tcd_Complete :: bool

section \<open>State\<close>

type_synonym event_log = "(stream_event \<times> bool) list"

type_synonym sink = "event_log \<Rightarrow> stream_event \<Rightarrow> go_error option"

record emitter =
  em_requestID :: request_id
  em_generationID :: "string option"
  em_provider :: provider_slug
  em_deployment :: deployment_id
  em_sequence :: int
  em_started :: bool
  em_attemptStarted :: bool
  em_pendingStart :: "stream_event option"
  em_pending :: "stream_event list"
  em_terminated :: bool
  em_sinkFailed :: bool
  em_firstOutputAt :: instant
  em_attemptOutputAt :: instant
  em_admittedAt :: instant
  em_estimate :: usage_estimate
  em_log :: event_log

type_synonym emitted = "go_error option \<times> emitter"

definition newEmitter :: "request \<Rightarrow> string option \<Rightarrow> instant \<Rightarrow> emitter" where
  "newEmitter r generationID admittedAt =
     \<lparr>em_requestID = at_RequestID (rq_Attribution r), em_generationID = generationID, em_provider = '''',
      em_deployment = '''', em_sequence = 0, em_started = False, em_attemptStarted = False, em_pendingStart = None,
      em_pending = [], em_terminated = False, em_sinkFailed = False, em_firstOutputAt = zero_time,
      em_attemptOutputAt = zero_time, em_admittedAt = admittedAt, em_estimate = newUsageEstimate r, em_log = []\<rparr>"

section \<open>Operations\<close>

definition serving :: "provider_slug \<Rightarrow> deployment_id \<Rightarrow> emitter \<Rightarrow> emitter" where
  "serving slug deployment e =
     e\<lparr>em_provider := slug, em_deployment := deployment, em_attemptOutputAt := zero_time,
       em_attemptStarted := False, em_pendingStart := None, em_pending := []\<rparr>"

definition markOutput :: "instant \<Rightarrow> emitter \<Rightarrow> emitter" where
  "markOutput now e =
     e\<lparr>em_firstOutputAt := (if em_firstOutputAt e = zero_time then now else em_firstOutputAt e),
       em_attemptOutputAt := (if em_attemptOutputAt e = zero_time then now else em_attemptOutputAt e)\<rparr>"

definition emitter_next :: "emitter \<Rightarrow> int \<times> emitter" where
  "emitter_next e = (em_sequence e, e\<lparr>em_sequence := em_sequence e + 1\<rparr>)"

definition emitter_send :: "sink \<Rightarrow> stream_event \<Rightarrow> emitter \<Rightarrow> emitted" where
  "emitter_send sink event e =
     (if em_terminated e then (Some (ErrOther ''kaana: an event follows a terminal event''), e)
      else let err = sink (em_log e) event
           in (err, e\<lparr>em_sinkFailed := (em_sinkFailed e \<or> err \<noteq> None), em_log := em_log e @ [(event, err = None)]\<rparr>))"

definition frame :: "emitter \<Rightarrow> int \<Rightarrow> event_body \<Rightarrow> stream_event" where
  "frame e seq body =
     \<lparr>ev_SchemaVersion = (if EventType body = EventUsage then StreamUsageEventSchemaVersion else SchemaVersion),
      ev_RequestID = em_requestID e, ev_Seq = seq, ev_Body = body\<rparr>"

text \<open>Building an event with the next sequence number and sending it.\<close>

definition send_next :: "sink \<Rightarrow> event_body \<Rightarrow> emitter \<Rightarrow> emitted" where
  "send_next sink body e =
     (let (seq, e1) = emitter_next e in emitter_send sink (frame e1 seq body) e1)"

definition stampSequence :: "stream_event \<Rightarrow> int \<Rightarrow> stream_event" where
  "stampSequence event seq =
     (case ev_Body event of
        StreamUsageEvent _ _ _ \<Rightarrow> event\<lparr>ev_Seq := seq\<rparr>
      | StreamDeltaEvent _ _ _ \<Rightarrow> event\<lparr>ev_Seq := seq\<rparr>
      | _ \<Rightarrow> event)"

definition send_stamped :: "sink \<Rightarrow> stream_event \<Rightarrow> emitter \<Rightarrow> emitted" where
  "send_stamped sink event e =
     (let (seq, e1) = emitter_next e in emitter_send sink (stampSequence event seq) e1)"

definition sendOrHold :: "sink \<Rightarrow> stream_event \<Rightarrow> emitter \<Rightarrow> emitted" where
  "sendOrHold sink event e =
     (if em_started e then send_stamped sink event e
      else (None, e\<lparr>em_pending := em_pending e @ [event]\<rparr>))"

fun send_held :: "sink \<Rightarrow> stream_event list \<Rightarrow> emitter \<Rightarrow> emitted" where
  "send_held sink [] e = (None, e)"
| "send_held sink (event # held) e =
     (case send_stamped sink event e of
        (Some err, e1) \<Rightarrow> (Some err, e1)
      | (None, e1) \<Rightarrow> send_held sink held e1)"

definition emitter_commit :: "sink \<Rightarrow> emitter \<Rightarrow> emitted" where
  "emitter_commit sink e =
     (if em_started e then (None, e)
      else case em_pendingStart e of
             None \<Rightarrow> (Some (ErrOther ''kaana: an attempt committed without a start event''), e)
           | Some start \<Rightarrow>
               let held = em_pending e;
                   e1 = e\<lparr>em_started := True, em_pendingStart := None, em_pending := []\<rparr>;
                   (seq, e2) = emitter_next e1
               in case emitter_send sink (start\<lparr>ev_Seq := seq\<rparr>) e2 of
                    (Some err, e3) \<Rightarrow> (Some err, e3)
                  | (None, e3) \<Rightarrow> send_held sink held e3)"

definition emitter_Start :: "model_reference \<Rightarrow> instant \<Rightarrow> emitter \<Rightarrow> emitted" where
  "emitter_Start resolved started e =
     (if em_started e \<or> em_attemptStarted e
      then (Some (ErrOther ''kaana: an adapter emitted a second start event''), e)
      else if \<not> Pinned resolved
      then (Some (ErrOther ''kaana: the resolved model reference is not revision-pinned''), e)
      else (None, e\<lparr>em_attemptStarted := True,
        em_pendingStart := Some (frame e 0
          (StreamStartEvent (em_generationID e) resolved (em_provider e) (NewTimestamp started)))\<rparr>))"

definition requireStarted :: "emitter \<Rightarrow> go_error option" where
  "requireStarted e =
     (if \<not> em_attemptStarted e then Some (ErrOther ''kaana: an event precedes the start event of the stream'') else None)"

text \<open>A commit, an event with the next sequence number, and what a delivered event adds to the estimate.\<close>

definition deliver :: "sink \<Rightarrow> event_body \<Rightarrow> (usage_estimate \<Rightarrow> usage_estimate) \<Rightarrow> emitter \<Rightarrow> emitted" where
  "deliver sink body count e =
     (case emitter_commit sink e of
        (Some err, e1) \<Rightarrow> (Some err, e1)
      | (None, e1) \<Rightarrow>
          (case send_next sink body e1 of
             (Some err, e2) \<Rightarrow> (Some err, e2)
           | (None, e2) \<Rightarrow> (None, e2\<lparr>em_estimate := count (em_estimate e2)\<rparr>)))"

definition emitter_Delta :: "sink \<Rightarrow> instant \<Rightarrow> int \<Rightarrow> delta_channel \<Rightarrow> string \<Rightarrow> emitter \<Rightarrow> emitted" where
  "emitter_Delta sink now outputIndex channel chunk e =
     (case requireStarted e of
        Some err \<Rightarrow> (Some err, e)
      | None \<Rightarrow>
          if outputIndex < 0 then (Some (ErrOther ''kaana: output index is negative''), e)
          else if chunk = []
          then sendOrHold sink (frame e 0 (StreamDeltaEvent outputIndex channel chunk)) e
          else deliver sink (StreamDeltaEvent outputIndex channel chunk) (\<lambda>u. addDelta u channel chunk)
                 (markOutput now e))"

definition emitter_ToolCall :: "sink \<Rightarrow> tool_call_delta \<Rightarrow> emitter \<Rightarrow> emitted" where
  "emitter_ToolCall sink call e =
     (case requireStarted e of
        Some err \<Rightarrow> (Some err, e)
      | None \<Rightarrow>
          if tcd_ID call = '''' then (Some (ErrOther ''kaana: a tool-call event carries no tool call id''), e)
          else deliver sink
                 (StreamToolCallEvent (tcd_ID call) (if tcd_Name call \<noteq> '''' then Some (tcd_Name call) else None)
                    (if tcd_ArgumentsDelta call \<noteq> '''' then Some (tcd_ArgumentsDelta call) else None) (tcd_Complete call))
                 (\<lambda>u. addToolCall u (tcd_Name call) (tcd_ArgumentsDelta call)) e)"

definition emitter_Audio :: "sink \<Rightarrow> instant \<Rightarrow> int \<Rightarrow> string \<Rightarrow> string \<Rightarrow> emitter \<Rightarrow> emitted" where
  "emitter_Audio sink now outputIndex mediaType payload e =
     (case requireStarted e of
        Some err \<Rightarrow> (Some err, e)
      | None \<Rightarrow>
          if outputIndex < 0 \<or> length payload = 0 \<or> int (length payload) > MaxAudioChunkBytes
          then (Some (ErrOther ''kaana: invalid audio index or chunk size''), e)
          else if \<not> is_member mediaType audioMediaTypeValues
          then (Some (ErrOther ''kaana: unsupported audio media type''), e)
          else deliver sink (StreamAudioEvent outputIndex mediaType (base64_encode payload))
                 (\<lambda>u. u\<lparr>outputDelivered := True\<rparr>) (markOutput now e))"

definition emitter_Usage :: "sink \<Rightarrow> usage_quantity list \<Rightarrow> usage_source \<Rightarrow> emitter \<Rightarrow> emitted" where
  "emitter_Usage sink units source e =
     (case requireStarted e of
        Some err \<Rightarrow> (Some err, e)
      | None \<Rightarrow>
          if units = [] then (Some (ErrOther ''kaana: a usage event must carry at least one unit''), e)
          else sendOrHold sink (frame e 0 (StreamUsageEvent (em_deployment e) units source)) e)"

definition hasDeliveredOutput :: "emitter \<Rightarrow> bool" where
  "hasDeliveredOutput e = outputDelivered (em_estimate e)"

definition routeSwitch ::
  "sink \<Rightarrow> route_switch_reason \<Rightarrow> model_id \<Rightarrow> route \<Rightarrow> route \<Rightarrow> instant \<Rightarrow> emitter \<Rightarrow> emitted" where
  "routeSwitch sink reason requestedModelID from to now e =
     (if em_started e then (Some (ErrSentinel ErrSwitchTooLate), e)
      else if ro_ModelReference from = ro_ModelReference to
      then send_next sink (StreamRouteSwitchEvent reason
             (SwitchScopeDeployment (ro_Provider to) (ro_ModelReference to) (ro_DeploymentID to)) (NewTimestamp now)) e
      else if ModelID (ro_ModelReference from) = ModelID (ro_ModelReference to)
      then (Some (ErrOther ''kaana: a route switch changes revision inside one model line''), e)
      else if \<not> model_id_Valid requestedModelID
      then (Some (ErrOther ''kaana: a cross-model route switch has no valid primary model line''), e)
      else send_next sink (StreamRouteSwitchEvent reason
             (SwitchScopeModel (ro_Provider to) requestedModelID (ro_ModelReference from) (ro_ModelReference to))
             (NewTimestamp now)) e)"

definition finishWithDone :: "sink \<Rightarrow> finish_reason \<Rightarrow> instant \<Rightarrow> emitter \<Rightarrow> emitted" where
  "finishWithDone sink reason now e =
     (case requireStarted e of
        Some err \<Rightarrow> (Some err, e)
      | None \<Rightarrow>
          (case emitter_commit sink e of
             (Some err, e1) \<Rightarrow> (Some err, e1)
           | (None, e1) \<Rightarrow>
               let (err, e2) = send_next sink (StreamDoneEvent (em_generationID e1) reason (NewTimestamp now)) e1
               in (err, e2\<lparr>em_terminated := True\<rparr>)))"

definition finishWithError :: "sink \<Rightarrow> contract_error \<Rightarrow> emitter \<Rightarrow> emitted" where
  "finishWithError sink failure e =
     (if em_terminated e then (Some (ErrOther ''kaana: an error event follows a terminal event''), e)
      else let (err, e1) = send_next sink (StreamErrorEvent failure) e
           in (err, e1\<lparr>em_terminated := True\<rparr>))"

definition timeToFirstToken :: "emitter \<Rightarrow> duration" where
  "timeToFirstToken e =
     (if em_firstOutputAt e = zero_time \<or> em_admittedAt e = zero_time then 0
      else time_sub (em_firstOutputAt e) (em_admittedAt e))"

text \<open>
  What an adapter may call through \<open>provider.Emitter\<close> (and the audio sink), with the clock reading
  of the call, and every call the emitter can receive.
\<close>

datatype adapter_call =
    CallStart model_reference instant
  | CallDelta int delta_channel string
  | CallToolCall tool_call_delta
  | CallUsage "usage_quantity list" usage_source
  | CallAudio int string string

fun adapter_apply :: "sink \<Rightarrow> instant \<Rightarrow> adapter_call \<Rightarrow> emitter \<Rightarrow> emitted" where
  "adapter_apply sink now (CallStart resolved started) e = emitter_Start resolved started e"
| "adapter_apply sink now (CallDelta i channel chunk) e = emitter_Delta sink now i channel chunk e"
| "adapter_apply sink now (CallToolCall call) e = emitter_ToolCall sink call e"
| "adapter_apply sink now (CallUsage units source) e = emitter_Usage sink units source e"
| "adapter_apply sink now (CallAudio i mediaType payload) e = emitter_Audio sink now i mediaType payload e"

datatype emitter_op =
    OpServing provider_slug deployment_id
  | OpAdapter instant adapter_call
  | OpRouteSwitch route_switch_reason model_id route route instant
  | OpDone finish_reason instant
  | OpError contract_error

fun emitter_apply :: "sink \<Rightarrow> emitter_op \<Rightarrow> emitter \<Rightarrow> emitted" where
  "emitter_apply sink (OpServing slug deployment) e = (None, serving slug deployment e)"
| "emitter_apply sink (OpAdapter now call) e = adapter_apply sink now call e"
| "emitter_apply sink (OpRouteSwitch reason line from to now) e = routeSwitch sink reason line from to now e"
| "emitter_apply sink (OpDone reason now) e = finishWithDone sink reason now e"
| "emitter_apply sink (OpError failure) e = finishWithError sink failure e"

definition emitter_run :: "sink \<Rightarrow> emitter_op list \<Rightarrow> emitter \<Rightarrow> emitter" where
  "emitter_run sink ops e = fold (\<lambda>op e. snd (emitter_apply sink op e)) ops e"

definition demo_ops :: "emitter_op list" where
  "demo_ops = [OpServing ''p'' ''d'', OpAdapter 1 (CallStart ''a/m@1'' 5),
     OpAdapter 2 (CallUsage [quantity UnitInputTokens 3] UsageProviderReported),
     OpAdapter 3 (CallDelta 0 ChannelOutputText []), OpServing ''q'' ''e'']"

section \<open>The stream grammar\<close>

text \<open>
  What the contract says of the order of events, as an automaton over the kinds of event: route
  switches, then at most one start, then output and usage, then one terminal event. An error may
  end the stream before it started; done may not.
\<close>

datatype stream_phase = Routing | Streaming | Ended

fun stream_step :: "stream_phase \<Rightarrow> stream_event_type \<Rightarrow> stream_phase option" where
  "stream_step Routing EventRouteSwitch = Some Routing"
| "stream_step Routing EventStart = Some Streaming"
| "stream_step Routing EventError = Some Ended"
| "stream_step Streaming EventDelta = Some Streaming"
| "stream_step Streaming EventAudio = Some Streaming"
| "stream_step Streaming EventToolCall = Some Streaming"
| "stream_step Streaming EventUsage = Some Streaming"
| "stream_step Streaming EventDone = Some Ended"
| "stream_step Streaming EventError = Some Ended"
| "stream_step _ _ = None"

fun stream_run :: "stream_phase \<Rightarrow> stream_event_type list \<Rightarrow> stream_phase option" where
  "stream_run p [] = Some p"
| "stream_run p (k # ks) = (case stream_step p k of Some q \<Rightarrow> stream_run q ks | None \<Rightarrow> None)"

definition phase_of :: "emitter \<Rightarrow> stream_phase" where
  "phase_of e = (if em_terminated e then Ended else if em_started e then Streaming else Routing)"

definition log_kinds :: "event_log \<Rightarrow> stream_event_type list" where
  "log_kinds l = map (\<lambda>x. EventType (ev_Body (fst x))) l"

fun is_output :: "event_body \<Rightarrow> bool" where
  "is_output (StreamDeltaEvent _ _ chunk) \<longleftrightarrow> chunk \<noteq> []"
| "is_output (StreamAudioEvent _ _ _) \<longleftrightarrow> True"
| "is_output (StreamToolCallEvent _ _ _ _) \<longleftrightarrow> True"
| "is_output _ \<longleftrightarrow> False"

definition output_accepted :: "event_log \<Rightarrow> bool" where
  "output_accepted l \<longleftrightarrow> (\<exists>x \<in> set l. snd x \<and> is_output (ev_Body (fst x)))"

section \<open>Lemmas\<close>

lemma stream_run_snoc: "stream_run p (ks @ [k]) = Option.bind (stream_run p ks) (\<lambda>q. stream_step q k)"
  by (induction p ks rule: stream_run.induct) (auto split: option.splits)

text \<open>The log is well framed and has brought the automaton to a phase.\<close>

definition framed :: "stream_phase \<Rightarrow> emitter \<Rightarrow> bool" where
  "framed p e \<longleftrightarrow>
     stream_run Routing (log_kinds (em_log e)) = Some p \<and>
     map (\<lambda>x. ev_Seq (fst x)) (em_log e) = map int [0..<length (em_log e)] \<and>
     (\<forall>x \<in> set (em_log e). ev_RequestID (fst x) = em_requestID e)"

definition held_ok :: "emitter \<Rightarrow> bool" where
  "held_ok e \<longleftrightarrow>
     (\<forall>s. em_pendingStart e = Some s \<longrightarrow> ev_RequestID s = em_requestID e \<and>
        (\<exists>g m t. ev_Body s = StreamStartEvent g m (em_provider e) t)) \<and>
     (\<forall>x \<in> set (em_pending e). ev_RequestID x = em_requestID e \<and> \<not> is_output (ev_Body x) \<and>
        (EventType (ev_Body x) = EventDelta \<or> (\<exists>us s. ev_Body x = StreamUsageEvent (em_deployment e) us s))) \<and>
     (em_started e \<longrightarrow> em_pendingStart e = None \<and> em_pending e = [])"

definition emitter_ok :: "emitter \<Rightarrow> bool" where
  "emitter_ok e \<longleftrightarrow> framed (phase_of e) e \<and> (\<not> em_terminated e \<longrightarrow> em_sequence e = int (length (em_log e))) \<and> held_ok e"

text \<open>Sending changes nothing but the log and the failure flag.\<close>

lemma emitter_send_cases:
  assumes "emitter_send sink event e = (err, e')"
  obtains (terminated) "em_terminated e" "e' = e" "err \<noteq> None"
  | (offered) "\<not> em_terminated e"
      "e' = e\<lparr>em_sinkFailed := (em_sinkFailed e \<or> err \<noteq> None), em_log := em_log e @ [(event, err = None)]\<rparr>"
  using assms by (auto simp: emitter_send_def Let_def split: if_splits)

lemma framed_offer:
  assumes "framed p e" and "stream_step p (EventType (ev_Body event)) = Some q"
    and "ev_Seq event = int (length (em_log e))" and "ev_RequestID event = em_requestID e"
    and "em_log e' = em_log e @ [(event, ok)]" and "em_requestID e' = em_requestID e"
  shows "framed q e'"
  using assms by (auto simp: framed_def log_kinds_def stream_run_snoc)

lemma framed_cong:
  "em_log e' = em_log e \<Longrightarrow> em_requestID e' = em_requestID e \<Longrightarrow> framed p e' = framed p e"
  by (simp add: framed_def)

lemma stamp_simps [simp]:
  "ev_Body (stampSequence x n) = ev_Body x" "ev_RequestID (stampSequence x n) = ev_RequestID x"
  "EventType (ev_Body x) = EventDelta \<Longrightarrow> ev_Seq (stampSequence x n) = n"
  "EventType (ev_Body x) = EventUsage \<Longrightarrow> ev_Seq (stampSequence x n) = n"
  by (cases "ev_Body x"; simp add: stampSequence_def)+

lemma frame_simps [simp]:
  "ev_Body (frame e n b) = b" "ev_RequestID (frame e n b) = em_requestID e" "ev_Seq (frame e n b) = n"
  by (simp_all add: frame_def)

text \<open>An event whose kind the current phase allows is sent without leaving the phase.\<close>

lemma send_in_phase:
  assumes "emitter_ok e" and "em_started e"
    and "em_terminated e \<or> stream_step (phase_of e) (EventType (ev_Body event)) = Some (phase_of e)"
    and "ev_Seq event = em_sequence e" and "ev_RequestID event = em_requestID e"
    and "emitter_send sink event (e\<lparr>em_sequence := em_sequence e + 1\<rparr>) = (err, e')"
  shows "emitter_ok e' \<and> em_started e'"
  using assms(6)
proof (cases rule: emitter_send_cases)
  case terminated
  with assms(1,2) show ?thesis by (simp add: emitter_ok_def held_ok_def phase_of_def framed_def)
next
  case offered
  have "framed (phase_of e) e'"
    by (rule framed_offer [of "phase_of e" e event]) (use offered assms(1,3-5) in \<open>simp_all add: emitter_ok_def\<close>)
  with offered assms(1,2) show ?thesis by (auto simp: emitter_ok_def held_ok_def phase_of_def)
qed

lemma send_routing:
  assumes "emitter_ok e" and "\<not> em_started e" and "EventType body = EventRouteSwitch"
    and "send_next sink body e = (err, e')"
  shows "emitter_ok e' \<and> \<not> em_started e'"
  using assms(4) unfolding send_next_def emitter_next_def prod.case Let_def
proof (cases rule: emitter_send_cases)
  case terminated
  with assms(1,2) show ?thesis by (simp add: emitter_ok_def held_ok_def phase_of_def framed_def)
next
  case offered
  then have p: "phase_of e = Routing" using assms(2) by (simp add: phase_of_def)
  have "framed Routing e'"
    by (rule framed_offer [of Routing e "frame e (em_sequence e) body"])
      (use offered assms(1,3) p in \<open>simp_all add: emitter_ok_def frame_def\<close>)
  with offered assms(1,2) show ?thesis by (auto simp: emitter_ok_def held_ok_def phase_of_def)
qed

lemma send_terminal:
  assumes "emitter_ok e" and "send_next sink body e = (err, e')"
    and "em_terminated e \<or> stream_step (phase_of e) (EventType body) = Some Ended"
  shows "emitter_ok (e'\<lparr>em_terminated := True\<rparr>)"
  using assms(2) unfolding send_next_def emitter_next_def prod.case Let_def
proof (cases rule: emitter_send_cases)
  case terminated
  with assms(1) show ?thesis by (simp add: emitter_ok_def held_ok_def phase_of_def framed_def)
next
  case offered
  have "framed Ended e'"
    by (rule framed_offer [of "phase_of e" e "frame e (em_sequence e) body"])
      (use offered assms(1,3) in \<open>simp_all add: emitter_ok_def frame_def\<close>)
  with offered assms(1) show ?thesis by (auto simp: emitter_ok_def held_ok_def phase_of_def framed_def)
qed

lemma send_next_streaming:
  assumes "emitter_ok e" and "em_started e" and "EventType body \<in> {EventDelta, EventAudio, EventToolCall, EventUsage}"
    and "send_next sink body e = (err, e')"
  shows "emitter_ok e' \<and> em_started e'"
proof (rule send_in_phase [OF assms(1,2)])
  show "emitter_send sink (frame e (em_sequence e) body) (e\<lparr>em_sequence := em_sequence e + 1\<rparr>) = (err, e')"
    using assms(4) by (simp add: send_next_def emitter_next_def frame_def)
qed (use assms(2,3) in \<open>auto simp: phase_of_def\<close>)

lemma send_stamped_ok:
  assumes "emitter_ok e" and "em_started e" and "EventType (ev_Body x) \<in> {EventDelta, EventUsage}"
    and "ev_RequestID x = em_requestID e" and "send_stamped sink x e = (err, e')"
  shows "emitter_ok e' \<and> em_started e' \<and> em_requestID e' = em_requestID e"
proof -
  have s: "emitter_send sink (stampSequence x (em_sequence e)) (e\<lparr>em_sequence := em_sequence e + 1\<rparr>) = (err, e')"
    using assms(5) by (simp add: send_stamped_def emitter_next_def)
  have "emitter_ok e' \<and> em_started e'"
    by (rule send_in_phase [OF assms(1,2) _ _ _ s]) (use assms(2-4) in \<open>auto simp: phase_of_def\<close>)
  moreover from s have "em_requestID e' = em_requestID e" by (cases rule: emitter_send_cases) auto
  ultimately show ?thesis by simp
qed

lemma send_held_ok:
  "emitter_ok e \<Longrightarrow> em_started e \<Longrightarrow>
   \<forall>x \<in> set held. EventType (ev_Body x) \<in> {EventDelta, EventUsage} \<and> ev_RequestID x = em_requestID e \<Longrightarrow>
   send_held sink held e = (err, e') \<Longrightarrow> emitter_ok e' \<and> em_started e'"
proof (induction held arbitrary: e)
  case (Cons x held)
  obtain err1 e1 where s: "send_stamped sink x e = (err1, e1)" by fastforce
  from send_stamped_ok [OF Cons.prems(1,2) _ _ s] Cons.prems(3)
  have ok: "emitter_ok e1" "em_started e1" "em_requestID e1 = em_requestID e" by auto
  with Cons.IH [OF ok(1,2)] Cons.prems(3,4) s show ?case by (cases err1) auto
qed simp

lemma EventUsage_body: "EventType b = EventUsage \<longleftrightarrow> (\<exists>d us s. b = StreamUsageEvent d us s)"
  by (cases b) auto

lemma emitter_commit_ok:
  assumes "emitter_ok e" and "emitter_commit sink e = (err, e')"
  shows "emitter_ok e' \<and> (err = None \<longrightarrow> em_started e')"
proof (cases "em_started e \<or> em_pendingStart e = None")
  case True
  with assms show ?thesis by (auto simp: emitter_commit_def split: if_splits)
next
  case False
  then obtain start where ns: "\<not> em_started e" and ps: "em_pendingStart e = Some start" by blast
  let ?e1 = "e\<lparr>em_started := True, em_pendingStart := None, em_pending := []\<rparr>"
  let ?e2 = "?e1\<lparr>em_sequence := em_sequence e + 1\<rparr>"
  obtain err1 e3 where s: "emitter_send sink (start\<lparr>ev_Seq := em_sequence e\<rparr>) ?e2 = (err1, e3)" by fastforce
  have held: "EventType (ev_Body x) \<in> {EventDelta, EventUsage} \<and> ev_RequestID x = em_requestID e"
    if "x \<in> set (em_pending e)" for x
    using assms(1) that by (auto simp: emitter_ok_def held_ok_def)
  from s have e3: "emitter_ok e3 \<and> em_started e3 \<and> em_requestID e3 = em_requestID e"
  proof (cases rule: emitter_send_cases)
    case terminated
    with assms(1) show ?thesis by (auto simp: emitter_ok_def held_ok_def phase_of_def framed_def)
  next
    case offered
    have "framed Streaming e3"
      by (rule framed_offer [of Routing e "start\<lparr>ev_Seq := em_sequence e\<rparr>"])
        (use offered assms(1) ns ps in \<open>auto simp: emitter_ok_def phase_of_def held_ok_def\<close>)
    with offered assms(1) show ?thesis by (auto simp: emitter_ok_def held_ok_def phase_of_def)
  qed
  show ?thesis
  proof (cases err1)
    case None
    then have "send_held sink (em_pending e) e3 = (err, e')"
      using assms(2) ns ps s by (simp add: emitter_commit_def emitter_next_def Let_def)
    with send_held_ok [of e3 "em_pending e" sink err e'] e3 held show ?thesis by auto
  next
    case (Some _)
    with assms(2) ns ps s e3 show ?thesis by (auto simp: emitter_commit_def emitter_next_def Let_def)
  qed
qed

lemma emitter_ok_update:
  "emitter_ok (e\<lparr>em_estimate := u\<rparr>) = emitter_ok e" "emitter_ok (markOutput now e) = emitter_ok e"
  by (auto simp: emitter_ok_def framed_def held_ok_def phase_of_def markOutput_def)

lemma deliver_ok:
  assumes "emitter_ok e" and "EventType body \<in> {EventDelta, EventAudio, EventToolCall}"
  shows "emitter_ok (snd (deliver sink body f e))"
proof -
  obtain err1 e1 where c: "emitter_commit sink e = (err1, e1)" by fastforce
  obtain err2 e2 where s: "send_next sink body e1 = (err2, e2)" by fastforce
  note ok = emitter_commit_ok [OF assms(1) c]
  show ?thesis
  proof (cases err1)
    case None
    with ok have "emitter_ok e2" using send_next_streaming [OF _ _ _ s] assms(2) by auto
    with None c s show ?thesis by (cases err2) (simp_all add: deliver_def emitter_ok_update)
  qed (use ok c in \<open>simp add: deliver_def\<close>)
qed

lemma sendOrHold_ok:
  assumes "emitter_ok e" and "ev_RequestID x = em_requestID e" and "\<not> is_output (ev_Body x)"
    and "EventType (ev_Body x) = EventDelta \<or> (\<exists>us s. ev_Body x = StreamUsageEvent (em_deployment e) us s)"
  shows "emitter_ok (snd (sendOrHold sink x e))"
proof (cases "em_started e")
  case True
  obtain err e' where s: "send_stamped sink x e = (err, e')" by fastforce
  with send_stamped_ok [OF assms(1) True _ assms(2) s] assms(4) True show ?thesis
    by (auto simp: sendOrHold_def)
next
  case False
  with assms show ?thesis
    by (auto simp: sendOrHold_def emitter_ok_def framed_def held_ok_def phase_of_def)
qed

lemma adapter_apply_ok: "emitter_ok e \<Longrightarrow> emitter_ok (snd (adapter_apply sink now call e))"
proof (cases call)
  case (CallStart resolved started)
  assume "emitter_ok e"
  with CallStart show ?thesis
    by (auto simp: emitter_Start_def emitter_ok_def framed_def held_ok_def phase_of_def)
qed (auto simp: emitter_Delta_def emitter_ToolCall_def emitter_Usage_def emitter_Audio_def requireStarted_def
    emitter_ok_update intro!: deliver_ok sendOrHold_ok)

lemma emitter_apply_ok: "emitter_ok e \<Longrightarrow> emitter_ok (snd (emitter_apply sink op e))"
proof (cases op)
  case (OpServing slug deployment)
  assume "emitter_ok e"
  with OpServing show ?thesis by (auto simp: serving_def emitter_ok_def framed_def held_ok_def phase_of_def)
next
  case (OpRouteSwitch reason line a b now)
  assume "emitter_ok e"
  then have "\<not> em_started e \<Longrightarrow> EventType body = EventRouteSwitch \<Longrightarrow> emitter_ok (snd (send_next sink body e))" for body
    using send_routing [of e body sink] by (cases "send_next sink body e") auto
  with OpRouteSwitch \<open>emitter_ok e\<close> show ?thesis by (simp add: routeSwitch_def)
next
  case (OpDone reason now)
  assume ok: "emitter_ok e"
  obtain err1 e1 where c: "emitter_commit sink e = (err1, e1)" by fastforce
  note ok1 = emitter_commit_ok [OF ok c]
  have "err1 = None \<Longrightarrow> em_terminated e1 \<or> stream_step (phase_of e1) EventDone = Some Ended"
    using ok1 by (simp add: phase_of_def)
  then have "err1 = None \<Longrightarrow> emitter_ok ((snd (send_next sink (StreamDoneEvent (em_generationID e1) reason (NewTimestamp now)) e1))
      \<lparr>em_terminated := True\<rparr>)"
    using ok1 send_terminal [of e1 sink "StreamDoneEvent (em_generationID e1) reason (NewTimestamp now)"]
    by (cases "send_next sink (StreamDoneEvent (em_generationID e1) reason (NewTimestamp now)) e1") auto
  with OpDone ok ok1 c show ?thesis
    by (auto simp: finishWithDone_def requireStarted_def Let_def split: option.splits prod.splits)
next
  case (OpError failure)
  assume ok: "emitter_ok e"
  have "stream_step (phase_of e) EventError = Some Ended" if "\<not> em_terminated e"
    using that by (simp add: phase_of_def)
  with OpError ok send_terminal [of e sink "StreamErrorEvent failure"] show ?thesis
    by (auto simp: finishWithError_def Let_def split: prod.splits)
qed (simp add: adapter_apply_ok)

lemma newEmitter_ok: "emitter_ok (newEmitter r g t)"
  by (simp add: newEmitter_def emitter_ok_def framed_def held_ok_def phase_of_def log_kinds_def)

lemma emitter_run_ok: "emitter_ok e \<Longrightarrow> emitter_ok (emitter_run sink ops e)"
  unfolding emitter_run_def by (induction ops arbitrary: e) (auto simp: emitter_apply_ok)

text \<open>What sending an event does to the account of delivered output.\<close>

lemma send_delivered:
  assumes "emitter_send sink event e = (err, e')"
  shows "em_estimate e' = em_estimate e \<and>
    (output_accepted (em_log e') \<longleftrightarrow> output_accepted (em_log e) \<or> err = None \<and> is_output (ev_Body event))"
  using assms by (cases rule: emitter_send_cases) (auto simp: output_accepted_def)

lemma send_next_delivered:
  assumes "send_next sink body e = (err, e')"
  shows "em_estimate e' = em_estimate e \<and>
    (output_accepted (em_log e') \<longleftrightarrow> output_accepted (em_log e) \<or> err = None \<and> is_output body)"
  using send_delivered [of sink "frame e (em_sequence e) body" "e\<lparr>em_sequence := em_sequence e + 1\<rparr>" err e'] assms
  by (simp add: send_next_def emitter_next_def frame_def)

lemma send_stamped_delivered:
  assumes "send_stamped sink x e = (err, e')" and "\<not> is_output (ev_Body x)"
  shows "em_estimate e' = em_estimate e \<and> (output_accepted (em_log e') \<longleftrightarrow> output_accepted (em_log e))"
  using send_delivered [of sink "stampSequence x (em_sequence e)" "e\<lparr>em_sequence := em_sequence e + 1\<rparr>" err e'] assms
  by (simp add: send_stamped_def emitter_next_def)

lemma send_held_delivered:
  "send_held sink held e = (err, e') \<Longrightarrow> \<forall>x \<in> set held. \<not> is_output (ev_Body x) \<Longrightarrow>
   em_estimate e' = em_estimate e \<and> (output_accepted (em_log e') \<longleftrightarrow> output_accepted (em_log e))"
proof (induction held arbitrary: e)
  case (Cons x held)
  obtain err1 e1 where s: "send_stamped sink x e = (err1, e1)" by fastforce
  with send_stamped_delivered [OF s] Cons show ?case by (cases err1) auto
qed simp

lemma emitter_commit_delivered:
  assumes "emitter_commit sink e = (err, e')" and "held_ok e"
  shows "em_estimate e' = em_estimate e \<and> (output_accepted (em_log e') \<longleftrightarrow> output_accepted (em_log e))"
proof (cases "em_started e \<or> em_pendingStart e = None")
  case False
  then obtain start where ns: "\<not> em_started e" and ps: "em_pendingStart e = Some start" by blast
  let ?e2 = "e\<lparr>em_started := True, em_pendingStart := None, em_pending := [], em_sequence := em_sequence e + 1\<rparr>"
  obtain err1 e3 where s: "emitter_send sink (start\<lparr>ev_Seq := em_sequence e\<rparr>) ?e2 = (err1, e3)" by fastforce
  have "\<not> is_output (ev_Body start)" using assms(2) ps by (auto simp: held_ok_def)
  with send_delivered [OF s] have e3: "em_estimate e3 = em_estimate e"
    "output_accepted (em_log e3) \<longleftrightarrow> output_accepted (em_log e)" by auto
  show ?thesis
  proof (cases err1)
    case None
    then have "send_held sink (em_pending e) e3 = (err, e')"
      using assms(1) ns ps s by (simp add: emitter_commit_def emitter_next_def Let_def)
    with send_held_delivered [of sink "em_pending e" e3 err e'] assms(2) e3 show ?thesis by (auto simp: held_ok_def)
  qed (use assms(1) ns ps s e3 in \<open>auto simp: emitter_commit_def emitter_next_def Let_def\<close>)
qed (use assms in \<open>auto simp: emitter_commit_def split: if_splits\<close>)

definition delivered_ok :: "emitter \<Rightarrow> bool" where
  "delivered_ok e \<longleftrightarrow> emitter_ok e \<and> (hasDeliveredOutput e \<longleftrightarrow> output_accepted (em_log e))"

lemma deliver_delivered:
  assumes "delivered_ok e" and "is_output body" and "\<And>u. outputDelivered (f u)"
  shows "hasDeliveredOutput (snd (deliver sink body f e)) \<longleftrightarrow> output_accepted (em_log (snd (deliver sink body f e)))"
proof -
  obtain err1 e1 where c: "emitter_commit sink e = (err1, e1)" by fastforce
  obtain err2 e2 where s: "send_next sink body e1 = (err2, e2)" by fastforce
  have h: "held_ok e" using assms(1) by (simp add: delivered_ok_def emitter_ok_def)
  from emitter_commit_delivered [OF c h] send_next_delivered [OF s] assms c s show ?thesis
    by (cases err1; cases err2) (auto simp: deliver_def delivered_ok_def hasDeliveredOutput_def)
qed

lemma delivered_ok_markOutput: "delivered_ok (markOutput now e) = delivered_ok e"
  by (auto simp: delivered_ok_def emitter_ok_update hasDeliveredOutput_def) (auto simp: markOutput_def)

lemma sendOrHold_delivered:
  assumes "\<not> is_output (ev_Body x)"
  shows "em_estimate (snd (sendOrHold sink x e)) = em_estimate e \<and>
    (output_accepted (em_log (snd (sendOrHold sink x e))) \<longleftrightarrow> output_accepted (em_log e))"
  using send_stamped_delivered [of sink x e] assms
  by (cases "send_stamped sink x e") (auto simp: sendOrHold_def)

lemma outputDelivered_simps [simp]:
  "outputDelivered (addDelta u c s) \<longleftrightarrow> outputDelivered u \<or> s \<noteq> []" "outputDelivered (addToolCall u n a)"
  by (auto simp: addDelta_def addToolCall_def)

lemma adapter_apply_delivered:
  assumes "delivered_ok e"
  shows "delivered_ok (snd (adapter_apply sink now call e))"
proof -
  have "hasDeliveredOutput (snd (adapter_apply sink now call e)) \<longleftrightarrow>
      output_accepted (em_log (snd (adapter_apply sink now call e)))"
  proof (cases call)
    case (CallDelta i channel chunk)
    have "delivered_ok (markOutput now e)" using assms by (simp add: delivered_ok_markOutput)
    from deliver_delivered [OF this, of "StreamDeltaEvent i channel chunk" "\<lambda>u. addDelta u channel chunk" sink]
      sendOrHold_delivered [of "frame e 0 (StreamDeltaEvent i channel chunk)" sink e] assms CallDelta
    show ?thesis
      by (cases "chunk = []") (auto simp: emitter_Delta_def requireStarted_def delivered_ok_def hasDeliveredOutput_def)
  next
    case (CallToolCall call)
    with deliver_delivered [OF assms, of _ "\<lambda>u. addToolCall u (tcd_Name call) (tcd_ArgumentsDelta call)" sink] assms
    show ?thesis by (auto simp: emitter_ToolCall_def requireStarted_def delivered_ok_def)
  next
    case (CallUsage units source)
    with sendOrHold_delivered [of "frame e 0 (StreamUsageEvent (em_deployment e) units source)" sink e] assms
    show ?thesis by (auto simp: emitter_Usage_def requireStarted_def delivered_ok_def hasDeliveredOutput_def)
  next
    case (CallAudio i mediaType payload)
    have "delivered_ok (markOutput now e)" using assms by (simp add: delivered_ok_markOutput)
    from deliver_delivered [OF this, of _ "\<lambda>u. u\<lparr>outputDelivered := True\<rparr>" sink] assms CallAudio
    show ?thesis by (auto simp: emitter_Audio_def requireStarted_def delivered_ok_def)
  qed (use assms in \<open>auto simp: emitter_Start_def delivered_ok_def hasDeliveredOutput_def\<close>)
  with adapter_apply_ok assms show ?thesis by (simp add: delivered_ok_def)
qed

lemma emitter_apply_delivered:
  assumes "delivered_ok e"
  shows "delivered_ok (snd (emitter_apply sink op e))"
proof -
  have ok: "emitter_ok e" and h: "held_ok e" using assms by (simp_all add: delivered_ok_def emitter_ok_def)
  have keep: "em_estimate (snd (send_next sink b x)) = em_estimate x \<and>
      (output_accepted (em_log (snd (send_next sink b x))) \<longleftrightarrow> output_accepted (em_log x))" if "\<not> is_output b" for b x
    using send_next_delivered [of sink b x] that by (cases "send_next sink b x") auto
  have "hasDeliveredOutput (snd (emitter_apply sink op e)) \<longleftrightarrow> output_accepted (em_log (snd (emitter_apply sink op e)))"
  proof (cases op)
    case (OpAdapter now call)
    with adapter_apply_delivered [OF assms] show ?thesis by (simp add: delivered_ok_def)
  next
    case (OpDone reason now)
    obtain err1 e1 where c: "emitter_commit sink e = (err1, e1)" by fastforce
    from emitter_commit_delivered [OF c h] keep [of "StreamDoneEvent (em_generationID e1) reason (NewTimestamp now)" e1]
      assms c OpDone show ?thesis
      by (cases err1; cases "requireStarted e")
        (auto simp: finishWithDone_def Let_def hasDeliveredOutput_def delivered_ok_def split: prod.splits)
  next
    case (OpError failure)
    with keep [of "StreamErrorEvent failure" e] assms show ?thesis
      by (cases "send_next sink (StreamErrorEvent failure) e")
        (auto simp: finishWithError_def hasDeliveredOutput_def delivered_ok_def)
  qed (use assms keep in \<open>auto simp: serving_def routeSwitch_def hasDeliveredOutput_def delivered_ok_def\<close>)
  with emitter_apply_ok [OF ok] show ?thesis by (simp add: delivered_ok_def)
qed

lemma newEmitter_delivered: "delivered_ok (newEmitter r g t)"
  using newEmitter_ok [of r g t]
  by (simp add: delivered_ok_def hasDeliveredOutput_def output_accepted_def newEmitter_def newUsageEstimate_def Let_def)

lemma emitter_run_delivered: "delivered_ok e \<Longrightarrow> delivered_ok (emitter_run sink ops e)"
  unfolding emitter_run_def by (induction ops arbitrary: e) (auto simp: emitter_apply_delivered)

text \<open>What commits the request to the attempt being served.\<close>

fun commits :: "emitter_op \<Rightarrow> bool" where
  "commits (OpAdapter now (CallDelta _ _ chunk)) \<longleftrightarrow> chunk \<noteq> []"
| "commits (OpAdapter now (CallToolCall _)) \<longleftrightarrow> True"
| "commits (OpAdapter now (CallAudio _ _ _)) \<longleftrightarrow> True"
| "commits (OpDone _ _) \<longleftrightarrow> True"
| "commits _ \<longleftrightarrow> False"

fun is_routing_op :: "emitter_op \<Rightarrow> bool" where
  "is_routing_op (OpRouteSwitch _ _ _ _ _) \<longleftrightarrow> True"
| "is_routing_op (OpError _) \<longleftrightarrow> True"
| "is_routing_op _ \<longleftrightarrow> False"

lemma emitter_send_started: "em_started (snd (emitter_send sink event e)) = em_started e"
  by (simp add: emitter_send_def Let_def)

lemma send_next_started: "em_started (snd (send_next sink body e)) = em_started e"
  by (simp add: send_next_def emitter_next_def emitter_send_started)

lemma apply_uncommitted:
  assumes "\<not> em_started e" and "\<not> commits op"
  shows "\<not> em_started (snd (emitter_apply sink op e)) \<and>
    (\<not> is_routing_op op \<longrightarrow> em_log (snd (emitter_apply sink op e)) = em_log e)"
proof (cases op)
  case (OpAdapter now call)
  with assms show ?thesis
    by (cases call) (auto simp: emitter_Start_def emitter_Delta_def emitter_Usage_def sendOrHold_def requireStarted_def)
next
  case (OpError failure)
  with assms send_next_started [of sink "StreamErrorEvent failure" e] show ?thesis
    by (auto simp: finishWithError_def Let_def split: prod.splits)
qed (use assms in \<open>auto simp: serving_def routeSwitch_def send_next_started\<close>)

lemma run_uncommitted:
  "\<not> em_started e \<Longrightarrow> \<forall>op \<in> set ops. \<not> commits op \<Longrightarrow>
   \<not> em_started (emitter_run sink ops e) \<and>
   ((\<forall>op \<in> set ops. \<not> is_routing_op op) \<longrightarrow> em_log (emitter_run sink ops e) = em_log e)"
proof (induction ops arbitrary: e)
  case (Cons op ops)
  with apply_uncommitted [of e op sink] show ?case by (simp add: emitter_run_def)
qed (simp add: emitter_run_def)

text \<open>Who the stream is for and who is being attempted: only \<open>serving\<close> changes it.\<close>

definition identity :: "emitter \<Rightarrow> request_id \<times> string option \<times> provider_slug \<times> deployment_id \<times> instant" where
  "identity e = (em_requestID e, em_generationID e, em_provider e, em_deployment e, em_admittedAt e)"

lemma emitter_send_identity: "identity (snd (emitter_send sink event e)) = identity e"
  by (simp add: emitter_send_def Let_def identity_def)

lemma send_identity:
  "identity (snd (send_next sink body e)) = identity e" "identity (snd (send_stamped sink x e)) = identity e"
  by (simp_all add: send_next_def send_stamped_def emitter_next_def emitter_send_identity) (simp_all add: identity_def)

lemma send_held_identity: "identity (snd (send_held sink held e)) = identity e"
proof (induction held arbitrary: e)
  case (Cons x held)
  with send_identity(2) [of sink x e] show ?case by (auto split: prod.splits option.splits)
qed simp

lemma emitter_commit_identity: "identity (snd (emitter_commit sink e)) = identity e"
proof (cases "em_started e \<or> em_pendingStart e = None")
  case False
  then obtain start where ns: "\<not> em_started e" and ps: "em_pendingStart e = Some start" by blast
  let ?e2 = "e\<lparr>em_started := True, em_pendingStart := None, em_pending := [], em_sequence := em_sequence e + 1\<rparr>"
  obtain err1 e3 where s: "emitter_send sink (start\<lparr>ev_Seq := em_sequence e\<rparr>) ?e2 = (err1, e3)" by fastforce
  then have "identity e3 = identity e"
    using emitter_send_identity [of sink "start\<lparr>ev_Seq := em_sequence e\<rparr>" ?e2] by (simp add: identity_def)
  with ns ps s send_held_identity show ?thesis
    by (auto simp: emitter_commit_def emitter_next_def split: option.splits)
qed (auto simp: emitter_commit_def)

lemma identity_update [simp]:
  "identity (e\<lparr>em_estimate := u\<rparr>) = identity e" "identity (markOutput now e) = identity e"
  "identity (e\<lparr>em_terminated := b\<rparr>) = identity e" "identity (e\<lparr>em_pending := p\<rparr>) = identity e"
  "identity (e\<lparr>em_attemptStarted := b, em_pendingStart := s\<rparr>) = identity e"
  by (simp_all add: identity_def markOutput_def)

lemma deliver_identity: "identity (snd (deliver sink body f e)) = identity e"
  using emitter_commit_identity [of sink e]
  by (auto simp: deliver_def split: prod.splits option.splits) (metis identity_update(1) send_identity(1) snd_conv)+

lemma adapter_apply_identity: "identity (snd (adapter_apply sink now call e)) = identity e"
  by (cases call)
    (auto simp: emitter_Start_def emitter_Delta_def emitter_ToolCall_def emitter_Usage_def emitter_Audio_def
      requireStarted_def sendOrHold_def send_identity deliver_identity)

lemma finish_identity:
  "identity (snd (finishWithDone sink reason now e)) = identity e"
  "identity (snd (finishWithError sink failure e)) = identity e"
  "identity (snd (routeSwitch sink r line a b now e)) = identity e"
proof -
  show "identity (snd (finishWithError sink failure e)) = identity e"
    using send_identity(1) [of sink "StreamErrorEvent failure" e] by (auto simp: finishWithError_def split: prod.splits)
  show "identity (snd (routeSwitch sink r line a b now e)) = identity e"
    by (simp add: routeSwitch_def send_identity)
  obtain err1 e1 where c: "emitter_commit sink e = (err1, e1)" by fastforce
  have "identity e1 = identity e" using emitter_commit_identity [of sink e] c by simp
  then show "identity (snd (finishWithDone sink reason now e)) = identity e"
    using send_identity(1) [of sink "StreamDoneEvent (em_generationID e1) reason (NewTimestamp now)" e1] c
    by (auto simp: finishWithDone_def Let_def requireStarted_def split: prod.splits option.splits)
qed

lemma identity_requestID: "identity x = identity e \<Longrightarrow> em_requestID x = em_requestID e"
  by (simp add: identity_def)

lemma emitter_apply_requestID: "em_requestID (snd (emitter_apply sink op e)) = em_requestID e"
  using identity_requestID [OF adapter_apply_identity] identity_requestID [OF finish_identity(1)]
    identity_requestID [OF finish_identity(2)] identity_requestID [OF finish_identity(3)]
  by (cases op) (simp_all, simp add: serving_def)

lemma emitter_run_requestID: "em_requestID (emitter_run sink ops e) = em_requestID e"
  unfolding emitter_run_def by (induction ops arbitrary: e) (simp_all add: emitter_apply_requestID)

section \<open>Properties\<close>

text \<open>
  C8: Whatever adapters and the executor call, in any order and against any sink, the events
  offered to the sink are a run of the stream grammar that ends in the phase the emitter believes
  it is in: route switches precede the one start, output and usage follow it, nothing follows a
  terminal event. Their sequence numbers are 0, 1, 2 and so on without a gap, although discarded
  attempts reported events too, and every event carries the request's id.
\<close>

theorem emitter_refines_stream_grammar:
  "let e = emitter_run sink ops (newEmitter r g t)
   in stream_run Routing (log_kinds (em_log e)) = Some (phase_of e) \<and>
      map (\<lambda>x. ev_Seq (fst x)) (em_log e) = map int [0..<length (em_log e)] \<and>
      list_all (\<lambda>x. ev_RequestID (fst x) = at_RequestID (rq_Attribution r)) (em_log e)"
  using emitter_run_ok [OF newEmitter_ok, of sink ops r g t] emitter_run_requestID [of sink ops "newEmitter r g t"]
  by (simp add: emitter_ok_def framed_def list_all_iff Let_def newEmitter_def)

text \<open>
  The emitter's record of delivered output is exact: output counts as delivered precisely when
  the sink accepted a non-empty delta, an audio chunk or a tool call. Settlement charges, and
  reconstructs usage, on this record.
\<close>

theorem delivered_output_exact:
  "let e = emitter_run sink ops (newEmitter r g t)
   in hasDeliveredOutput e \<longleftrightarrow> output_accepted (em_log e)"
  using emitter_run_delivered [OF newEmitter_delivered, of sink ops r g t] by (simp add: delivered_ok_def Let_def)

text \<open>
  The start event is deferred. Until an attempt produces output or completes, whatever it
  reports (its start, usage, empty deltas) and however many attempts are made, nothing of it is
  offered to the sink and the request is not committed.
\<close>

theorem start_deferred_until_output:
  assumes "\<not> em_started e" and "\<forall>op \<in> set ops. \<not> commits op"
  shows "\<not> em_started (emitter_run sink ops e) \<and>
    ((\<forall>op \<in> set ops. \<not> is_routing_op op) \<longrightarrow> em_log (emitter_run sink ops e) = em_log e)"
  by (rule run_uncommitted [OF assms])

theorem start_deferred_until_output_witness:
  "em_log (emitter_run (\<lambda>_ _. None) demo_ops (newEmitter (demo_request [] []) None 1)) = []"
proof -
  let ?e = "newEmitter (demo_request [] []) None 1"
  have a: "\<not> em_started ?e" by (simp add: newEmitter_def)
  have b: "\<forall>op \<in> set demo_ops. \<not> commits op" by (simp add: demo_ops_def)
  have "\<forall>op \<in> set demo_ops. \<not> is_routing_op op" by (simp add: demo_ops_def)
  then show ?thesis
    using start_deferred_until_output [OF a b, of "\<lambda>_ _. None"] by (simp add: newEmitter_def)
qed

end
