(* ===== verification/Key_Pool.thy ===== *)
theory Key_Pool
  imports Provider_Failure Funding Go_Numbers "HOL-Library.Multiset"
begin

text \<open>
  The key pool of \<open>internal/provider/credential.go\<close>: a provider's credentials, which of them are
  usable now, the views a route or an operator narrows it to, and the leasing of one key after
  another to one request. Every method runs under the pool's mutex, so each is one state
  transformer. A view (\<open>Bind\<close>, \<open>WithinFunding\<close>) owns no key: it is the pin and the ceiling,
  and its operations act on the pool it narrows, so the model passes the two and the pool.

  A key's durable runtime is an interface value that may be nil; the model keeps whether there is
  one, and what the runtime answers is an input of the walk (theory \<open>Key_Walk\<close>).
\<close>

section \<open>Quota headers\<close>

datatype quota_state = QuotaHealthy | QuotaExhausted | QuotaUnavailable | QuotaUnknown

datatype quota_signal = SignalRemainingCredits | SignalResetAt | OtherSignal string

text \<open>
  The Go value is a map, whose iteration order is not specified: the list is the order one
  iteration takes. A header maps a name to its value, the empty string when absent.
\<close>

type_synonym quota_headers = "(string \<times> quota_signal) list"
type_synonym http_header = "string \<Rightarrow> string"

record quota_observation =
  qo_State :: quota_state
  qo_ResetAt :: instant

text \<open>\<open>time.Unix (seconds, 0)\<close> counted from Go's zero time.\<close>

definition unix_instant :: "int \<Rightarrow> instant" where
  "unix_instant seconds = (seconds + 62135596800) * second"

definition read_signal :: "http_header \<Rightarrow> string \<times> quota_signal \<Rightarrow> quota_observation \<Rightarrow> quota_observation" where
  "read_signal header entry observation =
     (let raw = trim_space (header (fst entry))
      in if raw = '''' then observation
         else case snd entry of
           SignalRemainingCredits \<Rightarrow>
             (case parse_float_sign raw of
                None \<Rightarrow> observation\<lparr>qo_State := QuotaUnavailable\<rparr>
              | Some sign \<Rightarrow>
                  if sign = FloatNegative \<or> sign = FloatZero then observation\<lparr>qo_State := QuotaExhausted\<rparr>
                  else if qo_State observation \<noteq> QuotaExhausted then observation\<lparr>qo_State := QuotaHealthy\<rparr>
                  else observation)
         | SignalResetAt \<Rightarrow>
             (case parse_int64 raw of
                None \<Rightarrow> observation
              | Some seconds \<Rightarrow>
                  if seconds \<le> 0 then observation else observation\<lparr>qo_ResetAt := unix_instant seconds\<rparr>)
         | OtherSignal _ \<Rightarrow> observation)"

definition quota_Read :: "quota_headers \<Rightarrow> http_header option \<Rightarrow> quota_observation" where
  "quota_Read m header =
     (let observation = \<lparr>qo_State = QuotaUnknown, qo_ResetAt = zero_time\<rparr>
      in case header of
           None \<Rightarrow> observation
         | Some h \<Rightarrow> if m = [] then observation else fold (read_signal h) m observation)"

section \<open>The pool\<close>

datatype key_reason = NoReason | KeyExhausted | KeyRejected | OtherReason string

record runtime_state =
  st_Reason :: key_reason
  st_Evidence :: string
  st_ObservedAt :: instant
  st_RetiredUntil :: instant
  st_LeaseUntil :: instant

record key_declaration =
  kd_KeyID :: string
  kd_Secret :: string
  kd_Class :: key_class
  kd_Funding :: funding
  kd_Runtime :: bool
  kd_State :: runtime_state

record key_policy =
  kp_Retirement :: duration
  kp_OnSeparateAccounts :: bool

record pooled_key =
  pk_position :: int
  pk_keyID :: string
  pk_class :: key_class
  pk_funding :: funding
  pk_secret :: string
  pk_retiredUntil :: instant
  pk_reason :: key_reason
  pk_runtime :: bool
  pk_evidence :: string
  pk_observedAt :: instant

record key_pool =
  po_provider :: provider_slug
  po_policy :: key_policy
  po_signals :: quota_headers
  po_customerOwned :: bool
  po_keys :: "pooled_key list"

record key_view =
  kv_onlyKeyID :: string
  kv_ceiling :: funding_tier

record leased_key =
  lk_Position :: int
  lk_ID :: string
  lk_Class :: key_class
  lk_Funding :: funding
  lk_secret :: string
  lk_customerOwned :: bool
  lk_runtime :: bool
  lk_recovery :: bool

definition root_view :: key_view where
  "root_view = \<lparr>kv_onlyKeyID = '''', kv_ceiling = FundingTierNone\<rparr>"

datatype pool_error =
    KeyIDRequired
  | KeyNotConfigured string
  | NotAFundingTier funding_tier
  | CeilingNeedsPlatformPool
  | NoKeyWithinTier funding_tier
  | CredentialLength
  | CredentialNotVisibleASCII
  | InvalidCredentialAt int
  | SameCredentialAt int int
  | SameKeyIDAt string int int
  | UnknownClassOf string key_class
  | UnknownFundingOf string funding
  | TimesWithoutRetirement string
  | RetirementWithoutExpiry string
  | UnknownRuntimeState string key_reason

definition DefaultKeyRetirement :: duration where
  "DefaultKeyRetirement = 15 * minute"

subsection \<open>Construction\<close>

definition ValidateCustomerCredential :: "string \<Rightarrow> pool_error + unit" where
  "ValidateCustomerCredential secret =
     (if length secret = 0 \<or> length secret > 4096 then Inl CredentialLength
      else if list_ex (\<lambda>c. byte_of c < 33 \<or> byte_of c > 126) secret then Inl CredentialNotVisibleASCII
      else Inr ())"

definition declared_key_id :: "int \<Rightarrow> key_declaration \<Rightarrow> string" where
  "declared_key_id position d =
     (let keyID = trim_space (kd_KeyID d) in if keyID = '''' then ''key-'' @ string_of_int position else keyID)"

definition declared_funding :: "key_declaration \<Rightarrow> funding" where
  "declared_funding d =
     (if kd_Funding d = FundingUnstated
      then case FundingFor (kd_Class d) '''' of Inr f \<Rightarrow> f | Inl _ \<Rightarrow> FundingUnstated
      else kd_Funding d)"

definition check_runtime_state :: "string \<Rightarrow> runtime_state \<Rightarrow> pool_error + unit" where
  "check_runtime_state keyID st =
     (case st_Reason st of
        NoReason \<Rightarrow>
          (if st_RetiredUntil st \<noteq> zero_time \<or> st_LeaseUntil st \<noteq> zero_time
           then Inl (TimesWithoutRetirement keyID) else Inr ())
      | OtherReason r \<Rightarrow> Inl (UnknownRuntimeState keyID (st_Reason st))
      | _ \<Rightarrow> (if st_RetiredUntil st = zero_time then Inl (RetirementWithoutExpiry keyID) else Inr ()))"

definition declared_key :: "int \<Rightarrow> key_declaration \<Rightarrow> pooled_key" where
  "declared_key position d =
     \<lparr>pk_position = position, pk_keyID = declared_key_id position d, pk_class = kd_Class d,
      pk_funding = declared_funding d, pk_secret = kd_Secret d,
      pk_retiredUntil = (if st_LeaseUntil (kd_State d) > st_RetiredUntil (kd_State d)
                         then st_LeaseUntil (kd_State d) else st_RetiredUntil (kd_State d)),
      pk_reason = st_Reason (kd_State d), pk_runtime = kd_Runtime d,
      pk_evidence = st_Evidence (kd_State d), pk_observedAt = st_ObservedAt (kd_State d)\<rparr>"

definition known_funding :: "funding \<Rightarrow> bool" where
  "known_funding f \<longleftrightarrow> f \<in> {FundingFree, FundingPromotional, FundingPrepaid, FundingPaid, FundingUnstated}"

definition check_declaration ::
  "int \<Rightarrow> (string \<times> int) list \<Rightarrow> (string \<times> int) list \<Rightarrow> key_declaration \<Rightarrow> pool_error + unit" where
  "check_declaration position seenSecret seenID d =
     (let secret = kd_Secret d; keyID = declared_key_id position d
      in if ValidateCustomerCredential secret \<noteq> Inr () then Inl (InvalidCredentialAt position)
         else case map_of seenSecret secret of
           Some first \<Rightarrow> Inl (SameCredentialAt first position)
         | None \<Rightarrow>
         (case map_of seenID keyID of
            Some first \<Rightarrow> Inl (SameKeyIDAt keyID first position)
          | None \<Rightarrow>
              if class_funding (kd_Class d) = None then Inl (UnknownClassOf keyID (kd_Class d))
              else if \<not> known_funding (declared_funding d) then Inl (UnknownFundingOf keyID (declared_funding d))
              else check_runtime_state keyID (kd_State d)))"

fun build_keys ::
  "int \<Rightarrow> (string \<times> int) list \<Rightarrow> (string \<times> int) list \<Rightarrow> key_declaration list \<Rightarrow> pool_error + pooled_key list" where
  "build_keys index seenSecret seenID [] = Inr []"
| "build_keys index seenSecret seenID (d # ds) =
     (let position = index + 1
      in case check_declaration position seenSecret seenID d of
           Inl e \<Rightarrow> Inl e
         | Inr _ \<Rightarrow>
             (case build_keys position ((kd_Secret d, position) # seenSecret)
                     ((declared_key_id position d, position) # seenID) ds of
                Inl e \<Rightarrow> Inl e
              | Inr keys \<Rightarrow> Inr (declared_key position d # keys)))"

definition newKeyPool ::
  "provider_slug \<Rightarrow> key_declaration list \<Rightarrow> key_policy \<Rightarrow> quota_headers \<Rightarrow> bool \<Rightarrow> pool_error + key_pool" where
  "newKeyPool slug ds p signals customerOwned =
     (let p = (if kp_Retirement p \<le> 0 then p\<lparr>kp_Retirement := DefaultKeyRetirement\<rparr> else p)
      in case build_keys 0 [] [] ds of
           Inl e \<Rightarrow> Inl e
         | Inr keys \<Rightarrow>
             Inr \<lparr>po_provider = slug, po_policy = p, po_signals = signals, po_customerOwned = customerOwned,
                  po_keys = sort_key (\<lambda>k. funding_rank (pk_funding k)) keys\<rparr>)"

definition NewKeyPool ::
  "provider_slug \<Rightarrow> key_declaration list \<Rightarrow> key_policy \<Rightarrow> quota_headers \<Rightarrow> pool_error + key_pool" where
  "NewKeyPool slug ds p signals = newKeyPool slug ds p signals False"

definition no_runtime_state :: runtime_state where
  "no_runtime_state = \<lparr>st_Reason = NoReason, st_Evidence = '''', st_ObservedAt = zero_time,
     st_RetiredUntil = zero_time, st_LeaseUntil = zero_time\<rparr>"

definition DeclareKeys :: "string list \<Rightarrow> key_declaration list" where
  "DeclareKeys secrets =
     map (\<lambda>secret. \<lparr>kd_KeyID = '''', kd_Secret = secret, kd_Class = KeyClassUnstated,
            kd_Funding = FundingUnstated, kd_Runtime = False, kd_State = no_runtime_state\<rparr>) secrets"

definition NewCustomerKeyPool :: "provider_slug \<Rightarrow> string \<Rightarrow> pool_error + key_pool" where
  "NewCustomerKeyPool slug secret =
     (case ValidateCustomerCredential secret of
        Inl e \<Rightarrow> Inl e
      | Inr _ \<Rightarrow>
          newKeyPool slug
            [\<lparr>kd_KeyID = ''customer-byok'', kd_Secret = secret, kd_Class = KeyClassUnstated,
              kd_Funding = FundingUnstated, kd_Runtime = False, kd_State = no_runtime_state\<rparr>]
            \<lparr>kp_Retirement = 0, kp_OnSeparateAccounts = False\<rparr> [] True)"

definition Destroy :: "key_pool \<Rightarrow> key_pool" where
  "Destroy p = (if \<not> po_customerOwned p then p else p\<lparr>po_keys := []\<rparr>)"

subsection \<open>Views\<close>

definition Bind :: "key_pool \<Rightarrow> key_view \<Rightarrow> string \<Rightarrow> pool_error + key_view" where
  "Bind pool view keyID =
     (if trim_space keyID \<noteq> keyID \<or> keyID = '''' then Inl KeyIDRequired
      else case find (\<lambda>k. pk_keyID k = keyID) (po_keys pool) of
             Some _ \<Rightarrow> Inr (view\<lparr>kv_onlyKeyID := keyID\<rparr>)
           | None \<Rightarrow> Inl (KeyNotConfigured keyID))"

definition in_pin :: "string \<Rightarrow> pooled_key \<Rightarrow> bool" where
  "in_pin onlyKeyID k \<longleftrightarrow> onlyKeyID = '''' \<or> pk_keyID k = onlyKeyID"

definition WithinFunding :: "key_pool \<Rightarrow> key_view \<Rightarrow> funding_tier \<Rightarrow> pool_error + key_view" where
  "WithinFunding pool view tier =
     (if tier = FundingTierNone then Inr view
      else if \<not> tier_Valid tier then Inl (NotAFundingTier tier)
      else if po_customerOwned pool then Inl CeilingNeedsPlatformPool
      else case find (\<lambda>k. in_pin (kv_onlyKeyID view) k \<and> Admits tier (pk_funding k)) (po_keys pool) of
             Some _ \<Rightarrow> Inr (view\<lparr>kv_ceiling := tier\<rparr>)
           | None \<Rightarrow> Inl (NoKeyWithinTier tier))"

definition FundingOf :: "key_pool \<Rightarrow> string \<Rightarrow> funding \<times> bool" where
  "FundingOf pool keyID =
     (if keyID = '''' then (FundingUnstated, False)
      else case find (\<lambda>k. pk_keyID k = keyID) (po_keys pool) of
             Some k \<Rightarrow> (pk_funding k, True)
           | None \<Rightarrow> (FundingUnstated, False))"

definition ExactBinding :: "key_view \<Rightarrow> string \<times> bool" where
  "ExactBinding view = (if kv_onlyKeyID view = '''' then ('''', False) else (kv_onlyKeyID view, True))"

definition SoleKeyID :: "key_pool \<Rightarrow> string \<times> nat" where
  "SoleKeyID pool = (case po_keys pool of [k] \<Rightarrow> (pk_keyID k, 1) | ks \<Rightarrow> ('''', length ks))"

definition Configured :: "key_pool \<Rightarrow> bool" where
  "Configured pool \<longleftrightarrow> po_keys pool \<noteq> []"

subsection \<open>Retirement and recovery\<close>

text \<open>A loop that changes the first key at a position and returns.\<close>

fun update_key :: "int \<Rightarrow> (pooled_key \<Rightarrow> pooled_key) \<Rightarrow> pooled_key list \<Rightarrow> pooled_key list" where
  "update_key position f [] = []"
| "update_key position f (k # ks) = (if pk_position k = position then f k # ks else k # update_key position f ks)"

definition retirement_end :: "key_policy \<Rightarrow> instant \<Rightarrow> instant \<Rightarrow> instant" where
  "retirement_end p at_time until = (if until > at_time then until else at_time + kp_Retirement p)"

definition Retire :: "int \<Rightarrow> key_reason \<Rightarrow> instant \<Rightarrow> instant \<Rightarrow> key_pool \<Rightarrow> key_pool" where
  "Retire position reason at_time until pool =
     pool\<lparr>po_keys := update_key position
       (\<lambda>k. k\<lparr>pk_retiredUntil := retirement_end (po_policy pool) at_time until, pk_reason := reason,
              pk_evidence := ''provider_error'', pk_observedAt := at_time\<rparr>) (po_keys pool)\<rparr>"

definition markUsable :: "int \<Rightarrow> string \<Rightarrow> instant \<Rightarrow> key_pool \<Rightarrow> key_pool" where
  "markUsable position evidence at_time pool =
     pool\<lparr>po_keys := update_key position
       (\<lambda>k. k\<lparr>pk_reason := NoReason, pk_evidence := evidence, pk_observedAt := at_time,
              pk_retiredUntil := zero_time\<rparr>) (po_keys pool)\<rparr>"

definition pool_recover :: "int \<Rightarrow> key_pool \<Rightarrow> key_pool" where
  "pool_recover position pool = markUsable position '''' zero_time pool"

definition set_evidence :: "int \<Rightarrow> string \<Rightarrow> key_pool \<Rightarrow> key_pool" where
  "set_evidence position evidence pool =
     pool\<lparr>po_keys := update_key position (\<lambda>k. k\<lparr>pk_evidence := evidence\<rparr>) (po_keys pool)\<rparr>"

definition observe :: "int \<Rightarrow> http_header option \<Rightarrow> instant \<Rightarrow> key_pool \<Rightarrow> (bool \<times> instant) \<times> key_pool" where
  "observe position header at_time pool =
     (let observation = quota_Read (po_signals pool) header
      in if qo_State observation = QuotaExhausted
         then ((True, retirement_end (po_policy pool) at_time (qo_ResetAt observation)),
               set_evidence position ''quota_header''
                 (Retire position KeyExhausted at_time (qo_ResetAt observation) pool))
         else ((False, zero_time), pool))"

definition passthrough_of :: "provider_slug \<Rightarrow> passthrough" where
  "passthrough_of slug = \<lparr>pt_Provider = slug, pt_Status = None, pt_Code = None, pt_Message = None\<rparr>"

definition in_view :: "key_view \<Rightarrow> pooled_key \<Rightarrow> bool" where
  "in_view view k \<longleftrightarrow> in_pin (kv_onlyKeyID view) k \<and> Admits (kv_ceiling view) (pk_funding k)"

fun scan_retired :: "key_view \<Rightarrow> pooled_key list \<Rightarrow> upstream_category \<times> instant \<times> nat \<Rightarrow> upstream_category \<times> instant \<times> nat" where
  "scan_retired view [] acc = acc"
| "scan_retired view (k # ks) (category, earliest, declared) =
     (if \<not> in_view view k then scan_retired view ks (category, earliest, declared)
      else scan_retired view ks
             (if pk_reason k = KeyRejected then UpstreamAuthentication else category,
              if earliest = zero_time \<or> pk_retiredUntil k < earliest then pk_retiredUntil k else earliest,
              declared + 1))"

definition NoUsableCredential :: "key_pool \<Rightarrow> key_view \<Rightarrow> instant \<Rightarrow> upstream_failure" where
  "NoUsableCredential pool view at_time =
     (if po_keys pool = [] then
        \<lparr>uf_Code = CodeProviderCredentialInvalid, uf_Category = UpstreamAuthentication,
         uf_Detail = ''no credential is configured for '' @ po_provider pool, uf_RetryAfterMs = 0,
         uf_Passthrough = Some (passthrough_of (po_provider pool)), uf_RecursOnThisRoute = False\<rparr>
      else
        let (category, earliest, declared) = scan_retired view (po_keys pool) (UpstreamQuota, zero_time, 0);
            wait = time_sub earliest at_time
        in \<lparr>uf_Code = CodeDeploymentUnavailable, uf_Category = category,
            uf_Detail = ''every credential this build holds for '' @ po_provider pool @
                        '' is out of rotation ('' @ string_of_nat declared @ '' declared)'',
            uf_RetryAfterMs = (if wait > 0 then milliseconds wait else 0),
            uf_Passthrough = Some (passthrough_of (po_provider pool)), uf_RecursOnThisRoute = False\<rparr>)"

section \<open>One request's walk: leasing\<close>

record key_attempt =
  ka_view :: key_view
  ka_tried :: "int list"
  ka_throttleRotations :: nat

definition Begin :: "key_view \<Rightarrow> key_attempt" where
  "Begin view = \<lparr>ka_view = view, ka_tried = [], ka_throttleRotations = 0\<rparr>"

definition leasable :: "key_attempt \<Rightarrow> instant \<Rightarrow> bool \<Rightarrow> pooled_key \<Rightarrow> bool" where
  "leasable a at_time allowRecovery k \<longleftrightarrow>
     in_view (ka_view a) k \<and> \<not> is_member (pk_position k) (ka_tried a) \<and>
     \<not> pk_retiredUntil k > at_time \<and> (pk_reason k = NoReason \<or> allowRecovery)"

definition lease :: "key_pool \<Rightarrow> pooled_key \<Rightarrow> leased_key" where
  "lease pool k =
     \<lparr>lk_Position = pk_position k, lk_ID = pk_keyID k, lk_Class = pk_class k, lk_Funding = pk_funding k,
      lk_secret = pk_secret k, lk_customerOwned = po_customerOwned pool, lk_runtime = pk_runtime k,
      lk_recovery = (pk_reason k \<noteq> NoReason)\<rparr>"

text \<open>The two passes over one order: first the keys that are not avoided, then all.\<close>

definition next_key :: "(string \<Rightarrow> bool) \<Rightarrow> key_attempt \<Rightarrow> instant \<Rightarrow> bool \<Rightarrow> key_pool \<Rightarrow> pooled_key option" where
  "next_key avoid a at_time allowRecovery pool =
     (case find (\<lambda>k. leasable a at_time allowRecovery k \<and> \<not> avoid (pk_keyID k)) (po_keys pool) of
        Some k \<Rightarrow> Some k
      | None \<Rightarrow> find (leasable a at_time allowRecovery) (po_keys pool))"

definition attempt_next ::
  "(string \<Rightarrow> bool) \<Rightarrow> key_attempt \<Rightarrow> instant \<Rightarrow> bool \<Rightarrow> key_pool \<Rightarrow> (leased_key \<times> key_attempt) option" where
  "attempt_next avoid a at_time allowRecovery pool =
     (case next_key avoid a at_time allowRecovery pool of
        None \<Rightarrow> None
      | Some k \<Rightarrow> Some (lease pool k, a\<lparr>ka_tried := pk_position k # ka_tried a\<rparr>))"

definition Next :: "(string \<Rightarrow> bool) \<Rightarrow> key_attempt \<Rightarrow> instant \<Rightarrow> key_pool \<Rightarrow> (leased_key \<times> key_attempt) option" where
  "Next avoid a at_time pool = attempt_next avoid a at_time True pool"

definition NextProbe :: "(string \<Rightarrow> bool) \<Rightarrow> key_attempt \<Rightarrow> instant \<Rightarrow> key_pool \<Rightarrow> (leased_key \<times> key_attempt) option" where
  "NextProbe avoid a at_time pool = attempt_next avoid a at_time False pool"

definition AllowThrottleRotation :: "key_pool \<Rightarrow> key_attempt \<Rightarrow> bool \<times> key_attempt" where
  "AllowThrottleRotation pool a =
     (if \<not> kp_OnSeparateAccounts (po_policy pool) \<or> ka_throttleRotations a > 0 then (False, a)
      else (True, a\<lparr>ka_throttleRotations := ka_throttleRotations a + 1\<rparr>))"

section \<open>Health projection\<close>

record key_health =
  kh_KeyID :: string
  kh_Position :: int
  kh_Funding :: funding
  kh_State :: "key_reason option"
  kh_RetiredUntil :: "instant option"
  kh_EvidenceSource :: string
  kh_ObservedAt :: "instant option"

record pool_health =
  ph_Declared :: nat
  ph_Usable :: nat
  ph_Keys :: "key_health list"

text \<open>\<open>None\<close> is the state \<open>usable\<close>.\<close>

definition project_key :: "instant \<Rightarrow> pooled_key \<Rightarrow> key_health" where
  "project_key at_time k =
     \<lparr>kh_KeyID = pk_keyID k, kh_Position = pk_position k, kh_Funding = pk_funding k,
      kh_State = (if pk_retiredUntil k > at_time then Some (pk_reason k) else None),
      kh_RetiredUntil = (if pk_retiredUntil k > at_time then Some (pk_retiredUntil k) else None),
      kh_EvidenceSource = pk_evidence k,
      kh_ObservedAt = (if pk_observedAt k = zero_time then None else Some (pk_observedAt k))\<rparr>"

definition Projection :: "key_pool \<Rightarrow> instant \<Rightarrow> pool_health" where
  "Projection pool at_time =
     \<lparr>ph_Declared = length (po_keys pool),
      ph_Usable = length (filter (\<lambda>k. \<not> pk_retiredUntil k > at_time) (po_keys pool)),
      ph_Keys = sort_key kh_Position (map (project_key at_time) (po_keys pool))\<rparr>"

section \<open>What no operation changes\<close>

definition key_static :: "pooled_key \<Rightarrow> int \<times> string \<times> key_class \<times> funding \<times> string \<times> bool" where
  "key_static k = (pk_position k, pk_keyID k, pk_class k, pk_funding k, pk_secret k, pk_runtime k)"

definition pool_static ::
  "key_pool \<Rightarrow> provider_slug \<times> key_policy \<times> quota_headers \<times> bool \<times>
     (int \<times> string \<times> key_class \<times> funding \<times> string \<times> bool) list" where
  "pool_static p = (po_provider p, po_policy p, po_signals p, po_customerOwned p, map key_static (po_keys p))"

lemma update_key_static:
  "(\<And>k. key_static (f k) = key_static k) \<Longrightarrow> map key_static (update_key position f ks) = map key_static ks"
  by (induction ks) simp_all

lemma pool_ops_static [simp]:
  "pool_static (Retire position reason t u p) = pool_static p"
  "pool_static (markUsable position evidence t p) = pool_static p"
  "pool_static (set_evidence position evidence p) = pool_static p"
  "pool_static (pool_recover position p) = pool_static p"
  by (simp_all add: pool_static_def Retire_def markUsable_def set_evidence_def pool_recover_def
      update_key_static key_static_def)

lemma observe_static [simp]: "pool_static (snd (observe position h t p)) = pool_static p"
  by (simp add: observe_def Let_def)

text \<open>What the statics of a pool determine.\<close>

lemma static_map:
  "pool_static p = pool_static q \<Longrightarrow> map (g \<circ> key_static) (po_keys p) = map (g \<circ> key_static) (po_keys q)"
  unfolding map_map [symmetric] by (simp add: pool_static_def)

lemma static_maps:
  assumes "pool_static p = pool_static q"
  shows "map pk_position (po_keys p) = map pk_position (po_keys q)"
    and "map pk_keyID (po_keys p) = map pk_keyID (po_keys q)"
    and "map pk_secret (po_keys p) = map pk_secret (po_keys q)"
    and "map (\<lambda>k. funding_rank (pk_funding k)) (po_keys p) = map (\<lambda>k. funding_rank (pk_funding k)) (po_keys q)"
  using static_map [OF assms, of fst] static_map [OF assms, of "fst \<circ> snd"]
    static_map [OF assms, of "fst \<circ> snd \<circ> snd \<circ> snd \<circ> snd"]
    static_map [OF assms, of "funding_rank \<circ> fst \<circ> snd \<circ> snd \<circ> snd"]
  by (simp_all add: comp_def key_static_def)

lemma static_fields:
  "pool_static p = pool_static q \<Longrightarrow> po_provider p = po_provider q \<and> po_policy p = po_policy q \<and>
     po_signals p = po_signals q \<and> po_customerOwned p = po_customerOwned q"
  by (simp add: pool_static_def)

definition pool_ok :: "key_pool \<Rightarrow> bool" where
  "pool_ok p \<longleftrightarrow> distinct (map pk_position (po_keys p)) \<and> distinct (map pk_keyID (po_keys p)) \<and>
     distinct (map pk_secret (po_keys p)) \<and>
     sorted (map (\<lambda>k. funding_rank (pk_funding k)) (po_keys p)) \<and>
     (\<forall>k \<in> set (po_keys p). ValidateCustomerCredential (pk_secret k) = Inr ()) \<and>
     0 < kp_Retirement (po_policy p)"

lemma pool_ok_static:
  assumes "pool_static p = pool_static q" and "pool_ok q"
  shows "pool_ok p"
proof -
  note m = static_maps [OF assms(1)]
  have "pk_secret ` set (po_keys p) = pk_secret ` set (po_keys q)"
    using m(3) by (metis list.set_map)
  then have "\<forall>k \<in> set (po_keys p). ValidateCustomerCredential (pk_secret k) = Inr ()"
    using assms(2) unfolding pool_ok_def by (metis (no_types, lifting) image_iff)
  then show ?thesis using assms m static_fields [OF assms(1)] by (simp add: pool_ok_def)
qed

section \<open>Construction\<close>

lemma check_declaration_ok:
  "check_declaration position ss si d = Inr u \<Longrightarrow>
   ValidateCustomerCredential (kd_Secret d) = Inr () \<and> map_of ss (kd_Secret d) = None \<and>
   map_of si (declared_key_id position d) = None \<and> known_funding (declared_funding d)"
  by (auto simp: check_declaration_def Let_def split: if_splits option.splits)

fun declared_keys :: "int \<Rightarrow> key_declaration list \<Rightarrow> pooled_key list" where
  "declared_keys i [] = []"
| "declared_keys i (d # ds) = declared_key (i + 1) d # declared_keys (i + 1) ds"

definition built_from ::
  "int \<Rightarrow> (string \<times> int) list \<Rightarrow> (string \<times> int) list \<Rightarrow> key_declaration list \<Rightarrow> pooled_key list \<Rightarrow> bool" where
  "built_from i ss si ds ks \<longleftrightarrow>
     ks = declared_keys i ds \<and>
     distinct (map pk_secret ks) \<and> pk_secret ` set ks \<inter> fst ` set ss = {} \<and>
     distinct (map pk_keyID ks) \<and> pk_keyID ` set ks \<inter> fst ` set si = {} \<and>
     (\<forall>k \<in> set ks. ValidateCustomerCredential (pk_secret k) = Inr ())"

lemma declared_key_simps [simp]:
  "pk_position (declared_key i d) = i"
  "pk_keyID (declared_key i d) = declared_key_id i d"
  "pk_secret (declared_key i d) = kd_Secret d"
  by (simp_all add: declared_key_def)

lemma declared_keys_above: "k \<in> set (declared_keys i ds) \<Longrightarrow> i < pk_position k"
proof (induction ds arbitrary: i)
  case (Cons d ds)
  from Cons.prems Cons.IH [of "i + 1"] show ?case by auto
qed simp

lemma declared_keys_positions: "distinct (map pk_position (declared_keys i ds))"
proof (induction ds arbitrary: i)
  case (Cons d ds)
  from Cons.IH [of "i + 1"] declared_keys_above [of _ "i + 1" ds] show ?case by fastforce
qed simp

lemma build_keys_spec: "build_keys i ss si ds = Inr ks \<Longrightarrow> built_from i ss si ds ks"
proof (induction ds arbitrary: i ss si ks)
  case Nil
  then show ?case by (simp add: built_from_def)
next
  case (Cons d ds)
  let ?p = "i + 1"
  from Cons.prems obtain ks' u where ks: "ks = declared_key ?p d # ks'"
    and chk: "check_declaration ?p ss si d = Inr u"
    and rec: "build_keys ?p ((kd_Secret d, ?p) # ss) ((declared_key_id ?p d, ?p) # si) ds = Inr ks'"
    by (auto simp: Let_def split: sum.splits)
  from Cons.IH [OF rec] check_declaration_ok [OF chk] show ?case
    unfolding built_from_def ks by (auto simp: map_of_eq_None_iff)
qed

lemma newKeyPool_built:
  assumes "newKeyPool slug ds pol signals own = Inr pool"
  shows "\<exists>ks. built_from 0 [] [] ds ks \<and> po_keys pool = sort_key (\<lambda>k. funding_rank (pk_funding k)) ks \<and>
    0 < kp_Retirement (po_policy pool)"
  using assms build_keys_spec [of 0 "[]" "[]" ds]
  by (auto simp: newKeyPool_def Let_def DefaultKeyRetirement_def go_arith split: sum.splits)

lemma newKeyPool_ok: "newKeyPool slug ds pol signals own = Inr pool \<Longrightarrow> pool_ok pool"
proof -
  assume "newKeyPool slug ds pol signals own = Inr pool"
  from newKeyPool_built [OF this] obtain ks where b: "built_from 0 [] [] ds ks"
    and k: "po_keys pool = sort_key (\<lambda>k. funding_rank (pk_funding k)) ks"
    and r: "0 < kp_Retirement (po_policy pool)" by blast
  have d: "distinct (map f (sort_key g xs)) \<longleftrightarrow> distinct (map f xs)" for f g and xs :: "pooled_key list"
    by (simp add: distinct_map distinct_sort)
  show ?thesis using b r declared_keys_positions [of 0 ds]
    by (auto simp: pool_ok_def k d built_from_def)
qed

section \<open>Leasing\<close>

lemma next_key_leasable: "next_key avoid a t r pool = Some k \<Longrightarrow> k \<in> set (po_keys pool) \<and> leasable a t r k"
  by (auto simp: next_key_def split: option.splits dest: find_SomeD)

lemma sorted_find_least:
  assumes "sorted (map f xs)" and "find P xs = Some x" and "y \<in> set xs" and "P y"
  shows "f x \<le> (f y :: nat)"
  using assms
proof (induction xs)
  case (Cons z zs)
  show ?case
  proof (cases "P z")
    case True
    with Cons.prems show ?thesis by auto
  next
    case False
    with Cons show ?thesis by auto
  qed
qed simp

text \<open>The leased key is the cheapest that is not avoided, or the cheapest when all are.\<close>

lemma next_key_cheapest:
  assumes "pool_ok pool" and "next_key avoid a t r pool = Some k"
    and "k' \<in> set (po_keys pool)" and "leasable a t r k'" and "avoid (pk_keyID k) \<longrightarrow> avoid (pk_keyID k')"
  shows "avoid (pk_keyID k') \<and> \<not> avoid (pk_keyID k) \<or> funding_rank (pk_funding k) \<le> funding_rank (pk_funding k')"
proof -
  have s: "sorted (map (\<lambda>k. funding_rank (pk_funding k)) (po_keys pool))"
    using assms(1) by (simp add: pool_ok_def)
  show ?thesis
  proof (cases "find (\<lambda>k. leasable a t r k \<and> \<not> avoid (pk_keyID k)) (po_keys pool)")
    case None
    with assms(2) have "find (leasable a t r) (po_keys pool) = Some k" by (simp add: next_key_def)
    from sorted_find_least [OF s this assms(3,4)] show ?thesis by simp
  next
    case (Some x)
    with assms(2) have "x = k" by (simp add: next_key_def)
    with Some have "\<not> avoid (pk_keyID k)" by (auto dest: find_SomeD)
    with sorted_find_least [OF s Some assms(3)] assms(4) \<open>x = k\<close> show ?thesis by auto
  qed
qed

text \<open>A key is refused only when none of the view is left that is out of neither rotation nor tries.\<close>

lemma next_key_None:
  "next_key avoid a t r pool = None \<Longrightarrow> k \<in> set (po_keys pool) \<Longrightarrow> \<not> leasable a t r k"
  by (auto simp: next_key_def split: option.splits dest: find_NoneD)

section \<open>Properties\<close>

lemma read_signal_exhausted:
  "qo_State (read_signal h e o1) = QuotaExhausted \<Longrightarrow>
   qo_State o1 = QuotaExhausted \<or>
   snd e = SignalRemainingCredits \<and> trim_space (h (fst e)) \<noteq> '''' \<and>
   parse_float_sign (trim_space (h (fst e))) \<in> {Some FloatNegative, Some FloatZero}"
  by (cases "snd e") (auto simp: read_signal_def Let_def split: if_splits option.splits)

lemma fold_read_signal_exhausted:
  "qo_State (fold (read_signal h) m o1) = QuotaExhausted \<Longrightarrow> qo_State o1 \<noteq> QuotaExhausted \<Longrightarrow>
   \<exists>name. (name, SignalRemainingCredits) \<in> set m \<and> trim_space (h name) \<noteq> '''' \<and>
     parse_float_sign (trim_space (h name)) \<in> {Some FloatNegative, Some FloatZero}"
proof (induction m arbitrary: o1)
  case (Cons e m)
  show ?case
  proof (cases "qo_State (read_signal h e o1) = QuotaExhausted")
    case True
    from read_signal_exhausted [OF this] Cons.prems(2) show ?thesis
      by (cases e) auto
  next
    case False
    with Cons.IH [of "read_signal h e o1"] Cons.prems(1) show ?thesis by auto
  qed
qed simp

text \<open>
  A response's headers exhaust a key only when a header the provider's mapping declares to
  carry remaining credits is present and reads as a number that is zero or less. A header that
  is absent, unreadable, or declared to mean something else never does, in whatever order the
  mapping is iterated.
\<close>

theorem quota_exhausted_only_when_reported_zero:
  assumes "qo_State (quota_Read m header) = QuotaExhausted"
  shows "\<exists>h name. header = Some h \<and> (name, SignalRemainingCredits) \<in> set m \<and> trim_space (h name) \<noteq> '''' \<and>
    parse_float_sign (trim_space (h name)) \<in> {Some FloatNegative, Some FloatZero}"
  using assms fold_read_signal_exhausted [of _ m]
  by (fastforce simp: quota_Read_def Let_def split: option.splits if_splits)

theorem quota_exhausted_only_when_reported_zero_witness:
  "\<exists>h name. Some (\<lambda>n :: string. ''0.0'') = Some h \<and> (name, SignalRemainingCredits) \<in> set [(''x-credits'', SignalRemainingCredits)] \<and>
     trim_space (h name) \<noteq> '''' \<and> parse_float_sign (trim_space (h name)) \<in> {Some FloatNegative, Some FloatZero}"
proof (rule quota_exhausted_only_when_reported_zero)
  show "qo_State (quota_Read [(''x-credits'', SignalRemainingCredits)] (Some (\<lambda>n. ''0.0''))) = QuotaExhausted"
    by code_simp
qed

text \<open>
  A pool that is built holds every declared credential and no other, under distinct
  positions, identities and secrets, every secret visible ASCII of 1 to 4096 bytes; its keys are
  ordered cheapest first, and keys of one cost keep the order they were declared in.
\<close>

theorem newKeyPool_well_formed:
  assumes "newKeyPool slug ds pol signals own = Inr pool"
  shows "pool_ok pool \<and> mset (map pk_secret (po_keys pool)) = mset (map kd_Secret ds) \<and>
    (\<forall>r. filter (\<lambda>k. funding_rank (pk_funding k) = r) (po_keys pool) =
         filter (\<lambda>k. funding_rank (pk_funding k) = r) (declared_keys 0 ds))"
proof -
  from newKeyPool_built [OF assms] obtain ks where "built_from 0 [] [] ds ks"
    and k: "po_keys pool = sort_key (\<lambda>k. funding_rank (pk_funding k)) ks" by blast
  then have ks: "ks = declared_keys 0 ds" by (simp add: built_from_def)
  have "map pk_secret (declared_keys i ds) = map kd_Secret ds" for i
    by (induction ds arbitrary: i) simp_all
  then have "mset (map pk_secret (po_keys pool)) = mset (map kd_Secret ds)"
    by (metis k ks mset_map mset_sort)
  with newKeyPool_ok [OF assms] show ?thesis by (simp add: k ks sort_key_stable)
qed

definition two_keys :: "key_declaration list" where
  "two_keys =
     [\<lparr>kd_KeyID = ''p'', kd_Secret = ''s1'', kd_Class = KeyClassPaid, kd_Funding = FundingUnstated,
       kd_Runtime = False, kd_State = no_runtime_state\<rparr>,
      \<lparr>kd_KeyID = '''', kd_Secret = ''s2'', kd_Class = KeyClassFree, kd_Funding = FundingUnstated,
       kd_Runtime = False, kd_State = no_runtime_state\<rparr>]"

definition two_key_pool :: key_pool where
  "two_key_pool = projr (newKeyPool ''acme'' two_keys \<lparr>kp_Retirement = 0, kp_OnSeparateAccounts = True\<rparr>
     [(''x-credits'', SignalRemainingCredits), (''x-reset'', SignalResetAt)] False)"

lemma two_key_pool_built:
  "newKeyPool ''acme'' two_keys \<lparr>kp_Retirement = 0, kp_OnSeparateAccounts = True\<rparr>
     [(''x-credits'', SignalRemainingCredits), (''x-reset'', SignalResetAt)] False = Inr two_key_pool"
proof -
  have "projr (Inr x :: pool_error + key_pool) = x" for x by simp
  moreover have "isl (newKeyPool ''acme'' two_keys \<lparr>kp_Retirement = 0, kp_OnSeparateAccounts = True\<rparr>
     [(''x-credits'', SignalRemainingCredits), (''x-reset'', SignalResetAt)] False) = False"
    by code_simp
  ultimately show ?thesis unfolding two_key_pool_def by (metis sum.collapse(2))
qed

theorem newKeyPool_well_formed_witness:
  "pool_ok two_key_pool \<and> map pk_keyID (po_keys two_key_pool) = [''key-2'', ''p'']"
proof
  show "pool_ok two_key_pool" using newKeyPool_well_formed [OF two_key_pool_built] by blast
qed code_simp

text \<open>
  C17: The key leased to a request belongs to the view (the operator's pin and the route's funding
  ceiling), was not used by this request before, is not retired, and is the cheapest such key
  among those the request has not seen fail; a key it has seen fail is leased only when every
  other usable key of the view has been used.
\<close>

theorem lease_is_cheapest_in_view:
  assumes "pool_ok pool" and "Next avoid a at_time pool = Some (lk, a')"
  shows "\<exists>k \<in> set (po_keys pool). lk = lease pool k \<and> in_view (ka_view a) k \<and>
    pk_position k \<notin> set (ka_tried a) \<and> pk_retiredUntil k \<le> at_time \<and>
    ka_tried a' = pk_position k # ka_tried a \<and>
    (\<forall>k' \<in> set (po_keys pool).
       leasable a at_time True k' \<and> (avoid (pk_keyID k') \<longrightarrow> avoid (pk_keyID k)) \<longrightarrow>
       funding_rank (pk_funding k) \<le> funding_rank (pk_funding k')) \<and>
    (avoid (pk_keyID k) \<longrightarrow> (\<forall>k' \<in> set (po_keys pool). leasable a at_time True k' \<longrightarrow> avoid (pk_keyID k')))"
proof -
  from assms(2) obtain k where k: "next_key avoid a at_time True pool = Some k"
    and l: "lk = lease pool k" and a': "a' = a\<lparr>ka_tried := pk_position k # ka_tried a\<rparr>"
    by (auto simp: Next_def attempt_next_def split: option.splits)
  note kk = next_key_leasable [OF k]
  have av: "avoid (pk_keyID k) \<Longrightarrow> k' \<in> set (po_keys pool) \<Longrightarrow> leasable a at_time True k' \<Longrightarrow> avoid (pk_keyID k')" for k'
    using k by (auto simp: next_key_def split: option.splits dest: find_SomeD find_NoneD)
  show ?thesis
    using kk l a' av next_key_cheapest [OF assms(1) k]
    by (intro bexI [of _ k]) (auto simp: leasable_def is_member_def)
qed

theorem lease_is_cheapest_in_view_witness:
  "\<exists>k \<in> set (po_keys two_key_pool). pk_keyID k = ''key-2'' \<and> pk_retiredUntil k \<le> 5"
proof -
  let ?a = "Begin root_view"
  obtain lk a' where n: "Next (\<lambda>_. False) ?a 5 two_key_pool = Some (lk, a')" and i: "lk_ID lk = ''key-2''"
  proof -
    have "map_option (\<lambda>(k, _). lk_ID k) (Next (\<lambda>_. False) ?a 5 two_key_pool) = Some ''key-2''"
      by code_simp
    then show ?thesis using that by auto
  qed
  have "pool_ok two_key_pool" by (rule newKeyPool_ok [OF two_key_pool_built])
  from lease_is_cheapest_in_view [OF this n] i show ?thesis by (auto simp: lease_def)
qed

end
