(* ===== verification/Adapter_Registry.thy ===== *)
theory Adapter_Registry
  imports Emitter Key_Pool Inventory
begin

text \<open>
  The contract of an upstream adapter and the registry that resolves one
  (\<open>internal/provider/adapter.go\<close>). Adapters are Go interfaces with many implementations: here a
  record of their methods, so that whatever is proved holds for every adapter. \<open>Stream\<close> is the
  tree of what it does: emitting calls, each at some clock reading and each continuing with the
  error the emitter answered, and finally returning an outcome and an error. Its context and its
  credentials are arguments. A nil pool is \<open>None\<close>; an adapter that is no
  \<open>PlatformCredentialSource\<close> has no pool to give at all. A pool and a view of it are a pair, the pool
  being the one of the credential walk.
\<close>

section \<open>Calls and outcomes\<close>

record embedding_result =
  emr_Dimension :: int
  emr_Data :: "rat list list"
  emr_InputTokens :: int
  emr_TotalTokens :: int

text \<open>
  Decision answers are only carried: \<open>'d\<close> is their type. Times to the first token that an adapter
  measured are not read by the executor and left out.
\<close>

record 'd outcome =
  ou_Decisions :: "'d list option"
  ou_Embedding :: "embedding_result option"
  ou_DetectedLanguage :: "string option"
  ou_Units :: "usage_quantity list"
  ou_UsageSource :: usage_source
  ou_FinishReason :: finish_reason
  ou_KeyID :: string
  ou_KeyClass :: key_class
  ou_ProviderReportedCost :: "money option"
  ou_AbandonedExchanges :: int

datatype 'd adapter_run =
    Returns "'d outcome" "go_error option"
  | Emits instant adapter_call "go_error option \<Rightarrow> 'd adapter_run"

type_synonym credentials = "(key_pool \<times> key_view) option"

record chat_output =
  co_Text :: bool
  co_Spoken :: bool

text \<open>\<open>'c\<close> is the translated call, which only its adapter reads.\<close>

record ('c, 'd) adapter =
  ad_Provider :: provider_slug
  ad_APIFormats :: "api_format list"
  ad_ChatOutputs :: "(route \<Rightarrow> chat_output) option"
  ad_PlatformCredentials :: "key_pool option option"
  ad_Translate :: "request \<Rightarrow> route \<Rightarrow> go_error + 'c"
  ad_Stream :: "nat \<Rightarrow> 'c \<Rightarrow> credentials \<Rightarrow> 'd adapter_run"

record session_adapter =
  sa_Provider :: provider_slug
  sa_Kinds :: "string list"
  sa_PlatformCredentials :: "key_pool option option"

datatype ('c, 'd) registrant = OneShot "('c, 'd) adapter" | Session session_adapter

fun registrant_Provider :: "('c, 'd) registrant \<Rightarrow> provider_slug" where
  "registrant_Provider (OneShot a) = ad_Provider a"
| "registrant_Provider (Session s) = sa_Provider s"

fun registrant_pool :: "('c, 'd) registrant \<Rightarrow> key_pool option option" where
  "registrant_pool (OneShot a) = ad_PlatformCredentials a"
| "registrant_pool (Session s) = sa_PlatformCredentials s"

primrec run_adapter :: "'d adapter_run \<Rightarrow> sink \<Rightarrow> emitter \<Rightarrow> ('d outcome \<times> go_error option) \<times> emitter" where
  "run_adapter (Returns r err) sink e = ((r, err), e)"
| "run_adapter (Emits now call k) sink e =
     (let (err, e1) = adapter_apply sink now call e in run_adapter (k err) sink e1)"

section \<open>The registry\<close>

record credential_binding =
  cb_DeploymentID :: deployment_id
  cb_Provider :: provider_slug
  cb_KeyID :: string

text \<open>
  Adapters and sessions are two Go maps keyed by slug; together they are one map to the two kinds of
  registrant, since no slug is ever in both.
\<close>

record ('c, 'd) adapter_registry =
  areg_registrants :: "(provider_slug \<times> ('c, 'd) registrant) list"
  areg_bindings :: "(deployment_id \<times> credential_binding) list"
  areg_bindingsRequired :: bool

datatype registry_error =
    InvalidSlug provider_slug | SlugTwice provider_slug | NoFamily provider_slug | UnknownFamily provider_slug api_format
  | NoSessionKind provider_slug | UnknownSessionKind provider_slug string
  | SessionsOnly provider_slug | NoAdapter provider_slug | RequestsOnly provider_slug
  | NoCredentialSource provider_slug | PinnedElsewhere deployment_id provider_slug | PoolRefused pool_error
  | NoPlatformKey deployment_id provider_slug
  | InvalidBinding | DuplicateBinding deployment_id | UnconfiguredProvider deployment_id provider_slug

definition check_registrant :: "('c, 'd) registrant \<Rightarrow> registry_error option" where
  "check_registrant r =
     (case r of
        OneShot a \<Rightarrow>
          if ad_APIFormats a = [] then Some (NoFamily (ad_Provider a))
          else map_option (UnknownFamily (ad_Provider a)) (List.find (\<lambda>f. \<not> is_member f apiFormatValues) (ad_APIFormats a))
      | Session s \<Rightarrow>
          if sa_Kinds s = [] then Some (NoSessionKind (sa_Provider s))
          else map_option (UnknownSessionKind (sa_Provider s))
                 (List.find (\<lambda>k. \<not> is_member k realtimeSessionKindValues) (sa_Kinds s)))"

fun register_all ::
  "('c, 'd) registrant list \<Rightarrow> (provider_slug \<times> ('c, 'd) registrant) list \<Rightarrow>
   registry_error + (provider_slug \<times> ('c, 'd) registrant) list" where
  "register_all [] m = Inr m"
| "register_all (r # rs) m =
     (let slug = registrant_Provider r
      in if \<not> slug_Valid slug then Inl (InvalidSlug slug)
         else if map_of m slug \<noteq> None then Inl (SlugTwice slug)
         else case check_registrant r of Some e \<Rightarrow> Inl e | None \<Rightarrow> register_all rs ((slug, r) # m))"

definition NewAdapterRegistry :: "('c, 'd) registrant list \<Rightarrow> registry_error + ('c, 'd) adapter_registry" where
  "NewAdapterRegistry rs =
     (case register_all rs [] of
        Inl e \<Rightarrow> Inl e
      | Inr m \<Rightarrow> Inr \<lparr>areg_registrants = m, areg_bindings = [], areg_bindingsRequired = False\<rparr>)"

definition Serves :: "('c, 'd) adapter_registry \<Rightarrow> provider_slug \<Rightarrow> bool" where
  "Serves g slug \<longleftrightarrow> map_of (areg_registrants g) slug \<noteq> None"

definition Lookup :: "('c, 'd) adapter_registry \<Rightarrow> provider_slug \<Rightarrow> ('c, 'd) adapter option" where
  "Lookup g slug = (case map_of (areg_registrants g) slug of Some (OneShot a) \<Rightarrow> Some a | _ \<Rightarrow> None)"

definition ServingKinds :: "('c, 'd) adapter_registry option \<Rightarrow> provider_slug \<Rightarrow> string list \<times> bool \<times> bool" where
  "ServingKinds r slug =
     (case Option.bind r (\<lambda>g. map_of (areg_registrants g) slug) of
        None \<Rightarrow> ([], False, False)
      | Some (Session s) \<Rightarrow> (sa_Kinds s, False, True)
      | Some (OneShot _) \<Rightarrow> ([], True, True))"

text \<open>The pin or the pool. Binding a key of a nil pool is refused like an empty key id.\<close>

definition bind_key :: "key_pool option \<Rightarrow> string \<Rightarrow> pool_error + key_pool \<times> key_view" where
  "bind_key pool keyID =
     (case pool of
        None \<Rightarrow> Inl KeyIDRequired
      | Some p \<Rightarrow> map_sum (\<lambda>e. e) (\<lambda>v. (p, v)) (Bind p root_view keyID))"

definition platformCredential ::
  "('c, 'd) adapter_registry \<Rightarrow> deployment_id \<Rightarrow> provider_slug \<Rightarrow> ('c, 'd) registrant \<Rightarrow> registry_error + credentials" where
  "platformCredential g d slug r =
     (if \<not> areg_bindingsRequired g then Inr None
      else case registrant_pool r of
             None \<Rightarrow> Inl (NoCredentialSource slug)
           | Some pool \<Rightarrow>
               (case map_of (areg_bindings g) d of
                  Some b \<Rightarrow>
                    if cb_Provider b \<noteq> slug then Inl (PinnedElsewhere d (cb_Provider b))
                    else map_sum PoolRefused Some (bind_key pool (cb_KeyID b))
                | None \<Rightarrow>
                    (case pool of
                       None \<Rightarrow> Inl (NoPlatformKey d slug)
                     | Some p \<Rightarrow> if \<not> Configured p then Inl (NoPlatformKey d slug) else Inr (Some (p, root_view)))))"

definition ResolveExecution ::
  "('c, 'd) adapter_registry \<Rightarrow> deployment_id \<Rightarrow> provider_slug \<Rightarrow> bool \<Rightarrow>
   registry_error + ('c, 'd) adapter \<times> credentials" where
  "ResolveExecution g d slug platform =
     (case map_of (areg_registrants g) slug of
        None \<Rightarrow> Inl (NoAdapter slug)
      | Some (Session _) \<Rightarrow> Inl (SessionsOnly slug)
      | Some (OneShot a) \<Rightarrow>
          if \<not> platform then Inr (a, None)
          else map_sum (\<lambda>e. e) (\<lambda>c. (a, c)) (platformCredential g d slug (OneShot a)))"

definition ResolveRealtimeExecution ::
  "('c, 'd) adapter_registry \<Rightarrow> deployment_id \<Rightarrow> provider_slug \<Rightarrow> registry_error + session_adapter \<times> credentials" where
  "ResolveRealtimeExecution g d slug =
     (case map_of (areg_registrants g) slug of
        None \<Rightarrow> Inl (NoAdapter slug)
      | Some (OneShot _) \<Rightarrow> Inl (RequestsOnly slug)
      | Some (Session s) \<Rightarrow> map_sum (\<lambda>e. e) (\<lambda>c. (s, c)) (platformCredential g d slug (Session s)))"

definition ResolveCredential ::
  "('c, 'd) adapter_registry \<Rightarrow> deployment_id \<Rightarrow> provider_slug \<Rightarrow> registry_error + credentials" where
  "ResolveCredential g d slug =
     (case map_of (areg_registrants g) slug of
        None \<Rightarrow> Inl (NoAdapter slug)
      | Some r \<Rightarrow> platformCredential g d slug r)"

fun add_bindings ::
  "credential_binding list \<Rightarrow> ('c, 'd) adapter_registry \<Rightarrow> registry_error + ('c, 'd) adapter_registry" where
  "add_bindings [] g = Inr g"
| "add_bindings (b # bs) g =
     (if cb_DeploymentID b = '''' \<or> \<not> slug_Valid (cb_Provider b) \<or> cb_KeyID b = '''' then Inl InvalidBinding
      else if map_of (areg_bindings g) (cb_DeploymentID b) \<noteq> None then Inl (DuplicateBinding (cb_DeploymentID b))
      else case map_of (areg_registrants g) (cb_Provider b) of
             None \<Rightarrow> Inl (UnconfiguredProvider (cb_DeploymentID b) (cb_Provider b))
           | Some r \<Rightarrow>
               (case registrant_pool r of
                  None \<Rightarrow> Inl (NoCredentialSource (cb_Provider b))
                | Some pool \<Rightarrow>
                    (case bind_key pool (cb_KeyID b) of
                       Inl e \<Rightarrow> Inl (PoolRefused e)
                     | Inr _ \<Rightarrow> add_bindings bs (g\<lparr>areg_bindings := (cb_DeploymentID b, b) # areg_bindings g\<rparr>))))"

definition ReplaceGeneration ::
  "credential_binding list \<Rightarrow> ('c, 'd) registrant list \<Rightarrow> ('c, 'd) adapter_registry \<Rightarrow>
   registry_error option \<times> ('c, 'd) adapter_registry" where
  "ReplaceGeneration bindings rs g =
     (case NewAdapterRegistry rs of
        Inl e \<Rightarrow> (Some e, g)
      | Inr fresh \<Rightarrow>
          (case add_bindings bindings fresh of
             Inl e \<Rightarrow> (Some e, g)
           | Inr bound \<Rightarrow> (None, bound\<lparr>areg_bindingsRequired := True\<rparr>)))"

definition Replace ::
  "('c, 'd) registrant list \<Rightarrow> ('c, 'd) adapter_registry \<Rightarrow> registry_error option \<times> ('c, 'd) adapter_registry" where
  "Replace rs g =
     (case NewAdapterRegistry rs of
        Inl e \<Rightarrow> (Some e, g)
      | Inr fresh \<Rightarrow> (None, g\<lparr>areg_registrants := areg_registrants fresh\<rparr>))"

definition Executes :: "('c, 'd) adapter \<Rightarrow> api_format \<Rightarrow> bool" where
  "Executes a format \<longleftrightarrow> is_member format (ad_APIFormats a)"

definition ChatOutputsOf :: "('c, 'd) adapter \<Rightarrow> route \<Rightarrow> chat_output" where
  "ChatOutputsOf a r = (case ad_ChatOutputs a of Some f \<Rightarrow> f r | None \<Rightarrow> \<lparr>co_Text = True, co_Spoken = False\<rparr>)"

section \<open>Lemmas\<close>

lemma add_bindings_registrants: "add_bindings bs g = Inr g' \<Longrightarrow> areg_registrants g' = areg_registrants g"
  by (induction bs g rule: add_bindings.induct) (auto split: if_splits option.splits sum.splits)

lemma add_bindings_bound:
  "add_bindings bs g = Inr g' \<Longrightarrow>
   (\<forall>d b. map_of (areg_bindings g) d = Some b \<longrightarrow> (\<exists>r p v. map_of (areg_registrants g) (cb_Provider b) = Some r \<and>
      registrant_pool r = Some p \<and> bind_key p (cb_KeyID b) = Inr v)) \<Longrightarrow>
   (\<forall>d b. map_of (areg_bindings g') d = Some b \<longrightarrow> (\<exists>r p v. map_of (areg_registrants g') (cb_Provider b) = Some r \<and>
      registrant_pool r = Some p \<and> bind_key p (cb_KeyID b) = Inr v))"
  by (induction bs g rule: add_bindings.induct) (auto split: if_splits option.splits sum.splits)

section \<open>Properties\<close>

text \<open>
  A pin is final. In a generation that was installed with its bindings, a deployment with a
  binding executes on a view of exactly that key of exactly that provider's pool, or is refused;
  it never falls back to the rest of a pool.
\<close>

lemma pinned_deployment_uses_its_key:
  assumes "ReplaceGeneration bindings rs g0 = (None, g)" and "map_of (areg_bindings g) d = Some b"
    and "ResolveExecution g d slug True = Inr (a, creds)"
  shows "\<exists>p v. creds = Some (p, v) \<and> kv_onlyKeyID v = cb_KeyID b \<and> cb_Provider b = slug \<and>
    ad_PlatformCredentials a = Some (Some p) \<and> list_ex (\<lambda>k. pk_keyID k = cb_KeyID b) (po_keys p)"
proof -
  from assms(1) have req: "areg_bindingsRequired g"
    by (auto simp: ReplaceGeneration_def split: sum.splits)
  from assms(3) have m: "map_of (areg_registrants g) slug = Some (OneShot a)" and
    c: "platformCredential g d slug (OneShot a) = Inr creds"
    by (auto simp: ResolveExecution_def split: option.splits registrant.splits sum.splits if_splits)
      (auto simp: map_sum_def split: sum.splits)
  from c req assms(2) obtain pool where "ad_PlatformCredentials a = Some pool" "cb_Provider b = slug"
    "map_sum PoolRefused Some (bind_key pool (cb_KeyID b)) = Inr creds"
    by (auto simp: platformCredential_def split: option.splits if_splits)
  then show ?thesis
    by (auto simp: bind_key_def Bind_def list_ex_iff split: option.splits sum.splits if_splits dest!: find_SomeD)
qed

end
