(* ===== verification/Admission_Lane.thy ===== *)
theory Admission_Lane
  imports Kaana_Prelude
begin

text \<open>
  The contract the executor relies on when it asks whether an attempt may start: an admission
  registry keeps one lane per key, an admission answers for its key at one instant, and what is
  reported on one permit describes one lane only. The deployment breakers
  (\<open>internal/rotation\<close>) and the customer credential lanes (\<open>internal/customerlimit\<close>) both
  promise it; the lemmas here are proved once from the contract.
\<close>

datatype ('k, 'p, 'o) lane_op =
    LaneAdmit 'k instant
  | LaneReport 'p 'o instant

locale admission_lane =
  fixes admit :: "'k \<Rightarrow> instant \<Rightarrow> 's \<Rightarrow> 'p option \<times> 's"
    and report :: "'p \<Rightarrow> 'o \<Rightarrow> instant \<Rightarrow> 's \<Rightarrow> 's"
    and key_of :: "'p \<Rightarrow> 'k"
    and blocked :: "'k \<Rightarrow> instant \<Rightarrow> 's \<Rightarrow> bool"
    and neutral :: "'o \<Rightarrow> bool"
  assumes admit_key: "admit k t s = (Some p, s') \<Longrightarrow> key_of p = k"
    and admit_blocked: "fst (admit k t s) = None \<longleftrightarrow> blocked k t s"
    and admit_other: "k \<noteq> k' \<Longrightarrow> t \<le> t' \<Longrightarrow> blocked k' t' (snd (admit k t s)) \<longleftrightarrow> blocked k' t' s"
    and report_other: "key_of p \<noteq> k' \<Longrightarrow> blocked k' t' (report p res t s) \<longleftrightarrow> blocked k' t' s"
    and report_neutral: "neutral res \<Longrightarrow> \<not> blocked k' t' s \<Longrightarrow> \<not> blocked k' t' (report p res t s)"
begin

fun lane_apply :: "('k, 'p, 'o) lane_op \<Rightarrow> 's \<Rightarrow> 's" where
  "lane_apply (LaneAdmit k t) s = snd (admit k t s)"
| "lane_apply (LaneReport p res t) s = report p res t s"

fun concerns :: "('k, 'p, 'o) lane_op \<Rightarrow> 'k" where
  "concerns (LaneAdmit k t) = k"
| "concerns (LaneReport p res t) = key_of p"

fun happens_at :: "('k, 'p, 'o) lane_op \<Rightarrow> instant" where
  "happens_at (LaneAdmit k t) = t"
| "happens_at (LaneReport p res t) = t"

fun neutral_report :: "('k, 'p, 'o) lane_op \<Rightarrow> bool" where
  "neutral_report (LaneAdmit k t) = False"
| "neutral_report (LaneReport p res t) = neutral res"

lemma lane_apply_other:
  "concerns x \<noteq> k \<Longrightarrow> happens_at x \<le> t \<Longrightarrow> blocked k t (lane_apply x s) \<longleftrightarrow> blocked k t s"
  by (cases x) (simp_all add: admit_other report_other)

text \<open>Traffic on other lanes never changes what one lane answers.\<close>

lemma lane_isolation:
  assumes "\<forall>x \<in> set xs. concerns x \<noteq> k \<and> happens_at x \<le> t"
  shows "fst (admit k t (fold lane_apply xs s)) = None \<longleftrightarrow> fst (admit k t s) = None"
proof -
  from assms have "blocked k t (fold lane_apply xs s) \<longleftrightarrow> blocked k t s"
    by (induction xs arbitrary: s) (simp_all add: lane_apply_other)
  then show ?thesis by (simp add: admit_blocked)
qed

text \<open>Outcomes that describe the request and not the lane never close a lane.\<close>

lemma neutral_keeps_open:
  assumes "\<forall>x \<in> set xs. neutral_report x" and "fst (admit k t s) \<noteq> None"
  shows "fst (admit k t (fold lane_apply xs s)) \<noteq> None"
proof -
  have "neutral_report x \<Longrightarrow> \<not> blocked k t s \<Longrightarrow> \<not> blocked k t (lane_apply x s)" for x s
    by (cases x) (simp_all add: report_neutral)
  with assms(1) have "\<not> blocked k t s \<Longrightarrow> \<not> blocked k t (fold lane_apply xs s)"
    by (induction xs arbitrary: s) simp_all
  with assms(2) show ?thesis by (simp add: admit_blocked)
qed

end

end
