(* ===== verification/Rotation.thy ===== *)
theory Rotation
  imports Complex_Main Admission_Lane
begin

text \<open>
  \<open>internal/rotation/rotation.go\<close>: one circuit breaker and one health score per deployment.
  Each exported method holds the registry's mutex for its whole body, so an operation is one
  atomic state transformer here, and concurrent callers are interleavings of them
  (\<open>rotation_step\<close>). The clock reading an operation makes is its \<open>now\<close> argument.
  The health score is a Go \<open>float64\<close>; it is modelled by exact rationals, so rounding is not
  represented.
\<close>

section \<open>State\<close>

datatype breaker_state = StateClosed | StateOpen | StateHalfOpen

record policy =
  FailuresToOpen :: int
  Cooldown :: duration
  MaxCooldown :: duration
  SuccessesToClose :: int
  ScoreWeight :: rat

definition DefaultPolicy :: policy where
  "DefaultPolicy = \<lparr>FailuresToOpen = 3, Cooldown = 5 * second, MaxCooldown = 2 * minute,
     SuccessesToClose = 1, ScoreWeight = 1 / 5\<rparr>"

record breaker =
  br_state :: breaker_state
  br_consecutiveFailures :: int
  br_trialSuccesses :: int
  br_trialInFlight :: bool
  br_cooldown :: duration
  br_probesAt :: instant
  br_score :: rat

record registry =
  reg_policy :: policy
  reg_breakers :: "deployment_id \<rightharpoonup> breaker"

record permit =
  pm_id :: deployment_id
  pm_trial :: bool
  pm_reported :: bool

datatype rotation_outcome = outcomeServed | outcomeFailed | outcomeIrrelevant

section \<open>Operations\<close>

definition maxDuration :: "duration \<Rightarrow> duration \<Rightarrow> duration" where
  "maxDuration a b = (if a > b then a else b)"

definition NewRegistry :: "policy \<Rightarrow> registry" where
  "NewRegistry p =
     (let defaults = DefaultPolicy;
          p = (if FailuresToOpen p \<le> 0 then p\<lparr>FailuresToOpen := FailuresToOpen defaults\<rparr> else p);
          p = (if Cooldown p \<le> 0 then p\<lparr>Cooldown := Cooldown defaults\<rparr> else p);
          p = (if MaxCooldown p < Cooldown p
               then p\<lparr>MaxCooldown := maxDuration (MaxCooldown defaults) (Cooldown p)\<rparr> else p);
          p = (if SuccessesToClose p \<le> 0 then p\<lparr>SuccessesToClose := SuccessesToClose defaults\<rparr> else p);
          p = (if ScoreWeight p \<le> 0 \<or> ScoreWeight p > 1
               then p\<lparr>ScoreWeight := ScoreWeight defaults\<rparr> else p)
      in \<lparr>reg_policy = p, reg_breakers = Map.empty\<rparr>)"

definition fresh_breaker :: breaker where
  "fresh_breaker = \<lparr>br_state = StateClosed, br_consecutiveFailures = 0, br_trialSuccesses = 0,
     br_trialInFlight = False, br_cooldown = 0, br_probesAt = zero_time, br_score = 1\<rparr>"

text \<open>
  \<open>breakerLocked\<close> returns the entry of a deployment, inserting a fresh one when there is
  none. The Go code mutates the entry through its pointer; here the mutated entry is written
  back with \<open>store_breaker\<close>.
\<close>

definition store_breaker :: "registry \<Rightarrow> deployment_id \<Rightarrow> breaker \<Rightarrow> registry" where
  "store_breaker r dep entry = r\<lparr>reg_breakers := (reg_breakers r)(dep \<mapsto> entry)\<rparr>"

definition breakerLocked :: "registry \<Rightarrow> deployment_id \<Rightarrow> breaker \<times> registry" where
  "breakerLocked r dep =
     (case reg_breakers r dep of
        Some entry \<Rightarrow> (entry, r)
      | None \<Rightarrow> (fresh_breaker, store_breaker r dep fresh_breaker))"

definition blend :: "policy \<Rightarrow> rat \<Rightarrow> rat \<Rightarrow> rat" where
  "blend p current observed = current * (1 - ScoreWeight p) + observed * ScoreWeight p"

definition escalate :: "policy \<Rightarrow> duration \<Rightarrow> duration" where
  "escalate p current =
     (if current \<le> 0 then Cooldown p
      else let doubled = int64 (current * 2)
           in if doubled > MaxCooldown p then MaxCooldown p else doubled)"

definition Admit :: "deployment_id \<Rightarrow> instant \<Rightarrow> registry \<Rightarrow> permit option \<times> registry" where
  "Admit dep now r0 =
     (let (entry, r) = breakerLocked r0 dep
      in case br_state entry of
           StateClosed \<Rightarrow> (Some \<lparr>pm_id = dep, pm_trial = False, pm_reported = False\<rparr>, r)
         | StateOpen \<Rightarrow>
             (if now < br_probesAt entry then (None, r)
              else (Some \<lparr>pm_id = dep, pm_trial = True, pm_reported = False\<rparr>,
                    store_breaker r dep (entry\<lparr>br_state := StateHalfOpen, br_trialSuccesses := 0,
                                              br_trialInFlight := True\<rparr>)))
         | StateHalfOpen \<Rightarrow>
             (if br_trialInFlight entry then (None, r)
              else (Some \<lparr>pm_id = dep, pm_trial = True, pm_reported = False\<rparr>,
                    store_breaker r dep (entry\<lparr>br_trialInFlight := True\<rparr>))))"

text \<open>The effect of one outcome on the entry it describes (\<open>Registry.record\<close>).\<close>

definition reopen :: "policy \<Rightarrow> instant \<Rightarrow> breaker \<Rightarrow> breaker" where
  "reopen p now entry =
     (let cooldown = escalate p (br_cooldown entry)
      in entry\<lparr>br_cooldown := cooldown, br_state := StateOpen, br_probesAt := now + cooldown\<rparr>)"

definition record_entry ::
  "policy \<Rightarrow> bool \<Rightarrow> rotation_outcome \<Rightarrow> instant \<Rightarrow> breaker \<Rightarrow> breaker" where
  "record_entry p trial result now entry0 =
     (let entry = (if trial then entry0\<lparr>br_trialInFlight := False\<rparr> else entry0)
      in case result of
           outcomeIrrelevant \<Rightarrow> entry
         | outcomeServed \<Rightarrow>
             (let entry = entry\<lparr>br_score := blend p (br_score entry) 1, br_consecutiveFailures := 0\<rparr>
              in if \<not> trial then entry
                 else let entry = entry\<lparr>br_trialSuccesses := br_trialSuccesses entry + 1\<rparr>
                      in if br_trialSuccesses entry \<ge> SuccessesToClose p
                         then entry\<lparr>br_state := StateClosed, br_trialSuccesses := 0, br_cooldown := 0\<rparr>
                         else entry)
         | outcomeFailed \<Rightarrow>
             (let entry = entry\<lparr>br_score := blend p (br_score entry) 0,
                                br_consecutiveFailures := br_consecutiveFailures entry + 1\<rparr>
              in if trial then (reopen p now entry)\<lparr>br_trialSuccesses := 0\<rparr>
                 else if br_consecutiveFailures entry \<ge> FailuresToOpen p then reopen p now entry
                 else entry))"

definition record_outcome ::
  "deployment_id \<Rightarrow> bool \<Rightarrow> rotation_outcome \<Rightarrow> instant \<Rightarrow> registry \<Rightarrow> registry" where
  "record_outcome dep trial result now r0 =
     (let (entry, r) = breakerLocked r0 dep
      in store_breaker r dep (record_entry (reg_policy r) trial result now entry))"

text \<open>
  \<open>Permit.report\<close>. A nil permit is a no-op permit (\<open>None\<close>): the executor holds one for a
  customer route.
\<close>

definition permit_report ::
  "permit option \<Rightarrow> rotation_outcome \<Rightarrow> instant \<Rightarrow> registry \<Rightarrow> permit option \<times> registry" where
  "permit_report p result now r =
     (case p of
        None \<Rightarrow> (None, r)
      | Some pm \<Rightarrow>
          (if pm_reported pm then (Some pm, r)
           else (Some (pm\<lparr>pm_reported := True\<rparr>), record_outcome (pm_id pm) (pm_trial pm) result now r)))"

fun soonest_loop ::
  "registry \<Rightarrow> instant \<Rightarrow> deployment_id list \<Rightarrow> duration \<times> bool \<Rightarrow> duration \<times> bool" where
  "soonest_loop r at_time [] (soonest, found) = (soonest, found)"
| "soonest_loop r at_time (dep # ids) (soonest, found) =
     (case reg_breakers r dep of
        None \<Rightarrow> soonest_loop r at_time ids (soonest, found)
      | Some entry \<Rightarrow>
          (let wait = time_sub (br_probesAt entry) at_time;
               wait = (if wait < 0 then 0 else wait)
           in if \<not> found \<or> wait < soonest then soonest_loop r at_time ids (wait, True)
              else soonest_loop r at_time ids (soonest, found)))"

definition SoonestProbe :: "registry \<Rightarrow> deployment_id list \<Rightarrow> instant \<Rightarrow> duration \<times> bool" where
  "SoonestProbe r ids at_time = soonest_loop r at_time ids (0, False)"

record health =
  h_DeploymentID :: deployment_id
  h_State :: breaker_state
  h_Score :: rat
  h_ConsecutiveFailures :: int
  h_ProbesAt :: "instant option"

text \<open>Go's \<open>int(x)\<close> conversion truncates towards zero.\<close>

definition int_of_float :: "rat \<Rightarrow> int" where
  "int_of_float x = (if x \<ge> 0 then \<lfloor>x\<rfloor> else \<lceil>x\<rceil>)"

definition roundScore :: "rat \<Rightarrow> rat" where
  "roundScore score = rat_of_int (int_of_float (score * 1000 + 1 / 2)) / 1000"

definition project_entry :: "deployment_id \<Rightarrow> breaker \<Rightarrow> health" where
  "project_entry dep entry =
     \<lparr>h_DeploymentID = dep, h_State = br_state entry, h_Score = roundScore (br_score entry),
      h_ConsecutiveFailures = br_consecutiveFailures entry,
      h_ProbesAt = (if br_state entry \<noteq> StateClosed then Some (br_probesAt entry) else None)\<rparr>"

fun Project :: "deployment_id list \<Rightarrow> registry \<Rightarrow> health list \<times> registry" where
  "Project [] r = ([], r)"
| "Project (dep # ids) r =
     (let (entry, r1) = breakerLocked r dep;
          (rest, r2) = Project ids r1
      in (project_entry dep entry # rest, r2))"

definition Retain :: "deployment_id list \<Rightarrow> registry \<Rightarrow> registry" where
  "Retain known r = r\<lparr>reg_breakers := (\<lambda>dep. if is_member dep known then reg_breakers r dep else None)\<rparr>"

section \<open>Interleavings\<close>

text \<open>
  A system is a registry, the permits handed out and not yet reported, and a clock. A step is
  one registry operation by some caller, or the clock advancing.
\<close>

record rotation_system =
  rs_registry :: registry
  rs_permits :: "permit list"
  rs_now :: instant

inductive rotation_step :: "rotation_system \<Rightarrow> rotation_system \<Rightarrow> bool" where
  step_admit: "Admit dep (rs_now s) (rs_registry s) = (Some p, r) \<Longrightarrow>
     rotation_step s (s\<lparr>rs_registry := r, rs_permits := p # rs_permits s\<rparr>)"
| step_refuse: "Admit dep (rs_now s) (rs_registry s) = (None, r) \<Longrightarrow>
     rotation_step s (s\<lparr>rs_registry := r\<rparr>)"
| step_report: "p \<in> set (rs_permits s) \<Longrightarrow>
     permit_report (Some p) result (rs_now s) (rs_registry s) = (p', r) \<Longrightarrow>
     rotation_step s (s\<lparr>rs_registry := r, rs_permits := remove1 p (rs_permits s)\<rparr>)"
| step_project: "Project ids (rs_registry s) = (hs, r) \<Longrightarrow>
     rotation_step s (s\<lparr>rs_registry := r\<rparr>)"
| step_retain: "rotation_step s (s\<lparr>rs_registry := Retain known (rs_registry s)\<rparr>)"
| step_tick: "rs_now s \<le> t \<Longrightarrow> rotation_step s (s\<lparr>rs_now := t\<rparr>)"

definition rotation_start :: "policy \<Rightarrow> instant \<Rightarrow> rotation_system" where
  "rotation_start p t = \<lparr>rs_registry = NewRegistry p, rs_permits = [], rs_now = t\<rparr>"

inductive rotation_reachable :: "policy \<Rightarrow> instant \<Rightarrow> rotation_system \<Rightarrow> bool" for p t where
  reach_start: "rotation_reachable p t (rotation_start p t)"
| reach_step: "rotation_reachable p t s \<Longrightarrow> rotation_step s s' \<Longrightarrow> rotation_reachable p t s'"

section \<open>The policy and the entries stay well formed\<close>

definition policy_ok :: "policy \<Rightarrow> bool" where
  "policy_ok p \<longleftrightarrow> 0 < FailuresToOpen p \<and> 0 < Cooldown p \<and> Cooldown p \<le> MaxCooldown p \<and>
     MaxCooldown p < 2 ^ 62 \<and> 0 < SuccessesToClose p \<and> 0 < ScoreWeight p \<and> ScoreWeight p \<le> 1"

definition breaker_ok :: "policy \<Rightarrow> instant \<Rightarrow> breaker \<Rightarrow> bool" where
  "breaker_ok p now b \<longleftrightarrow> 0 \<le> br_score b \<and> br_score b \<le> 1 \<and> 0 \<le> br_consecutiveFailures b \<and>
     (br_state b = StateClosed \<longrightarrow> br_cooldown b = 0 \<and> br_consecutiveFailures b < FailuresToOpen p) \<and>
     (br_state b \<noteq> StateClosed \<longrightarrow> Cooldown p \<le> br_cooldown b \<and> br_cooldown b \<le> MaxCooldown p \<and>
        br_probesAt b \<le> now + MaxCooldown p)"

definition registry_ok :: "instant \<Rightarrow> registry \<Rightarrow> bool" where
  "registry_ok now r \<longleftrightarrow> policy_ok (reg_policy r) \<and>
     (\<forall>dep b. reg_breakers r dep = Some b \<longrightarrow> breaker_ok (reg_policy r) now b)"

lemma NewRegistry_policy_ok:
  "Cooldown p < 2 ^ 62 \<Longrightarrow> MaxCooldown p < 2 ^ 62 \<Longrightarrow> policy_ok (reg_policy (NewRegistry p))"
  by (auto simp: NewRegistry_def Let_def DefaultPolicy_def policy_ok_def maxDuration_def go_arith)

lemma fresh_breaker_ok: "policy_ok p \<Longrightarrow> breaker_ok p now fresh_breaker"
  by (simp add: breaker_ok_def fresh_breaker_def policy_ok_def)

lemma escalate_bounds:
  assumes "policy_ok p" and "c = 0 \<or> Cooldown p \<le> c \<and> c \<le> MaxCooldown p"
  shows "Cooldown p \<le> escalate p c \<and> escalate p c \<le> MaxCooldown p"
proof -
  have "0 \<le> c \<Longrightarrow> c \<le> MaxCooldown p \<Longrightarrow> int64 (c * 2) = c * 2"
    using assms(1) by (intro int64_id) (auto simp: policy_ok_def)
  with assms show ?thesis by (auto simp: escalate_def Let_def policy_ok_def)
qed

lemma reopen_ok:
  assumes "policy_ok p" and "breaker_ok p now b"
  shows "breaker_ok p now (reopen p now b)"
proof -
  have "br_cooldown b = 0 \<or> Cooldown p \<le> br_cooldown b \<and> br_cooldown b \<le> MaxCooldown p"
    using assms(2) by (auto simp: breaker_ok_def)
  from escalate_bounds [OF assms(1) this] show ?thesis
    using assms(2) by (auto simp: reopen_def Let_def breaker_ok_def)
qed

lemma blend_bounds:
  assumes "policy_ok p" and "0 \<le> x" and "x \<le> 1" and "0 \<le> y" and "y \<le> 1"
  shows "0 \<le> blend p x y \<and> blend p x y \<le> 1"
proof -
  let ?w = "ScoreWeight p"
  have w: "0 < ?w" "?w \<le> 1" using assms(1) by (auto simp: policy_ok_def)
  have "0 \<le> x * (1 - ?w) + y * ?w" using w assms by simp
  moreover have "x * (1 - ?w) \<le> 1 - ?w" and "y * ?w \<le> ?w"
    using w assms by (simp_all add: mult_left_le_one_le)
  ultimately show ?thesis by (simp add: blend_def)
qed

lemma breaker_ok_mono: "breaker_ok p now b \<Longrightarrow> now \<le> t \<Longrightarrow> breaker_ok p t b"
  by (auto simp: breaker_ok_def)

text \<open>The failure count passes through the threshold only on the way to \<open>StateOpen\<close>.\<close>

lemma record_entry_ok:
  assumes p: "policy_ok p" and b: "breaker_ok p now b"
  shows "breaker_ok p now (record_entry p trial result now b)"
proof -
  define b1 where "b1 = (if trial then b\<lparr>br_trialInFlight := False\<rparr> else b)"
  have b1: "breaker_ok p now b1"
    using b by (simp add: b1_def breaker_ok_def)
  have s0: "0 \<le> blend p (br_score b1) 0 \<and> blend p (br_score b1) 0 \<le> 1"
    and s1: "0 \<le> blend p (br_score b1) 1 \<and> blend p (br_score b1) 1 \<le> 1"
    using blend_bounds [OF p] b1 by (auto simp: breaker_ok_def)
  show ?thesis
  proof (cases result)
    case outcomeIrrelevant
    then show ?thesis using b1 by (simp add: record_entry_def b1_def [symmetric] Let_def)
  next
    case outcomeServed
    then show ?thesis using b1 s1 p
      by (auto simp: record_entry_def b1_def [symmetric] Let_def breaker_ok_def policy_ok_def)
  next
    case outcomeFailed
    define b2 where "b2 = b1\<lparr>br_score := blend p (br_score b1) 0,
      br_consecutiveFailures := br_consecutiveFailures b1 + 1\<rparr>"
    define b3 where "b3 = b2\<lparr>br_consecutiveFailures := 0\<rparr>"
    have "breaker_ok p now b3"
      using b1 s0 p by (auto simp: b3_def b2_def breaker_ok_def policy_ok_def)
    from reopen_ok [OF p this] have re: "breaker_ok p now (reopen p now b2)"
      using b1 by (auto simp: b3_def b2_def reopen_def Let_def breaker_ok_def)
    have "br_consecutiveFailures b2 < FailuresToOpen p \<Longrightarrow> breaker_ok p now b2"
      using b1 s0 by (auto simp: b2_def breaker_ok_def)
    with re outcomeFailed show ?thesis
      by (auto simp: record_entry_def b1_def [symmetric] Let_def b2_def [symmetric] breaker_ok_def
          split: if_splits)
  qed
qed

section \<open>Reading and writing one entry\<close>

definition entry_of :: "registry \<Rightarrow> deployment_id \<Rightarrow> breaker" where
  "entry_of r dep = (case reg_breakers r dep of Some entry \<Rightarrow> entry | None \<Rightarrow> fresh_breaker)"

lemma store_breaker_simps [simp]:
  "reg_policy (store_breaker r dep b) = reg_policy r"
  "reg_breakers (store_breaker r dep b) = (reg_breakers r)(dep \<mapsto> b)"
  "store_breaker (store_breaker r dep b) dep b' = store_breaker r dep b'"
  "entry_of (store_breaker r dep b) d = (if d = dep then b else entry_of r d)"
  by (simp_all add: store_breaker_def entry_of_def)

lemma breakerLocked_eq: "breakerLocked r dep = (entry_of r dep, store_breaker r dep (entry_of r dep))"
  by (auto simp: breakerLocked_def entry_of_def store_breaker_def fun_upd_idem split: option.split)

lemma Admit_eq:
  "Admit dep now r =
     (let entry = entry_of r dep; trial = \<lparr>pm_id = dep, pm_trial = True, pm_reported = False\<rparr>
      in case br_state entry of
           StateClosed \<Rightarrow> (Some \<lparr>pm_id = dep, pm_trial = False, pm_reported = False\<rparr>,
                           store_breaker r dep entry)
         | StateOpen \<Rightarrow>
             (if now < br_probesAt entry then (None, store_breaker r dep entry)
              else (Some trial, store_breaker r dep (entry\<lparr>br_state := StateHalfOpen,
                                 br_trialSuccesses := 0, br_trialInFlight := True\<rparr>)))
         | StateHalfOpen \<Rightarrow>
             (if br_trialInFlight entry then (None, store_breaker r dep entry)
              else (Some trial, store_breaker r dep (entry\<lparr>br_trialInFlight := True\<rparr>))))"
  by (simp add: Admit_def breakerLocked_eq Let_def split: breaker_state.split)

lemma record_outcome_eq:
  "record_outcome dep trial result now r =
     store_breaker r dep (record_entry (reg_policy r) trial result now (entry_of r dep))"
  by (simp add: record_outcome_def breakerLocked_eq)

lemma registry_ok_entry: "registry_ok now r \<Longrightarrow> breaker_ok (reg_policy r) now (entry_of r dep)"
  by (auto simp: registry_ok_def entry_of_def fresh_breaker_ok split: option.split)

lemma registry_ok_store:
  "registry_ok now r \<Longrightarrow> breaker_ok (reg_policy r) now b \<Longrightarrow> registry_ok now (store_breaker r dep b)"
  by (simp add: registry_ok_def)

section \<open>Every operation keeps the registry well formed\<close>

lemma Admit_ok:
  assumes "registry_ok now r"
  shows "registry_ok now (snd (Admit dep now r))"
proof -
  note ok = registry_ok_entry [OF assms, of dep]
  have "breaker_ok (reg_policy r) now ((entry_of r dep)\<lparr>br_trialInFlight := True\<rparr>)"
    using ok by (simp add: breaker_ok_def)
  moreover have "br_state (entry_of r dep) = StateOpen \<Longrightarrow>
      breaker_ok (reg_policy r) now ((entry_of r dep)\<lparr>br_state := StateHalfOpen,
        br_trialSuccesses := 0, br_trialInFlight := True\<rparr>)"
    using ok by (simp add: breaker_ok_def)
  ultimately show ?thesis
    using assms ok by (auto simp: Admit_eq Let_def registry_ok_store split: breaker_state.split)
qed

lemma permit_report_ok:
  "registry_ok now r \<Longrightarrow> registry_ok now (snd (permit_report p result now r))"
  using registry_ok_entry [of now r] record_entry_ok [of "reg_policy r" now]
  by (auto simp: permit_report_def record_outcome_eq registry_ok_store registry_ok_def split: option.split)

lemma Project_ok: "registry_ok now r \<Longrightarrow> registry_ok now (snd (Project ids r))"
proof (induction ids arbitrary: r)
  case (Cons dep ids)
  have "registry_ok now (store_breaker r dep (entry_of r dep))"
    using Cons.prems registry_ok_entry registry_ok_store by blast
  from Cons.IH [OF this] show ?case
    by (simp add: breakerLocked_eq Let_def split_def)
qed simp

lemma Retain_ok: "registry_ok now r \<Longrightarrow> registry_ok now (Retain known r)"
  by (auto simp: registry_ok_def Retain_def split: if_splits)

lemma registry_ok_later: "registry_ok now r \<Longrightarrow> now \<le> t \<Longrightarrow> registry_ok t r"
  by (auto simp: registry_ok_def intro: breaker_ok_mono)

lemmas rotation_ops_ok = Admit_ok permit_report_ok Project_ok Retain_ok

lemma rotation_step_ok:
  "rotation_step s s' \<Longrightarrow> registry_ok (rs_now s) (rs_registry s) \<Longrightarrow>
   registry_ok (rs_now s') (rs_registry s')"
proof (induction rule: rotation_step.induct)
  case (step_admit dep s p r)
  then show ?case using Admit_ok [of "rs_now s" "rs_registry s" dep] by simp
next
  case (step_refuse dep s r)
  then show ?case using Admit_ok [of "rs_now s" "rs_registry s" dep] by simp
next
  case (step_report p s result p' r)
  then show ?case using permit_report_ok [of "rs_now s" "rs_registry s" "Some p" result] by simp
next
  case (step_project ids s hs r)
  then show ?case using Project_ok [of "rs_now s" "rs_registry s" ids] by simp
next
  case (step_retain s known)
  then show ?case by (simp add: Retain_ok)
next
  case (step_tick s t)
  then show ?case by (auto intro: registry_ok_later)
qed

lemma rotation_reachable_ok:
  assumes "rotation_reachable p t s" and "Cooldown p < 2 ^ 62" and "MaxCooldown p < 2 ^ 62"
  shows "registry_ok (rs_now s) (rs_registry s)"
  using assms(1)
proof (induction rule: rotation_reachable.induct)
  case reach_start
  show ?case using NewRegistry_policy_ok [OF assms(2,3)]
    by (simp add: rotation_start_def registry_ok_def NewRegistry_def Let_def)
next
  case (reach_step s s')
  then show ?case by (blast intro: rotation_step_ok)
qed

section \<open>A burst of failures\<close>

text \<open>
  Requests admitted while the breaker is closed may all fail after one another: each holds an
  ordinary permit, and each failure is recorded.
\<close>

definition fail_burst :: "policy \<Rightarrow> instant \<Rightarrow> nat \<Rightarrow> breaker \<Rightarrow> breaker" where
  "fail_burst p now n b = (record_entry p False outcomeFailed now ^^ n) b"

lemma fail_burst_simps [simp]:
  "fail_burst p now 0 b = b"
  "fail_burst p now (Suc n) b = record_entry p False outcomeFailed now (fail_burst p now n b)"
  by (simp_all add: fail_burst_def)

lemma burst_below_threshold:
  assumes "int n < FailuresToOpen p"
  shows "br_state (fail_burst p now n fresh_breaker) = StateClosed \<and>
    br_consecutiveFailures (fail_burst p now n fresh_breaker) = int n \<and>
    br_cooldown (fail_burst p now n fresh_breaker) = 0"
  using assms
  by (induction n) (auto simp: fresh_breaker_def record_entry_def Let_def)

lemma escalate_pos:
  assumes "policy_ok p" and "0 < x" and "x \<le> MaxCooldown p"
  shows "escalate p x = min (MaxCooldown p) (x * 2)"
proof -
  have "int64 (x * 2) = x * 2" using assms by (intro int64_id) (auto simp: policy_ok_def)
  then show ?thesis using assms(2) by (auto simp: escalate_def Let_def min_def)
qed

lemma escalate_doubles:
  assumes p: "policy_ok p"
  shows "escalate p (min (MaxCooldown p) (Cooldown p * 2 ^ j)) =
    min (MaxCooldown p) (Cooldown p * 2 ^ Suc j)"
proof -
  have pos: "0 < MaxCooldown p" "0 < Cooldown p * 2 ^ j" using p by (auto simp: policy_ok_def)
  then have "escalate p (min (MaxCooldown p) (Cooldown p * 2 ^ j)) =
      min (MaxCooldown p) (min (MaxCooldown p) (Cooldown p * 2 ^ j) * 2)"
    by (intro escalate_pos [OF p]) (simp_all del: zero_less_mult_iff)
  also have "\<dots> = min (MaxCooldown p) (Cooldown p * 2 ^ j * 2)"
    using pos by (auto simp: min_def)
  finally show ?thesis by (simp add: mult_ac)
qed

lemma burst_at_threshold:
  assumes p: "policy_ok p" and n: "int n = FailuresToOpen p + int j"
  shows "br_state (fail_burst p now n fresh_breaker) = StateOpen \<and>
    br_consecutiveFailures (fail_burst p now n fresh_breaker) = int n \<and>
    br_cooldown (fail_burst p now n fresh_breaker) = min (MaxCooldown p) (Cooldown p * 2 ^ j) \<and>
    br_probesAt (fail_burst p now n fresh_breaker) = now + min (MaxCooldown p) (Cooldown p * 2 ^ j)"
  using n
proof (induction j arbitrary: n)
  case 0
  then obtain m where m: "n = Suc m" using p by (cases n) (auto simp: policy_ok_def)
  with 0 have "int m < FailuresToOpen p" by simp
  from burst_below_threshold [OF this, of now] show ?case
    using 0 p by (auto simp: m record_entry_def Let_def reopen_def escalate_def policy_ok_def min_def)
next
  case (Suc j)
  then obtain m where m: "n = Suc m" using p by (cases n) (auto simp: policy_ok_def)
  with Suc.prems have "int m = FailuresToOpen p + int j" by simp
  from Suc.IH [OF this] have IH: "br_state (fail_burst p now m fresh_breaker) = StateOpen"
    "br_consecutiveFailures (fail_burst p now m fresh_breaker) = int m"
    "br_cooldown (fail_burst p now m fresh_breaker) = min (MaxCooldown p) (Cooldown p * 2 ^ j)"
    by auto
  from Suc.prems m have "FailuresToOpen p \<le> int m + 1" by simp
  with IH show ?case
    by (simp add: m record_entry_def Let_def reopen_def escalate_doubles [OF p] del: power_Suc)
qed

section \<open>Trials in flight\<close>

text \<open>
  A caller is disciplined when it reports an ordinary permit as failed only while the breaker
  is still closed. The Go callers are not: a request admitted before the breaker opened may
  fail long after.
\<close>

inductive disciplined_step :: "rotation_system \<Rightarrow> rotation_system \<Rightarrow> bool" where
  disc_admit: "Admit dep (rs_now s) (rs_registry s) = (Some p, r) \<Longrightarrow>
     disciplined_step s (s\<lparr>rs_registry := r, rs_permits := p # rs_permits s\<rparr>)"
| disc_refuse: "Admit dep (rs_now s) (rs_registry s) = (None, r) \<Longrightarrow>
     disciplined_step s (s\<lparr>rs_registry := r\<rparr>)"
| disc_report: "p \<in> set (rs_permits s) \<Longrightarrow>
     \<not> pm_trial p \<longrightarrow> result = outcomeFailed \<longrightarrow>
       br_state (entry_of (rs_registry s) (pm_id p)) = StateClosed \<Longrightarrow>
     permit_report (Some p) result (rs_now s) (rs_registry s) = (p', r) \<Longrightarrow>
     disciplined_step s (s\<lparr>rs_registry := r, rs_permits := remove1 p (rs_permits s)\<rparr>)"
| disc_tick: "rs_now s \<le> t \<Longrightarrow> disciplined_step s (s\<lparr>rs_now := t\<rparr>)"

inductive disciplined_reachable :: "policy \<Rightarrow> instant \<Rightarrow> rotation_system \<Rightarrow> bool" for p t where
  disc_start: "disciplined_reachable p t (rotation_start p t)"
| disc_step: "disciplined_reachable p t s \<Longrightarrow> disciplined_step s s' \<Longrightarrow> disciplined_reachable p t s'"

definition trials :: "deployment_id \<Rightarrow> permit list \<Rightarrow> permit list" where
  "trials dep ps = filter (\<lambda>q. pm_id q = dep \<and> pm_trial q) ps"

definition trial_accounting :: "rotation_system \<Rightarrow> bool" where
  "trial_accounting s \<longleftrightarrow>
     (\<forall>q \<in> set (rs_permits s). \<not> pm_reported q) \<and>
     (\<forall>dep. let b = entry_of (rs_registry s) dep in
        length (trials dep (rs_permits s)) = (if br_trialInFlight b then 1 else 0) \<and>
        (br_trialInFlight b \<longrightarrow> br_state b = StateHalfOpen))"

lemma trials_simps [simp]:
  "trials dep [] = []"
  "trials dep (q # qs) = (if pm_id q = dep \<and> pm_trial q then q # trials dep qs else trials dep qs)"
  by (simp_all add: trials_def)

lemma trials_remove1:
  "q \<in> set qs \<Longrightarrow> length (trials dep (remove1 q qs)) =
     length (trials dep qs) - (if pm_id q = dep \<and> pm_trial q then 1 else 0)"
proof (induction qs)
  case (Cons x qs)
  have "q \<in> set qs \<Longrightarrow> pm_id q = dep \<Longrightarrow> pm_trial q \<Longrightarrow> 0 < length (trials dep qs)"
    by (auto simp: trials_def filter_empty_conv)
  with Cons show ?case by auto
qed simp

lemma disciplined_step_accounting:
  "disciplined_step s s' \<Longrightarrow> trial_accounting s \<Longrightarrow> trial_accounting s'"
proof (induction rule: disciplined_step.induct)
  case (disc_admit dep s p r)
  then show ?case
    by (auto simp: trial_accounting_def Let_def Admit_eq split: breaker_state.splits if_splits)
next
  case (disc_refuse dep s r)
  then show ?case
    by (auto simp: trial_accounting_def Let_def Admit_eq split: breaker_state.splits if_splits)
next
  case (disc_report p s result p' r)
  have un: "\<not> pm_reported p" and acc: "\<forall>q \<in> set (remove1 p (rs_permits s)). \<not> pm_reported q"
    using disc_report by (auto simp: trial_accounting_def dest: notin_set_remove1)
  have r: "r = store_breaker (rs_registry s) (pm_id p)
      (record_entry (reg_policy (rs_registry s)) (pm_trial p) result (rs_now s)
        (entry_of (rs_registry s) (pm_id p)))"
    using disc_report un by (simp add: permit_report_def record_outcome_eq)
  have len: "length (trials dep (remove1 p (rs_permits s))) =
      length (trials dep (rs_permits s)) - (if pm_id p = dep \<and> pm_trial p then 1 else 0)" for dep
    by (rule trials_remove1 [OF disc_report(1)])
  have "pm_trial p \<Longrightarrow> 0 < length (trials (pm_id p) (rs_permits s))"
    using disc_report(1) by (auto simp: trials_def filter_empty_conv)
  with disc_report show ?case
    unfolding trial_accounting_def Let_def
    by (cases result)
      (auto simp: acc r len record_entry_def reopen_def Let_def split: if_splits)
next
  case (disc_tick s t)
  then show ?case by (simp add: trial_accounting_def)
qed

lemma disciplined_reachable_accounting:
  "disciplined_reachable p t s \<Longrightarrow> trial_accounting s"
proof (induction rule: disciplined_reachable.induct)
  case disc_start
  show ?case
    by (simp add: trial_accounting_def rotation_start_def entry_of_def NewRegistry_def Let_def fresh_breaker_def)
next
  case (disc_step s s')
  then show ?case by (blast intro: disciplined_step_accounting)
qed

section \<open>Scripts of operations\<close>

text \<open>An executable run: each operation is a sequence of at most one step.\<close>

datatype rotation_op =
    OpAdmit deployment_id
  | OpReport nat rotation_outcome
  | OpWait nat

fun apply_op :: "rotation_op \<Rightarrow> rotation_system \<Rightarrow> rotation_system" where
  "apply_op (OpAdmit dep) s =
     (case Admit dep (rs_now s) (rs_registry s) of
        (Some p, r) \<Rightarrow> s\<lparr>rs_registry := r, rs_permits := p # rs_permits s\<rparr>
      | (None, r) \<Rightarrow> s\<lparr>rs_registry := r\<rparr>)"
| "apply_op (OpReport i result) s =
     (if i < length (rs_permits s)
      then let p = rs_permits s ! i
           in s\<lparr>rs_registry := snd (permit_report (Some p) result (rs_now s) (rs_registry s)),
                rs_permits := remove1 p (rs_permits s)\<rparr>
      else s)"
| "apply_op (OpWait d) s = s\<lparr>rs_now := rs_now s + int d\<rparr>"

lemma apply_op_step: "rotation_step s (apply_op x s) \<or> apply_op x s = s"
proof (cases x)
  case (OpAdmit dep)
  obtain q r where "Admit dep (rs_now s) (rs_registry s) = (q, r)" by force
  with OpAdmit show ?thesis by (cases q) (auto intro: rotation_step.intros)
next
  case (OpReport i result)
  then show ?thesis
    by (auto simp: Let_def intro!: rotation_step.step_report prod.collapse [symmetric])
next
  case (OpWait d)
  then show ?thesis by (auto intro: rotation_step.step_tick)
qed

lemma apply_ops_reachable:
  "rotation_reachable p t s \<Longrightarrow> rotation_reachable p t (fold apply_op xs s)"
proof (induction xs arbitrary: s)
  case (Cons x xs)
  then have "rotation_reachable p t (apply_op x s)"
    using apply_op_step [of s x] by (auto intro: rotation_reachable.reach_step)
  with Cons.IH show ?case by simp
qed simp

section \<open>Waiting times\<close>

definition probe_wait :: "instant \<Rightarrow> breaker \<Rightarrow> duration" where
  "probe_wait at_time b = max 0 (time_sub (br_probesAt b) at_time)"

definition known_waits :: "registry \<Rightarrow> instant \<Rightarrow> deployment_id list \<Rightarrow> duration set" where
  "known_waits r at_time ids = {probe_wait at_time b | dep b. dep \<in> set ids \<and> reg_breakers r dep = Some b}"

lemma known_waits_Nil [simp]: "known_waits r at_time [] = {}"
  by (simp add: known_waits_def)

lemma known_waits_Cons [simp]:
  "known_waits r at_time (dep # ids) =
     (case reg_breakers r dep of None \<Rightarrow> {} | Some b \<Rightarrow> {probe_wait at_time b}) \<union> known_waits r at_time ids"
  by (auto simp: known_waits_def split: option.split)

lemma finite_known_waits [simp]: "finite (known_waits r at_time ids)"
  by (induction ids) (auto split: option.split)

lemma Min_insert_greater:
  "finite W \<Longrightarrow> w < (s :: int) \<Longrightarrow> Min (insert w (insert s W)) = Min (insert w W)"
  by (cases "W = {}") (simp_all add: min.assoc [symmetric] min.absorb1)

lemma Min_insert_leq:
  "finite W \<Longrightarrow> \<not> w < (s :: int) \<Longrightarrow> Min (insert w (insert s W)) = Min (insert s W)"
  by (cases "W = {}") (simp_all add: min.assoc [symmetric] min.absorb2)

lemma soonest_loop_Min:
  "soonest_loop r at_time ids (s, found) =
     (let ws = (if found then {s} else {}) \<union> known_waits r at_time ids
      in if ws = {} then (s, False) else (Min ws, True))"
proof (induction ids arbitrary: s found)
  case (Cons dep ids)
  show ?case
  proof (cases "reg_breakers r dep")
    case None
    then show ?thesis by (simp add: Cons.IH)
  next
    case (Some b)
    let ?w = "probe_wait at_time b"
    have w: "(if time_sub (br_probesAt b) at_time < 0 then 0 else time_sub (br_probesAt b) at_time) = ?w"
      by (simp add: probe_wait_def max_def)
    show ?thesis
      by (cases found) (simp_all add: Some w Cons.IH Let_def Min_insert_greater Min_insert_leq
          del: Min_insert)
  qed
qed (auto simp: Let_def)

section \<open>The deployment breakers are admission lanes\<close>

definition rotation_blocked :: "deployment_id \<Rightarrow> instant \<Rightarrow> registry \<Rightarrow> bool" where
  "rotation_blocked dep now r \<longleftrightarrow>
     (case br_state (entry_of r dep) of
        StateClosed \<Rightarrow> False
      | StateOpen \<Rightarrow> now < br_probesAt (entry_of r dep)
      | StateHalfOpen \<Rightarrow> br_trialInFlight (entry_of r dep))"

definition rotation_lane_report ::
  "permit \<Rightarrow> rotation_outcome \<Rightarrow> instant \<Rightarrow> registry \<Rightarrow> registry" where
  "rotation_lane_report pm res now r = snd (permit_report (Some pm) res now r)"

interpretation deployment_lane: admission_lane Admit rotation_lane_report pm_id
  rotation_blocked "\<lambda>res. res = outcomeIrrelevant"
proof unfold_locales
  fix k t s p s'
  assume "Admit k t s = (Some p, s')"
  then show "pm_id p = k"
    by (auto simp: Admit_eq Let_def split: breaker_state.splits if_splits)
next
  fix k t s
  show "fst (Admit k t s) = None \<longleftrightarrow> rotation_blocked k t s"
    by (simp add: Admit_eq Let_def rotation_blocked_def split: breaker_state.splits)
next
  fix k k' :: deployment_id and t t' :: instant and s
  assume "k \<noteq> k'"
  then show "rotation_blocked k' t' (snd (Admit k t s)) \<longleftrightarrow> rotation_blocked k' t' s"
    by (simp add: rotation_blocked_def Admit_eq Let_def split: breaker_state.splits)
next
  fix p :: permit and k' t' res t s
  assume "pm_id p \<noteq> k'"
  then show "rotation_blocked k' t' (rotation_lane_report p res t s) \<longleftrightarrow> rotation_blocked k' t' s"
    by (simp add: rotation_blocked_def rotation_lane_report_def permit_report_def record_outcome_eq
        split: breaker_state.splits)
next
  fix res k' t' s and p :: permit and t
  assume "res = outcomeIrrelevant" and "\<not> rotation_blocked k' t' s"
  then show "\<not> rotation_blocked k' t' (rotation_lane_report p res t s)"
    by (auto simp: rotation_blocked_def rotation_lane_report_def permit_report_def record_outcome_eq
        record_entry_def split: breaker_state.splits)
qed

section \<open>Properties\<close>

lemma Admit_unless_waiting:
  "\<not> br_trialInFlight (entry_of r dep) \<Longrightarrow>
   br_state (entry_of r dep) \<noteq> StateClosed \<longrightarrow> br_probesAt (entry_of r dep) \<le> now \<Longrightarrow>
   \<exists>pm r'. Admit dep now r = (Some pm, r')"
  by (auto simp: Admit_eq Let_def split: breaker_state.split)

text \<open>
  C19: In every state any interleaving of registry operations can reach, a deployment whose
  half-open trial slot is free is admitted no later than the policy's \<open>MaxCooldown\<close> from now:
  the doubling of the cooldown is bounded, so no deployment leaves rotation for good.
\<close>

theorem admitted_within_max_cooldown:
  assumes "rotation_reachable p t s" and "Cooldown p < 2 ^ 62" and "MaxCooldown p < 2 ^ 62"
    and "\<not> br_trialInFlight (entry_of (rs_registry s) dep)"
    and "rs_now s + MaxCooldown (reg_policy (rs_registry s)) \<le> now"
  shows "\<exists>pm r. Admit dep now (rs_registry s) = (Some pm, r)"
proof -
  have "breaker_ok (reg_policy (rs_registry s)) (rs_now s) (entry_of (rs_registry s) dep)"
    by (rule registry_ok_entry [OF rotation_reachable_ok [OF assms(1-3)]])
  with assms(4,5) show ?thesis
    by (intro Admit_unless_waiting) (auto simp: breaker_ok_def)
qed

definition three_failures :: "rotation_op list" where
  "three_failures = [OpAdmit ''d'', OpAdmit ''d'', OpAdmit ''d'', OpReport 0 outcomeFailed,
     OpReport 0 outcomeFailed, OpReport 0 outcomeFailed]"

definition late_failure_script :: "rotation_op list" where
  "late_failure_script = OpAdmit ''d'' # three_failures @
     [OpWait 5000000000, OpAdmit ''d'', OpWait 1000000000, OpReport 1 outcomeFailed,
      OpWait 10000000000, OpAdmit ''d'']"

lemmas rotation_eval = rotation_start_def NewRegistry_def DefaultPolicy_def Let_def Admit_eq
  permit_report_def record_outcome_eq record_entry_def reopen_def escalate_def entry_of_def
  fresh_breaker_def store_breaker_def blend_def go_arith

theorem admitted_within_max_cooldown_witness:
  "\<exists>pm r. Admit ''d'' (1000000 + 2 * minute)
     (rs_registry (fold apply_op three_failures (rotation_start DefaultPolicy 1000000))) = (Some pm, r)"
proof (rule admitted_within_max_cooldown [of DefaultPolicy 1000000])
  show "rotation_reachable DefaultPolicy 1000000
      (fold apply_op three_failures (rotation_start DefaultPolicy 1000000))"
    by (intro apply_ops_reachable rotation_reachable.reach_start)
qed (simp_all add: three_failures_def rotation_eval)

text \<open>
  C23: In every reachable state, for every deployment the registry knows: the score lies between 0
  and 1, a closed breaker has fewer than \<open>FailuresToOpen\<close> consecutive failures and a reset
  cooldown, and a breaker that is not closed has a cooldown between \<open>Cooldown\<close> and
  \<open>MaxCooldown\<close> and a probe time at most \<open>MaxCooldown\<close> ahead.
\<close>

theorem reachable_breakers_bounded:
  assumes "rotation_reachable p t s" and "Cooldown p < 2 ^ 62" and "MaxCooldown p < 2 ^ 62"
    and "reg_breakers (rs_registry s) dep = Some b"
  shows "breaker_ok (reg_policy (rs_registry s)) (rs_now s) b"
  using rotation_reachable_ok [OF assms(1-3)] assms(4) by (simp add: registry_ok_def)

theorem reachable_breakers_bounded_witness:
  "\<exists>b. reg_breakers (rs_registry (fold apply_op three_failures (rotation_start DefaultPolicy 1000000)))
       ''d'' = Some b \<and> br_state b = StateOpen \<and> breaker_ok DefaultPolicy 1000000 b"
proof -
  let ?s = "fold apply_op three_failures (rotation_start DefaultPolicy 1000000)"
  have r: "rotation_reachable DefaultPolicy 1000000 ?s"
    by (intro apply_ops_reachable rotation_reachable.reach_start)
  have e: "reg_policy (rs_registry ?s) = DefaultPolicy" "rs_now ?s = 1000000"
    by (simp_all add: three_failures_def rotation_eval)
  obtain b where b: "reg_breakers (rs_registry ?s) ''d'' = Some b" "br_state b = StateOpen"
    by (simp add: three_failures_def rotation_eval)
  from reachable_breakers_bounded [OF r _ _ b(1)] b show ?thesis
    by (simp add: e) (simp add: DefaultPolicy_def go_arith)
qed

text \<open>
  A caller that reports an ordinary permit as failed only while the breaker is still closed
  never has two half-open trials of one deployment outstanding.
\<close>

theorem one_trial_when_disciplined:
  assumes "disciplined_reachable p t s"
  shows "length (trials dep (rs_permits s)) \<le> 1"
  using disciplined_reachable_accounting [OF assms] by (auto simp: trial_accounting_def Let_def)

theorem one_trial_when_disciplined_witness:
  "length (trials ''d'' (rs_permits (apply_op (OpAdmit ''d'') (rotation_start DefaultPolicy 1000000)))) \<le> 1"
proof (rule one_trial_when_disciplined [of DefaultPolicy 1000000])
  show "disciplined_reachable DefaultPolicy 1000000
      (apply_op (OpAdmit ''d'') (rotation_start DefaultPolicy 1000000))"
    by (rule disc_step [OF disc_start])
      (simp add: rotation_eval disc_admit [of "''d''" "rotation_start DefaultPolicy 1000000", simplified rotation_eval, simplified])
qed

text \<open>
  With the default policy the registry can have two half-open trials of one deployment
  outstanding at once. Four requests are admitted; three fail and open the breaker; after the
  cooldown a trial is admitted; the fourth request then fails, which reopens the breaker under
  the running trial; after that cooldown a second trial is admitted while the first still runs.
\<close>

theorem late_failure_admits_second_trial:
  "\<exists>s. rotation_reachable DefaultPolicy 1000000 s \<and> length (trials ''d'' (rs_permits s)) = 2"
proof (intro exI conjI)
  show "rotation_reachable DefaultPolicy 1000000
      (fold apply_op late_failure_script (rotation_start DefaultPolicy 1000000))"
    by (intro apply_ops_reachable rotation_reachable.reach_start)
  show "length (trials ''d'' (rs_permits
      (fold apply_op late_failure_script (rotation_start DefaultPolicy 1000000)))) = 2"
    by (simp add: late_failure_script_def three_failures_def rotation_eval)
qed

text \<open>
  When n requests that were admitted to a fresh deployment all fail at one instant, with
  n at least \<open>FailuresToOpen\<close>, the breaker opens with its cooldown already doubled once per
  failure beyond the threshold, up to \<open>MaxCooldown\<close>, and not with \<open>Cooldown\<close>.
\<close>

theorem burst_escalates_first_cooldown:
  assumes "policy_ok p" and "FailuresToOpen p \<le> int n"
  shows "br_state (fail_burst p now n fresh_breaker) = StateOpen \<and>
    br_probesAt (fail_burst p now n fresh_breaker) =
      now + min (MaxCooldown p) (Cooldown p * 2 ^ nat (int n - FailuresToOpen p))"
  using burst_at_threshold [OF assms(1), of n "nat (int n - FailuresToOpen p)" now] assms(2) by simp

theorem burst_escalates_first_cooldown_witness:
  "br_probesAt (fail_burst DefaultPolicy 0 8 fresh_breaker) = 120 * second \<and>
   br_probesAt (fail_burst DefaultPolicy 0 3 fresh_breaker) = 5 * second"
  using burst_escalates_first_cooldown [of DefaultPolicy 8 0]
    burst_escalates_first_cooldown [of DefaultPolicy 3 0]
  by (simp add: policy_ok_def DefaultPolicy_def go_arith)

text \<open>
  C36: \<open>SoonestProbe\<close> returns the least waiting time, clamped at zero, over the given deployments
  the registry has an entry for, and reports \<open>False\<close> exactly when it has none.
\<close>

theorem SoonestProbe_is_least_wait:
  "SoonestProbe r ids at_time =
     (if known_waits r at_time ids = {} then (0, False) else (Min (known_waits r at_time ids), True))"
  by (simp add: SoonestProbe_def soonest_loop_Min Let_def)

text \<open>
  C21: Failures that describe the request and not the deployment never take a deployment out of
  rotation: however many are reported, on whatever deployments, a deployment that is admitted
  now is still admitted after them.
\<close>

theorem request_failures_never_open:
  assumes "\<forall>x \<in> set xs. deployment_lane.neutral_report x" and "fst (Admit dep now r) \<noteq> None"
  shows "fst (Admit dep now (fold deployment_lane.lane_apply xs r)) \<noteq> None"
  by (rule deployment_lane.neutral_keeps_open [OF assms])

theorem request_failures_never_open_witness:
  "fst (Admit ''d'' 7 (fold deployment_lane.lane_apply
     (replicate 100 (LaneReport \<lparr>pm_id = ''d'', pm_trial = False, pm_reported = False\<rparr> outcomeIrrelevant 5))
     (NewRegistry DefaultPolicy))) \<noteq> None"
  by (rule request_failures_never_open)
    (simp_all add: Admit_eq Let_def entry_of_def NewRegistry_def fresh_breaker_def)

text \<open>
  Whatever is admitted and reported for other deployments, up to and including now, one
  deployment is admitted now exactly when it would have been without that traffic.
\<close>

theorem deployments_isolated:
  assumes "\<forall>x \<in> set xs. deployment_lane.concerns x \<noteq> dep \<and> deployment_lane.happens_at x \<le> now"
  shows "fst (Admit dep now (fold deployment_lane.lane_apply xs r)) = None \<longleftrightarrow>
    fst (Admit dep now r) = None"
  by (rule deployment_lane.lane_isolation [OF assms])

theorem deployments_isolated_witness:
  "fst (Admit ''e'' 7 (fold deployment_lane.lane_apply
     (replicate 3 (LaneReport \<lparr>pm_id = ''d'', pm_trial = False, pm_reported = False\<rparr> outcomeFailed 5))
     (NewRegistry DefaultPolicy))) \<noteq> None"
proof -
  have "fst (Admit ''e'' 7 (NewRegistry DefaultPolicy)) \<noteq> None"
    by (simp add: Admit_eq Let_def entry_of_def NewRegistry_def fresh_breaker_def)
  then show ?thesis
    by (subst deployments_isolated) simp_all
qed

end
