(* ===== verification/Customer_Limit.thy ===== *)
theory Customer_Limit
  imports Admission_Lane
begin

text \<open>
  \<open>internal/customerlimit/customerlimit.go\<close>: the cooldown of one exact customer credential
  generation. The key is \<open>CustomerCredentialScope\<close> of
  \<open>internal/credentialstore/customer.go\<close>. Every method body runs under the registry's mutex
  and is one state transformer; the clock reading is the \<open>now\<close> argument.
\<close>

section \<open>State\<close>

record customer_scope =
  cs_Provider :: provider_slug
  cs_OwnerAccountID :: string
  cs_ConnectionID :: string
  cs_Environment :: string
  cs_CredentialHandle :: string
  cs_Revision :: int

datatype limit_reason = ReasonNone | ReasonThrottled | ReasonRejected

definition defaultThrottleCooldown :: duration where
  "defaultThrottleCooldown = 5 * second"

definition defaultRejectedCooldown :: duration where
  "defaultRejectedCooldown = 15 * minute"

definition staleEntryAge :: duration where
  "staleEntryAge = hour"

record refusal =
  rf_Reason :: limit_reason
  rf_RetryAfter :: duration

record limit_entry =
  le_reason :: limit_reason
  le_probesAt :: instant
  le_trialInFlight :: bool
  le_lastSeen :: instant

type_synonym limit_registry = "customer_scope \<rightharpoonup> limit_entry"

record limit_permit =
  lp_scope :: customer_scope
  lp_reported :: bool

section \<open>Operations\<close>

definition stale_entry :: "instant \<Rightarrow> limit_entry \<Rightarrow> bool" where
  "stale_entry now e \<longleftrightarrow> \<not> le_trialInFlight e \<and> \<not> now < le_probesAt e \<and>
     time_sub now (le_lastSeen e) > staleEntryAge"

definition removeStaleLocked :: "instant \<Rightarrow> limit_registry \<Rightarrow> limit_registry" where
  "removeStaleLocked now r =
     (\<lambda>scope. case r scope of
        Some e \<Rightarrow> if stale_entry now e then None else Some e
      | None \<Rightarrow> None)"

definition no_refusal :: refusal where
  "no_refusal = \<lparr>rf_Reason = ReasonNone, rf_RetryAfter = 0\<rparr>"

definition limit_Admit ::
  "customer_scope \<Rightarrow> instant \<Rightarrow> limit_registry \<Rightarrow> limit_permit option \<times> refusal \<times> limit_registry" where
  "limit_Admit scope now r0 =
     (let r = removeStaleLocked now r0; permit = \<lparr>lp_scope = scope, lp_reported = False\<rparr>
      in case r scope of
           None \<Rightarrow> (Some permit, no_refusal, r)
         | Some e \<Rightarrow>
             (let e = e\<lparr>le_lastSeen := now\<rparr>
              in if now < le_probesAt e
                 then (None, \<lparr>rf_Reason = le_reason e, rf_RetryAfter = time_sub (le_probesAt e) now\<rparr>,
                       r(scope \<mapsto> e))
                 else if le_trialInFlight e
                 then (None, \<lparr>rf_Reason = le_reason e, rf_RetryAfter = 0\<rparr>, r(scope \<mapsto> e))
                 else (Some permit, no_refusal, r(scope \<mapsto> e\<lparr>le_trialInFlight := True\<rparr>))))"

definition entryFor :: "limit_reason \<Rightarrow> instant \<Rightarrow> instant \<Rightarrow> limit_entry" where
  "entryFor reason probesAt lastSeen =
     \<lparr>le_reason = reason, le_probesAt = probesAt, le_trialInFlight = False, le_lastSeen = lastSeen\<rparr>"

definition limit_report ::
  "limit_permit option \<Rightarrow> limit_reason \<Rightarrow> duration \<Rightarrow> bool \<Rightarrow> instant \<Rightarrow> limit_registry \<Rightarrow>
   limit_permit option \<times> limit_registry" where
  "limit_report p reason cooldown success now r =
     (case p of
        None \<Rightarrow> (None, r)
      | Some pm \<Rightarrow>
          if lp_reported pm then (Some pm, r)
          else
            (Some (pm\<lparr>lp_reported := True\<rparr>),
             if success then r(lp_scope pm := None)
             else if reason \<noteq> ReasonNone then r(lp_scope pm \<mapsto> entryFor reason (now + cooldown) now)
             else case r (lp_scope pm) of
                    None \<Rightarrow> r
                  | Some e \<Rightarrow> r(lp_scope pm \<mapsto> e\<lparr>le_trialInFlight := False, le_lastSeen := now\<rparr>)))"

text \<open>The four ways a caller reports a permit.\<close>

datatype limit_outcome = Succeeded | Rejected | Throttled duration | NotAttributable

fun report_outcome ::
  "limit_permit option \<Rightarrow> limit_outcome \<Rightarrow> instant \<Rightarrow> limit_registry \<Rightarrow> limit_permit option \<times> limit_registry" where
  "report_outcome p Succeeded now r = limit_report p ReasonNone 0 True now r"
| "report_outcome p Rejected now r = limit_report p ReasonRejected defaultRejectedCooldown False now r"
| "report_outcome p (Throttled retryAfter) now r =
     limit_report p ReasonThrottled (if retryAfter \<le> 0 then defaultThrottleCooldown else retryAfter) False now r"
| "report_outcome p NotAttributable now r = limit_report p ReasonNone 0 False now r"

section \<open>Lemmas\<close>

definition limit_blocked :: "customer_scope \<Rightarrow> instant \<Rightarrow> limit_registry \<Rightarrow> bool" where
  "limit_blocked scope now r \<longleftrightarrow>
     (\<exists>e. r scope = Some e \<and> (now < le_probesAt e \<or> le_trialInFlight e))"

lemma removeStale_blocked:
  "now \<le> t \<Longrightarrow> limit_blocked scope t (removeStaleLocked now r) \<longleftrightarrow> limit_blocked scope t r"
  by (auto simp: limit_blocked_def removeStaleLocked_def stale_entry_def split: option.splits if_splits)

lemma limit_Admit_blocked: "fst (limit_Admit scope now r) = None \<longleftrightarrow> limit_blocked scope now r"
  using removeStale_blocked [of now now scope r]
  by (auto simp: limit_Admit_def Let_def limit_blocked_def split: option.splits)

lemma limit_Admit_other:
  "scope \<noteq> k \<Longrightarrow> snd (snd (limit_Admit scope now r)) k = removeStaleLocked now r k"
  by (auto simp: limit_Admit_def Let_def split: option.splits)

lemma limit_report_other:
  "lp_scope pm \<noteq> k \<Longrightarrow> snd (report_outcome (Some pm) res now r) k = r k"
  by (cases res) (auto simp: limit_report_def split: option.splits)

text \<open>A lane of the contract, with the refusal dropped.\<close>

definition limit_lane_admit ::
  "customer_scope \<Rightarrow> instant \<Rightarrow> limit_registry \<Rightarrow> limit_permit option \<times> limit_registry" where
  "limit_lane_admit scope now r = (let (p, _, r') = limit_Admit scope now r in (p, r'))"

lemma limit_lane_admit_simps [simp]:
  "fst (limit_lane_admit scope now r) = fst (limit_Admit scope now r)"
  "snd (limit_lane_admit scope now r) = snd (snd (limit_Admit scope now r))"
  by (simp_all add: limit_lane_admit_def split_def Let_def)

definition limit_lane_report ::
  "limit_permit \<Rightarrow> limit_outcome \<Rightarrow> instant \<Rightarrow> limit_registry \<Rightarrow> limit_registry" where
  "limit_lane_report pm res now r = snd (report_outcome (Some pm) res now r)"

interpretation customer_lane: admission_lane limit_lane_admit limit_lane_report lp_scope
  limit_blocked "\<lambda>res. res = NotAttributable"
proof unfold_locales
  fix k t s p s'
  assume "limit_lane_admit k t s = (Some p, s')"
  then have "fst (limit_Admit k t s) = Some p" by (metis limit_lane_admit_simps(1) fst_conv)
  then show "lp_scope p = k"
    by (auto simp: limit_Admit_def Let_def split: option.splits if_splits)
next
  fix k k' :: customer_scope and t t' :: instant and s
  assume "k \<noteq> k'" and "t \<le> t'"
  then show "limit_blocked k' t' (snd (limit_lane_admit k t s)) \<longleftrightarrow> limit_blocked k' t' s"
    using removeStale_blocked [of t t' k' s] by (simp add: limit_blocked_def limit_Admit_other)
next
  fix p :: limit_permit and k' t' res t s
  assume "lp_scope p \<noteq> k'"
  then show "limit_blocked k' t' (limit_lane_report p res t s) \<longleftrightarrow> limit_blocked k' t' s"
    by (simp add: limit_blocked_def limit_lane_report_def limit_report_other)
next
  fix res k' t' s p t
  assume "res = NotAttributable" and "\<not> limit_blocked k' t' s"
  then show "\<not> limit_blocked k' t' (limit_lane_report p res t s)"
    by (auto simp: limit_blocked_def limit_lane_report_def limit_report_def split: option.splits if_splits)
qed (simp add: limit_Admit_blocked)

section \<open>Properties\<close>

text \<open>
  Whatever is admitted and reported for other customer credential generations, up to and
  including now, one generation is admitted now exactly when it would have been without that
  traffic. Changing the handle, the revision, the connection or the owner gives another lane.
\<close>

theorem customer_lanes_isolated:
  assumes "\<forall>x \<in> set xs. customer_lane.concerns x \<noteq> scope \<and> customer_lane.happens_at x \<le> now"
  shows "fst (limit_Admit scope now (fold customer_lane.lane_apply xs r)) = None \<longleftrightarrow>
    fst (limit_Admit scope now r) = None"
  using customer_lane.lane_isolation [OF assms] by simp

definition scope_a :: customer_scope where
  "scope_a = \<lparr>cs_Provider = ''openai'', cs_OwnerAccountID = ''a'', cs_ConnectionID = ''c'',
     cs_Environment = ''live'', cs_CredentialHandle = ''h'', cs_Revision = 1\<rparr>"

definition permit_a :: limit_permit where
  "permit_a = \<lparr>lp_scope = scope_a, lp_reported = False\<rparr>"

theorem customer_lanes_isolated_witness:
  "fst (limit_Admit (scope_a\<lparr>cs_Revision := 2\<rparr>) 10
     (fold customer_lane.lane_apply [LaneAdmit scope_a 5, LaneReport permit_a Rejected 6] Map.empty)) \<noteq> None"
proof -
  have "fst (limit_Admit (scope_a\<lparr>cs_Revision := 2\<rparr>) 10 Map.empty) \<noteq> None"
    by (simp add: limit_Admit_def removeStaleLocked_def)
  then show ?thesis
    using customer_lanes_isolated [of "[LaneAdmit scope_a 5, LaneReport permit_a Rejected 6]"
        "scope_a\<lparr>cs_Revision := 2\<rparr>" 10 Map.empty]
    by (simp add: scope_a_def permit_a_def)
qed

text \<open>What leaves a throttled generation's window alone, and what leaves its trial outstanding.\<close>

fun keeps_window :: "customer_scope \<Rightarrow> instant \<Rightarrow> instant \<Rightarrow> (customer_scope, limit_permit, limit_outcome) lane_op \<Rightarrow> bool" where
  "keeps_window scope t probe (LaneAdmit k now) \<longleftrightarrow> t \<le> now \<and> now < probe"
| "keeps_window scope t probe (LaneReport p res now) \<longleftrightarrow> t \<le> now \<and> now < probe \<and> (lp_scope p = scope \<longrightarrow> res = NotAttributable)"

fun keeps_trial :: "customer_scope \<Rightarrow> (customer_scope, limit_permit, limit_outcome) lane_op \<Rightarrow> bool" where
  "keeps_trial scope (LaneAdmit k now) = True"
| "keeps_trial scope (LaneReport p res now) \<longleftrightarrow> lp_scope p \<noteq> scope"

definition cooling :: "customer_scope \<Rightarrow> instant \<Rightarrow> instant \<Rightarrow> limit_registry \<Rightarrow> bool" where
  "cooling scope t probe r \<longleftrightarrow>
     (case r scope of None \<Rightarrow> False
      | Some e \<Rightarrow> le_reason e = ReasonThrottled \<and> le_probesAt e = probe \<and> \<not> le_trialInFlight e \<and> t \<le> le_lastSeen e)"

definition on_trial :: "customer_scope \<Rightarrow> limit_registry \<Rightarrow> bool" where
  "on_trial scope r \<longleftrightarrow> (case r scope of None \<Rightarrow> False | Some e \<Rightarrow> le_trialInFlight e)"

lemma cooling_kept:
  "keeps_window scope t probe x \<Longrightarrow> cooling scope t probe r \<Longrightarrow> cooling scope t probe (customer_lane.lane_apply x r)"
  by (cases x; cases "case x of LaneAdmit k _ \<Rightarrow> k = scope | LaneReport p _ _ \<Rightarrow> lp_scope p = scope")
    (auto simp: cooling_def limit_Admit_other limit_lane_report_def limit_report_other removeStaleLocked_def stale_entry_def
      limit_Admit_def limit_report_def Let_def split: option.splits)

lemma trial_kept: "keeps_trial scope x \<Longrightarrow> on_trial scope r \<Longrightarrow> on_trial scope (customer_lane.lane_apply x r)"
  by (cases x; cases "case x of LaneAdmit k _ \<Rightarrow> k = scope | LaneReport p _ _ \<Rightarrow> lp_scope p = scope")
    (auto simp: on_trial_def limit_Admit_other limit_lane_report_def limit_report_other removeStaleLocked_def stale_entry_def
      limit_Admit_def Let_def split: option.splits)

lemma cooling_fold:
  "list_all (keeps_window scope t probe) xs \<Longrightarrow> cooling scope t probe r \<Longrightarrow> cooling scope t probe (fold customer_lane.lane_apply xs r)"
  by (induction xs arbitrary: r) (simp_all add: cooling_kept)

lemma trial_fold: "list_all (keeps_trial scope) xs \<Longrightarrow> on_trial scope r \<Longrightarrow> on_trial scope (fold customer_lane.lane_apply xs r)"
  by (induction xs arbitrary: r) (simp_all add: trial_kept)

lemma trial_blocks: "on_trial scope r \<Longrightarrow> fst (limit_Admit scope now r) = None"
  by (auto simp: on_trial_def limit_Admit_blocked limit_blocked_def split: option.splits)

lemma cooling_admit:
  assumes "cooling scope t probe r" and "0 < probe - now \<Longrightarrow> probe - now \<le> max_int64"
  shows "now < probe \<Longrightarrow> fst (limit_Admit scope now r) = None \<and>
      fst (snd (limit_Admit scope now r)) = \<lparr>rf_Reason = ReasonThrottled, rf_RetryAfter = probe - now\<rparr>"
    and "probe \<le> now \<Longrightarrow> now \<le> t + staleEntryAge \<Longrightarrow>
      fst (limit_Admit scope now r) = Some \<lparr>lp_scope = scope, lp_reported = False\<rparr> \<and> on_trial scope (snd (snd (limit_Admit scope now r)))"
proof -
  obtain e where e: "r scope = Some e" "le_reason e = ReasonThrottled" "le_probesAt e = probe" "\<not> le_trialInFlight e" "t \<le> le_lastSeen e"
    using assms(1) by (auto simp: cooling_def split: option.splits)
  show "now < probe \<Longrightarrow> fst (limit_Admit scope now r) = None \<and>
      fst (snd (limit_Admit scope now r)) = \<lparr>rf_Reason = ReasonThrottled, rf_RetryAfter = probe - now\<rparr>"
    using e assms(2) time_sub_exact [of probe now] by (simp add: limit_Admit_def removeStaleLocked_def stale_entry_def Let_def)
  have "now \<le> t + staleEntryAge \<Longrightarrow> \<not> time_sub now (le_lastSeen e) > staleEntryAge"
    using e(5) by (simp add: time_sub_def staleEntryAge_def go_arith)
  then show "probe \<le> now \<Longrightarrow> now \<le> t + staleEntryAge \<Longrightarrow>
      fst (limit_Admit scope now r) = Some \<lparr>lp_scope = scope, lp_reported = False\<rparr> \<and> on_trial scope (snd (snd (limit_Admit scope now r)))"
    using e by (simp add: limit_Admit_def removeStaleLocked_def stale_entry_def on_trial_def Let_def)
qed

text \<open>
  C34: A throttle reported at t for a positive retry window d refuses the generation at every instant from t to just
  before t + d, with the reason and exactly the time left, whatever is admitted or reported in between, except
  that an earlier attempt of the same generation reports success, a rejection or a throttle of its own, which
  answers for itself. From t + d, if that is within an hour of t, one attempt is admitted, and until a report of this
  generation, any later admission of it is refused, whatever else is admitted or reported and however long it takes.
  A report of this generation by an attempt that does not hold the trial releases it too: the next theorem.
\<close>

theorem throttle_window_honoured:
  assumes "0 < d" and "d \<le> max_int64" and "t \<le> now" and "lp_reported pm = False"
    and "list_all (keeps_window (lp_scope pm) t (t + d)) xs" and "list_all (keeps_trial (lp_scope pm)) ys"
  shows "let r = fold customer_lane.lane_apply xs (snd (report_outcome (Some pm) (Throttled d) t r0));
             (p, why, r') = limit_Admit (lp_scope pm) now r
         in (now < t + d \<longrightarrow> p = None \<and> why = \<lparr>rf_Reason = ReasonThrottled, rf_RetryAfter = t + d - now\<rparr>) \<and>
            (t + d \<le> now \<and> now \<le> t + staleEntryAge \<longrightarrow>
               p = Some \<lparr>lp_scope = lp_scope pm, lp_reported = False\<rparr> \<and>
               fst (limit_Admit (lp_scope pm) later (fold customer_lane.lane_apply ys r')) = None)"
proof -
  let ?r = "fold customer_lane.lane_apply xs (snd (report_outcome (Some pm) (Throttled d) t r0))"
  have "cooling (lp_scope pm) t (t + d) (snd (report_outcome (Some pm) (Throttled d) t r0))"
    using assms(1,4) by (simp add: cooling_def limit_report_def entryFor_def)
  then have r: "cooling (lp_scope pm) t (t + d) ?r" by (rule cooling_fold [OF assms(5)])
  have left: "0 < t + d - now \<Longrightarrow> t + d - now \<le> max_int64" using assms(2,3) by simp
  show ?thesis using cooling_admit [OF r left] trial_blocks [OF trial_fold [OF assms(6)]]
    by (simp add: Let_def split_def)
qed

theorem throttle_window_honoured_witness:
  "let r = fold customer_lane.lane_apply [LaneAdmit scope_a second] (snd (report_outcome (Some permit_a) (Throttled (5 * second)) 0 Map.empty));
       r' = snd (snd (limit_Admit scope_a (6 * second) r))
   in fst (limit_Admit scope_a (2 * second) r) = None \<and> fst (limit_Admit scope_a (6 * second) r) \<noteq> None \<and>
      fst (limit_Admit scope_a (2 * hour) (fold customer_lane.lane_apply [LaneAdmit scope_a (7 * second)] r')) = None"
  using throttle_window_honoured [of "5 * second" 0 "2 * second" permit_a "[LaneAdmit scope_a second]" "[]" Map.empty second]
    throttle_window_honoured [of "5 * second" 0 "6 * second" permit_a "[LaneAdmit scope_a second]" "[LaneAdmit scope_a (7 * second)]"
      Map.empty "2 * hour"]
  by (simp add: go_arith permit_a_def staleEntryAge_def split_def Let_def)

text \<open>
  Two half-open attempts of one generation can be outstanding at once. Two attempts are
  admitted; one reports a throttle; after its window one trial is admitted; the other attempt
  then reports a failure that does not describe the key, which releases the trial slot it does
  not hold; a second trial is admitted although the first was never reported.
\<close>

theorem unrelated_report_releases_trial_slot:
  "let (a, _, r1) = limit_Admit scope_a 1 Map.empty;
       (b, _, r2) = limit_Admit scope_a 1 r1;
       (_, r3) = report_outcome a (Throttled (5 * second)) 2 r2;
       (trial1, _, r4) = limit_Admit scope_a (2 + 5 * second) r3;
       (blocked, _, _) = limit_Admit scope_a (3 + 5 * second) r4;
       (_, r5) = report_outcome b NotAttributable (3 + 5 * second) r4;
       (trial2, _, _) = limit_Admit scope_a (4 + 5 * second) r5
   in trial1 \<noteq> None \<and> blocked = None \<and> trial2 \<noteq> None"
  by (simp add: limit_Admit_def limit_report_def removeStaleLocked_def Let_def entryFor_def
      no_refusal_def stale_entry_def staleEntryAge_def time_sub_def go_arith)

end
