(* ===== verification/Executor.thy ===== *)
theory Executor
  imports Route_Resolution Adapter_Registry Rotation Customer_Limit
begin

text \<open>
  The executor (\<open>internal/kaana/executor.go\<close>): one normalized request through its signed candidates,
  with breaker and customer-limit admission, same-route retries, failover, settlement and the
  record of what it cost.

  What the executor asks of the world is the record \<open>exec_env\<close>. A \<^emph>\<open>turn\<close> is one iteration of the
  loop; turns are numbered, and a clock, the request context and the shared registries are read at
  numbered \<^emph>\<open>sites\<close> of a turn, so that every reading may differ from every other one. Between two
  of its own steps other requests work on the shared breakers and customer limits:
  \<open>en_rotation\<close> and \<open>en_limits\<close> are what they do. The adapter registry may be replaced between turns. Log
  lines, timing telemetry and the credential-attempt sequence, which only adapters use, are left out.
\<close>

section \<open>The retry policy\<close>

record retry_policy =
  rtp_MaxRetriesPerRoute :: int
  rtp_Backoff :: duration
  rtp_Budget :: duration

definition DefaultRetryPolicy :: retry_policy where
  "DefaultRetryPolicy = \<lparr>rtp_MaxRetriesPerRoute = 2, rtp_Backoff = second, rtp_Budget = 15 * second\<rparr>"

text \<open>\<open>Some d\<close> is a transient failure with the hint \<open>d\<close>.\<close>

definition transientFailure :: "go_error \<Rightarrow> duration option" where
  "transientFailure err =
     (if \<not> DeploymentAttributable err then None
      else case as_upstream err of
             None \<Rightarrow> None
           | Some f \<Rightarrow>
               if uf_RecursOnThisRoute f then None
               else let retryAfter = int64 (uf_RetryAfterMs f * 1000000)
                    in if uf_Category f = UpstreamQuota \<or> uf_Category f = UpstreamAuthentication then None
                       else (case uf_Code f of
                               CodeRateLimited \<Rightarrow> Some retryAfter
                             | CodeProviderOverloaded \<Rightarrow> Some retryAfter
                             | CodeProviderTimeout \<Rightarrow> Some retryAfter
                             | CodeProviderError \<Rightarrow> if uf_Category f = UpstreamServerError then Some retryAfter else None
                             | _ \<Rightarrow> None))"

text \<open>\<open>random n\<close> is \<open>mathrand.N(n)\<close>, some number below \<open>n\<close>.\<close>

definition retry_next :: "retry_policy \<Rightarrow> (int \<Rightarrow> int) \<Rightarrow> go_error \<Rightarrow> int \<Rightarrow> duration \<Rightarrow> duration option" where
  "retry_next p random err retried waited =
     (if retried \<ge> rtp_MaxRetriesPerRoute p then None
      else case transientFailure err of
             None \<Rightarrow> None
           | Some retryAfter \<Rightarrow>
               let wait = int64 (rtp_Backoff p * 2 ^ nat retried);
                   half = wait sdiv 2;
                   wait = (if half > 0 then half + random (wait - half + 1) else wait);
                   wait = max wait retryAfter
               in if int64 (waited + wait) > rtp_Budget p then None else Some wait)"

section \<open>The world\<close>

record ('c, 'd) exec_env =
  en_quoted :: "string \<Rightarrow> string"
  en_describeRequest :: "request_error \<Rightarrow> string"
  en_describeReport :: "report_error \<Rightarrow> string"
  en_errorText :: "go_error \<Rightarrow> string"
  en_inventory :: inventory
  en_costs :: "cards option"
  en_retry :: retry_policy
  en_sink :: sink
  en_generation :: "string option"
  en_registry :: "nat \<Rightarrow> ('c, 'd) adapter_registry"
  en_now :: "nat \<Rightarrow> nat \<Rightarrow> instant"
  en_clock :: "nat \<Rightarrow> nat \<Rightarrow> instant"
  en_rotation :: "nat \<Rightarrow> nat \<Rightarrow> registry \<Rightarrow> registry"
  en_limits :: "nat \<Rightarrow> nat \<Rightarrow> limit_registry \<Rightarrow> limit_registry"
  en_random :: "nat \<Rightarrow> int \<Rightarrow> int"
  en_withdrawn :: "nat \<Rightarrow> nat \<Rightarrow> bool"
  en_waits :: "nat \<Rightarrow> duration \<Rightarrow> bool"
  en_resolver :: "(nat \<Rightarrow> customer_scope \<Rightarrow> go_error + string) option"
  en_reports :: bool
  en_answersValid :: "decision_input \<Rightarrow> 'd list \<Rightarrow> bool"

text \<open>
  One candidate's turn upstream, and what one execution produced. The decision and embedding answers
  of a result are the adapter's, next to the report.
\<close>

record 'd attempt =
  att_route :: route
  att_outcome :: "'d outcome"
  att_err :: "go_error option"
  att_cancelled :: bool
  att_funding :: funding

record 'd result =
  re_Decisions :: "'d list option"
  re_Embedding :: "embedding_result option"
  re_DetectedLanguage :: "string option"
  re_Report :: "usage_report option"
  re_Failure :: "contract_error option"
  re_UpstreamCost :: cost_record

record verdict =
  vd_ConnectionID :: string
  vd_CredentialHandle :: string
  vd_CredentialRevision :: int
  vd_Environment :: environment
  vd_Valid :: bool

text \<open>
  The variables of the loop and the state it works on. \<open>xs_calls\<close> is a history variable: each use
  of an adapter, in order, with whether the stream had been committed to the customer before it,
  the credentials it was given, and how it failed.
\<close>

record adapter_use =
  use_route :: route
  use_committed :: bool
  use_credentials :: credentials
  use_err :: "go_error option"
  use_cancelled :: bool

record 'd exec_state =
  xs_emit :: emitter
  xs_rotation :: registry
  xs_limits :: limit_registry
  xs_verdicts :: "verdict list"
  xs_usage :: "attempt_usage list"
  xs_switches :: int
  xs_abandoned :: "'d attempt option"
  xs_skipped :: "deployment_id list"
  xs_retrySame :: bool
  xs_routeRetries :: int
  xs_waited :: duration
  xs_turn :: nat
  xs_calls :: "adapter_use list"

datatype 'd control =
    Next_route "'d exec_state"
  | Same_route "'d exec_state"
  | Leave_loop "'d attempt" "'d exec_state"
  | Return_result "'d result" "'d exec_state"

text \<open>How the loop ends: past the last candidate, by its \<open>break\<close>, or by a \<open>return\<close> inside it.\<close>

datatype 'd loop_end = Exhausted "'d exec_state" | Broken "'d attempt" "'d exec_state" | Returned "'d result" "'d exec_state"

definition no_cost :: cost_record where
  "no_cost = \<lparr>cr_RequestID = '''', cr_Attempts = [], cr_Totals = [], cr_Complete = False\<rparr>"

definition failed_result :: "contract_error \<Rightarrow> cost_record \<Rightarrow> 'd result" where
  "failed_result failure cost =
     \<lparr>re_Decisions = None, re_Embedding = None, re_DetectedLanguage = None, re_Report = None,
      re_Failure = Some failure, re_UpstreamCost = cost\<rparr>"

section \<open>Classification\<close>

definition switchReason :: "go_error \<Rightarrow> route_switch_reason" where
  "switchReason err =
     (case as_upstream err of
        None \<Rightarrow> SwitchProviderError
      | Some f \<Rightarrow>
          (case uf_Category f of
             UpstreamRateLimit \<Rightarrow> SwitchRateLimited
           | UpstreamQuota \<Rightarrow> SwitchCapacity
           | UpstreamTimeout \<Rightarrow> SwitchProviderTimeout
           | UpstreamOverloaded \<Rightarrow> SwitchProviderOverloaded
           | _ \<Rightarrow> SwitchProviderError))"

definition isCancellation :: "bool \<Rightarrow> go_error \<Rightarrow> bool" where
  "isCancellation withdrawn err \<longleftrightarrow> errors_is err ContextCanceled \<or> errors_is err ErrClientGone \<or> withdrawn"

definition translationFailure :: "(go_error \<Rightarrow> string) \<Rightarrow> request_id \<Rightarrow> go_error \<Rightarrow> contract_error" where
  "translationFailure errorText requestID err =
     (case as_unsupported err of
        Some u \<Rightarrow>
          let failure = NewError requestID (us_Code u) (us_Detail u)
          in if us_Param u \<noteq> '''' then WithParam failure (us_Param u) else failure
      | None \<Rightarrow> NewError requestID CodeInvalidRequest (errorText err))"

definition upstreamFailure ::
  "(go_error \<Rightarrow> string) \<Rightarrow> request_id \<Rightarrow> provider_slug \<Rightarrow> go_error \<Rightarrow> contract_error" where
  "upstreamFailure errorText requestID slug err =
     (if as_customer_credential err \<noteq> None
      then NewError requestID CodeBYOKCredentialInvalid ''the customer provider credential is unavailable''
      else case as_upstream err of
             Some f \<Rightarrow> ContractError f requestID
           | None \<Rightarrow>
               if errors_is err ContextDeadlineExceeded
               then WithUpstream (NewError requestID CodeProviderTimeout (slug @ '' did not respond in time'')) UpstreamTimeout None
               else WithUpstream (NewError requestID CodeProviderError (errorText err)) UpstreamUnknown
                      (Some (passthrough_of slug)))"

definition customerCredentialRefusal :: "request_id \<Rightarrow> refusal \<Rightarrow> contract_error" where
  "customerCredentialRefusal requestID r =
     (if rf_Reason r = ReasonThrottled
      then let failure = WithUpstream (NewError requestID CodeRateLimited
                 ''the customer provider credential is temporarily rate limited'') UpstreamRateLimit None
           in if rf_RetryAfter r > 0
              then let ms = milliseconds (rf_RetryAfter r) in WithRetryAfter failure (if ms = 0 then 1 else ms)
              else failure
      else NewError requestID CodeBYOKCredentialInvalid ''the customer provider credential is unavailable'')"

definition everyRouteOutOfRotation ::
  "request_id \<Rightarrow> nat \<Rightarrow> deployment_id list \<Rightarrow> instant \<Rightarrow> registry \<Rightarrow> contract_error" where
  "everyRouteOutOfRotation requestID candidateCount skipped t reg =
     (let failure = NewError requestID CodeDeploymentUnavailable
            (''all '' @ string_of_nat candidateCount @ '' authorized deployments are out of rotation'');
          (wait, known) = SoonestProbe reg skipped t
      in if known then WithRetryAfter failure (milliseconds wait) else failure)"

section \<open>Settlement\<close>

definition outcomeFor :: "'d attempt \<Rightarrow> request_outcome" where
  "outcomeFor a =
     (if att_err a = None then OutcomeCompleted
      else if length (ou_Units (att_outcome a)) > 0 then OutcomePartial else OutcomeFailed)"

definition not_settleable :: "('c, 'd) exec_env \<Rightarrow> request_id \<Rightarrow> report_error \<Rightarrow> contract_error" where
  "not_settleable env requestID e =
     NewError requestID CodeInternalError (''the usage report for this request is not settleable: '' @ en_describeReport env e)"

definition finalize ::
  "('c, 'd) exec_env \<Rightarrow> usage_report \<Rightarrow> contract_error option \<Rightarrow> go_error option \<Rightarrow> cost_record \<Rightarrow> 'd result" where
  "finalize env report failure sinkErr cost =
     (case report_Validate report of
        Some e \<Rightarrow> failed_result (not_settleable env (ur_RequestID report) e) cost
      | None \<Rightarrow>
          \<lparr>re_Decisions = None, re_Embedding = None, re_DetectedLanguage = None, re_Report = Some report,
           re_Failure = (if sinkErr \<noteq> None \<and> failure = None
                         then Some (NewError (ur_RequestID report) CodeCancelled ''the event stream could not be delivered'')
                         else failure),
           re_UpstreamCost = cost\<rparr>)"

text \<open>The served mark: on the last row only.\<close>

definition mark_served :: "bool \<Rightarrow> attempt_usage list \<Rightarrow> attempt_usage list" where
  "mark_served served usage =
     (if usage = [] then []
      else map (\<lambda>u. u\<lparr>au_Served := False\<rparr>) (butlast usage) @ [(last usage)\<lparr>au_Served := served\<rparr>])"

definition set_last_units :: "usage_quantity list \<Rightarrow> attempt_usage list \<Rightarrow> attempt_usage list" where
  "set_last_units units usage =
     (if usage = [] then [] else butlast usage @ [(last usage)\<lparr>au_Units := units\<rparr>])"

definition finishReasonOr :: "finish_reason \<Rightarrow> finish_reason \<Rightarrow> finish_reason" where
  "finishReasonOr reason fallback = (if reason = OtherFinish '''' then fallback else reason)"

text \<open>What settlement estimates when nothing was reported.\<close>

definition estimate_usage ::
  "sink \<Rightarrow> bool \<Rightarrow> 'd attempt \<Rightarrow> attempt_usage list \<Rightarrow> go_error option \<Rightarrow> emitter \<Rightarrow>
   'd attempt \<times> attempt_usage list \<times> go_error option \<times> emitter" where
  "estimate_usage sink completed a usage sinkErr e =
     (let units = ou_Units (att_outcome a)
      in if em_attemptStarted e \<and> (completed \<or> hasDeliveredOutput e) \<and>
            (length units = 0 \<or> ou_UsageSource (att_outcome a) = UsageEstimated)
         then let units = supplement (em_estimate e) units;
                  a = a\<lparr>att_outcome := (att_outcome a)\<lparr>ou_Units := units, ou_UsageSource := UsageEstimated\<rparr>\<rparr>;
                  usage = set_last_units units usage
              in if \<not> em_sinkFailed e \<and> sinkErr = None
                 then (case emitter_Usage sink units UsageEstimated e of (err, e) \<Rightarrow> (a, usage, err, e))
                 else (a, usage, sinkErr, e)
         else (a, usage, sinkErr, e))"

definition report_of ::
  "request \<Rightarrow> string option \<Rightarrow> 'd attempt \<Rightarrow> attempt_usage list \<Rightarrow> int \<Rightarrow> instant \<Rightarrow> instant \<Rightarrow> usage_report" where
  "report_of request generationID a usage switches startedAt completedAt =
     \<lparr>ur_SchemaVersion = UsageReportSchemaVersion, ur_RequestID = at_RequestID (rq_Attribution request),
      ur_GenerationID = generationID, ur_Outcome = OtherOutcome '''', ur_Units = ou_Units (att_outcome a),
      ur_UsageSource = ou_UsageSource (att_outcome a), ur_ResolvedModelReference = ro_ModelReference (att_route a),
      ur_ServingProvider = ro_Provider (att_route a), ur_DeploymentID = ro_DeploymentID (att_route a),
      ur_RouteSwitches = switches,
      ur_FundingTier = (if usage \<noteq> [] \<and> au_Served (last usage) \<and> Tier (att_funding a) \<noteq> FundingTierNone
                        then Some (Tier (att_funding a)) else None),
      ur_StartedAt = NewTimestamp startedAt, ur_CompletedAt = NewTimestamp completedAt, ur_TimeToFirstTokenMs = None\<rparr>"

definition default_source :: "usage_source \<Rightarrow> usage_report \<Rightarrow> usage_report" where
  "default_source source report =
     (if ur_UsageSource report = no_source then report\<lparr>ur_UsageSource := source\<rparr> else report)"

definition decisions_result ::
  "('c, 'd) exec_env \<Rightarrow> request \<Rightarrow> 'd attempt \<Rightarrow> usage_report \<Rightarrow> cost_record \<Rightarrow> 'd result" where
  "decisions_result env request a report cost =
     (let requestID = at_RequestID (rq_Attribution request);
          answers = (case ou_Decisions (att_outcome a) of None \<Rightarrow> [] | Some ds \<Rightarrow> ds);
          ok = (case in_Decisions (rq_Input request) of None \<Rightarrow> False | Some d \<Rightarrow> en_answersValid env d answers)
      in if \<not> ok
         then finalize env (report\<lparr>ur_Outcome := OutcomeFailed\<rparr>)
                (Some (NewError requestID CodeProviderError ''the adapter returned invalid decisions'')) None cost
         else let report = report\<lparr>ur_Outcome := OutcomeCompleted\<rparr>
              in case report_Validate report of
                   Some _ \<Rightarrow> failed_result (NewError requestID CodeInternalError ''invalid decisions usage report'') cost
                 | None \<Rightarrow>
                     \<lparr>re_Decisions = ou_Decisions (att_outcome a), re_Embedding = None, re_DetectedLanguage = None,
                      re_Report = Some report, re_Failure = None, re_UpstreamCost = cost\<rparr>)"

definition final_outcome :: "'d attempt \<Rightarrow> go_error option \<Rightarrow> contract_error option \<Rightarrow> emitter \<Rightarrow> request_outcome" where
  "final_outcome a sinkErr terminalFailure e =
     (if sinkErr \<noteq> None \<or> terminalFailure \<noteq> None then outcomeFor a
      else if att_err a = None \<and> \<not> em_attemptStarted e then OutcomeFailed
      else if att_err a = None then OutcomeCompleted
      else if att_cancelled a then OutcomeCancelled
      else outcomeFor a)"

text \<open>The terminal event and the result, for a report that validates.\<close>

definition conclude ::
  "('c, 'd) exec_env \<Rightarrow> request_id \<Rightarrow> 'd attempt \<Rightarrow> usage_report \<Rightarrow> cost_record \<Rightarrow> instant \<Rightarrow> go_error option \<Rightarrow>
   contract_error option \<Rightarrow> emitter \<Rightarrow> 'd result \<times> emitter" where
  "conclude env requestID a report cost completedAt sinkErr terminalFailure e =
     (if sinkErr \<noteq> None then (finalize env report None sinkErr cost, e)
      else case terminalFailure of
        Some failure \<Rightarrow>
          (case finishWithError (en_sink env) failure e of (err, e) \<Rightarrow> (finalize env report (Some failure) err cost, e))
      | None \<Rightarrow>
          (case att_err a of
             None \<Rightarrow>
               if \<not> em_attemptStarted e
               then let failure = NewError requestID CodeInternalError
                          (''the '' @ ro_Provider (att_route a) @ '' adapter completed without starting a stream'')
                    in (case finishWithError (en_sink env) failure e of
                          (_, e) \<Rightarrow> (finalize env report (Some failure) None cost, e))
               else (case finishWithDone (en_sink env) (finishReasonOr (ou_FinishReason (att_outcome a)) FinishStop) completedAt e of
                       (Some err, e) \<Rightarrow> (finalize env report None (Some err) cost, e)
                     | (None, e) \<Rightarrow>
                         ((finalize env report None None cost)\<lparr>re_DetectedLanguage := ou_DetectedLanguage (att_outcome a)\<rparr>, e))
           | Some err \<Rightarrow>
               if att_cancelled a
               then (finalize env report (Some (NewError requestID CodeCancelled ''the client cancelled the request'')) None cost, e)
               else let failure = upstreamFailure (en_errorText env) requestID (ro_Provider (att_route a)) err
                    in (case finishWithError (en_sink env) failure e of
                          (emitErr, e) \<Rightarrow> (finalize env report (Some failure) emitErr cost, e))))"

text \<open>What settles and what the stream ends with, once the report is built.\<close>

definition settle_report ::
  "('c, 'd) exec_env \<Rightarrow> request \<Rightarrow> bool \<Rightarrow> instant \<Rightarrow> 'd attempt \<Rightarrow> go_error option \<Rightarrow> contract_error option \<Rightarrow> usage_report \<Rightarrow>
   cost_record \<Rightarrow> emitter \<Rightarrow> 'd result \<times> emitter" where
  "settle_report env request completed completedAt a sinkErr terminalFailure report cost e =
     (let requestID = at_RequestID (rq_Attribution request)
      in if completed \<and> cm_APIFormat (rq_Client request) = APIFormatDecisions
         then (decisions_result env request a report cost, e)
         else if att_err a = None \<and> ou_Embedding (att_outcome a) \<noteq> None
         then (\<lparr>re_Decisions = None, re_Embedding = ou_Embedding (att_outcome a), re_DetectedLanguage = None,
                re_Report = Some (default_source UsageProviderReported (report\<lparr>ur_Outcome := OutcomeCompleted\<rparr>)),
                re_Failure = None, re_UpstreamCost = cost\<rparr>, e)
         else let ttft = timeToFirstToken e;
                  report = (if ttft > 0 then report\<lparr>ur_TimeToFirstTokenMs := Some (milliseconds ttft)\<rparr> else report);
                  report = (default_source UsageEstimated report)\<lparr>ur_Outcome := final_outcome a sinkErr terminalFailure e\<rparr>
              in case report_Validate report of
                   Some err \<Rightarrow>
                     let failure = not_settleable env requestID err
                     in (failed_result failure cost,
                         if sinkErr = None \<and> \<not> att_cancelled a then snd (finishWithError (en_sink env) failure e) else e)
                 | None \<Rightarrow> conclude env requestID a report cost completedAt sinkErr terminalFailure e)"

definition settle ::
  "('c, 'd) exec_env \<Rightarrow> request \<Rightarrow> string option \<Rightarrow> instant \<Rightarrow> 'd attempt \<Rightarrow> go_error option \<Rightarrow> contract_error option \<Rightarrow>
   'd exec_state \<Rightarrow> 'd result \<times> 'd exec_state" where
  "settle env request generationID startedAt a0 sinkErr0 terminalFailure s =
     (let completedAt = en_now env (xs_turn s) 6;
          completed = (att_err a0 = None \<and> sinkErr0 = None \<and> terminalFailure = None);
          (a, usage0, sinkErr, e) = estimate_usage (en_sink env) completed a0 (xs_usage s) sinkErr0 (xs_emit s);
          served = (hasDeliveredOutput e \<or>
            att_err a = None \<and> (em_attemptStarted e \<or> ou_Embedding (att_outcome a) \<noteq> None \<or> ou_Decisions (att_outcome a) \<noteq> None));
          usage = mark_served served usage0;
          cost = MeasureRequest (en_costs env) (en_clock env (xs_turn s) 2) (at_RequestID (rq_Attribution request)) usage;
          report = report_of request generationID a usage (xs_switches s) startedAt completedAt;
          (r, e) = settle_report env request completed completedAt a sinkErr terminalFailure report cost e
      in (r, s\<lparr>xs_emit := e, xs_usage := usage\<rparr>))"

section \<open>Before an attempt\<close>

fun environment_text :: "environment \<Rightarrow> string" where
  "environment_text EnvironmentDevelopment = ''development''"
| "environment_text EnvironmentStaging = ''staging''"
| "environment_text EnvironmentProduction = ''production''"
| "environment_text (OtherEnvironment s) = s"

definition customerCredentialScope :: "route \<Rightarrow> customer_provider_credential \<Rightarrow> customer_scope" where
  "customerCredentialScope r binding =
     \<lparr>cs_Provider = ro_Provider r, cs_OwnerAccountID = cpc_OwnerAccountID binding, cs_ConnectionID = cpc_ConnectionID binding,
      cs_Environment = environment_text (cpc_Environment binding), cs_CredentialHandle = cpc_CredentialHandle binding,
      cs_Revision = cpc_CredentialRevision binding\<rparr>"

text \<open>
  The customer's own limits for a customer route, and the deployment's breaker for a platform route.
  The nil permit of the other kind of route is \<open>None\<close>.
\<close>

definition admit_customer ::
  "('c, 'd) exec_env \<Rightarrow> route \<Rightarrow> 'd exec_state \<Rightarrow> (refusal + limit_permit option) \<times> 'd exec_state" where
  "admit_customer env r s =
     (case ro_CustomerProviderCredential r of
        None \<Rightarrow> (Inr None, s)
      | Some binding \<Rightarrow>
          let n = xs_turn s
          in case limit_Admit (customerCredentialScope r binding) (en_now env n 0) (en_limits env n 0 (xs_limits s)) of
               (None, refused, limits) \<Rightarrow> (Inl refused, s\<lparr>xs_limits := limits\<rparr>)
             | (Some p, _, limits) \<Rightarrow> (Inr (Some p), s\<lparr>xs_limits := limits\<rparr>))"

definition admit_platform ::
  "('c, 'd) exec_env \<Rightarrow> route \<Rightarrow> 'd exec_state \<Rightarrow> permit option option \<times> 'd exec_state" where
  "admit_platform env r s =
     (if ro_CustomerProviderCredential r \<noteq> None then (Some None, s)
      else let n = xs_turn s
           in case Admit (ro_DeploymentID r) (en_now env n 1) (en_rotation env n 0 (xs_rotation s)) of
                (None, reg) \<Rightarrow> (None, s\<lparr>xs_rotation := reg\<rparr>)
              | (Some p, reg) \<Rightarrow> (Some (Some p), s\<lparr>xs_rotation := reg\<rparr>))"

text \<open>Reports to the two permits; a report to a nil permit does nothing, and no other request intervenes in it.\<close>

definition report_platform ::
  "('c, 'd) exec_env \<Rightarrow> permit option \<Rightarrow> rotation_outcome \<Rightarrow> 'd exec_state \<Rightarrow> 'd exec_state" where
  "report_platform env p res s =
     (if p = None then s
      else let n = xs_turn s
           in s\<lparr>xs_rotation := snd (permit_report p res (en_now env n 4) (en_rotation env n 1 (xs_rotation s)))\<rparr>)"

definition report_customer ::
  "('c, 'd) exec_env \<Rightarrow> limit_permit option \<Rightarrow> limit_outcome \<Rightarrow> 'd exec_state \<Rightarrow> 'd exec_state" where
  "report_customer env p res s =
     (if p = None then s
      else let n = xs_turn s
           in s\<lparr>xs_limits := snd (report_outcome p res (en_now env n 5) (en_limits env n 1 (xs_limits s)))\<rparr>)"

definition release ::
  "('c, 'd) exec_env \<Rightarrow> permit option \<Rightarrow> limit_permit option \<Rightarrow> 'd exec_state \<Rightarrow> 'd exec_state" where
  "release env p cp s = report_customer env cp NotAttributable (report_platform env p outcomeIrrelevant s)"

definition skip_route :: "route \<Rightarrow> 'd exec_state \<Rightarrow> 'd exec_state" where
  "skip_route r s = s\<lparr>xs_skipped := xs_skipped s @ [ro_DeploymentID r], xs_turn := Suc (xs_turn s)\<rparr>"

definition boundedPool :: "credentials \<Rightarrow> funding_tier \<Rightarrow> credentials option" where
  "boundedPool creds tier =
     (case creds of
        None \<Rightarrow> None
      | Some (p, v) \<Rightarrow> (case WithinFunding p v tier of Inl _ \<Rightarrow> None | Inr w \<Rightarrow> Some (Some (p, w))))"

definition attemptFunding :: "credentials \<Rightarrow> route \<Rightarrow> string \<Rightarrow> funding" where
  "attemptFunding creds r keyID =
     (case creds of
        None \<Rightarrow> FundingUnstated
      | Some (p, v) \<Rightarrow> if ro_CustomerProviderCredential r \<noteq> None then FundingUnstated else fst (FundingOf p keyID))"

fun api_format_text :: "api_format \<Rightarrow> string" where
  "api_format_text APIFormatDecisions = ''decisions''"
| "api_format_text APIFormatResponses = ''responses''"
| "api_format_text APIFormatChatCompletions = ''chat_completions''"
| "api_format_text APIFormatEmbeddings = ''embeddings''"
| "api_format_text APIFormatImagesGenerations = ''images_generations''"
| "api_format_text APIFormatAudioTranscriptions = ''audio_transcriptions''"
| "api_format_text APIFormatAudioSpeech = ''audio_speech''"
| "api_format_text APIFormatRerank = ''rerank''"
| "api_format_text APIFormatBatches = ''batches''"
| "api_format_text (OtherAPIFormat s) = s"

definition translate :: "('c, 'd) adapter \<Rightarrow> request \<Rightarrow> route \<Rightarrow> go_error + 'c" where
  "translate a request r =
     (let format = cm_APIFormat (rq_Client request); spoken = rq_AudioOutput request \<noteq> None; outputs = ChatOutputsOf a r
      in if \<not> Executes a format
         then Inl (ErrUnsupported \<lparr>us_Code = CodeUnsupportedModality, us_Param = ''client.apiFormat'',
                us_Detail = ''the '' @ ro_Provider r @ '' deployment does not execute '' @ api_format_text format @ '' requests''\<rparr>)
         else if format = APIFormatChatCompletions \<and> spoken \<and> \<not> co_Spoken outputs
         then Inl (ErrUnsupported \<lparr>us_Code = CodeUnsupportedModality, us_Param = ''audioOutput'',
                us_Detail = ''the '' @ ro_Provider r @ '' deployment of '' @ ro_UpstreamModelID r @ '' does not answer aloud''\<rparr>)
         else if format = APIFormatChatCompletions \<and> \<not> spoken \<and> \<not> co_Text outputs
         then Inl (ErrUnsupported \<lparr>us_Code = CodeInvalidRequest, us_Param = ''audioOutput'',
                us_Detail = ''the '' @ ro_Provider r @ '' deployment answers aloud only; a text chat belongs to a text deployment''\<rparr>)
         else ad_Translate a request r)"

definition customer_unavailable :: "request_id \<Rightarrow> contract_error" where
  "customer_unavailable requestID =
     NewError requestID CodeBYOKCredentialInvalid ''the customer provider credential is unavailable''"

definition credentialsForRoute ::
  "('c, 'd) exec_env \<Rightarrow> nat \<Rightarrow> request_id \<Rightarrow> route \<Rightarrow> credentials \<Rightarrow> contract_error + credentials" where
  "credentialsForRoute env n requestID r platform =
     (case ro_CustomerProviderCredential r of
        None \<Rightarrow> Inr platform
      | Some binding \<Rightarrow>
          (case en_resolver env of
             None \<Rightarrow> Inl (customer_unavailable requestID)
           | Some resolver \<Rightarrow>
               (case resolver n (customerCredentialScope r binding) of
                  Inl _ \<Rightarrow> Inl (customer_unavailable requestID)
                | Inr plaintext \<Rightarrow>
                    (case NewCustomerKeyPool (ro_Provider r) plaintext of
                       Inl _ \<Rightarrow> Inl (customer_unavailable requestID)
                     | Inr pool \<Rightarrow> Inr (Some (pool, root_view))))))"

section \<open>An attempt\<close>

definition attemptTelemetry ::
  "('c, 'd) exec_env \<Rightarrow> nat \<Rightarrow> request_id \<Rightarrow> provider_slug \<Rightarrow> go_error option \<Rightarrow> instant \<Rightarrow> attempt_telemetry" where
  "attemptTelemetry env n requestID slug streamErr firstOutputAt =
     (let clock = en_clock env n 0; latency = time_sub (en_clock env n 1) clock
      in \<lparr>te_StartedAt = en_now env n 3, te_Latency = latency,
          te_TimeToFirstOutput = (if firstOutputAt \<noteq> zero_time \<and> \<not> firstOutputAt < clock
                                  then min (time_sub firstOutputAt clock) latency else 0),
          te_Outcome = (case streamErr of
             None \<Rightarrow> AttemptSucceeded
           | Some err \<Rightarrow> if isCancellation (en_withdrawn env n 0) err then AttemptCancelled else AttemptFailed),
          te_FailureCode = (case streamErr of
             None \<Rightarrow> None
           | Some err \<Rightarrow>
               if isCancellation (en_withdrawn env n 0) err then None
               else Some (ce_Code (upstreamFailure (en_errorText env) requestID slug err)))\<rparr>)"

definition customer_limit_outcome :: "go_error option \<Rightarrow> limit_outcome" where
  "customer_limit_outcome streamErr =
     (case streamErr of
        None \<Rightarrow> Succeeded
      | Some err \<Rightarrow>
          if as_customer_credential err \<noteq> None then Rejected
          else case as_customer_upstream err of
                 Some f \<Rightarrow> if uf_Code f = CodeRateLimited then Throttled (int64 (uf_RetryAfterMs f * 1000000)) else NotAttributable
               | None \<Rightarrow> NotAttributable)"

definition credential_verdicts :: "bool \<Rightarrow> route \<Rightarrow> go_error option \<Rightarrow> verdict list" where
  "credential_verdicts reports r streamErr =
     (case ro_CustomerProviderCredential r of
        None \<Rightarrow> []
      | Some b \<Rightarrow>
          if \<not> reports then []
          else let v = \<lparr>vd_ConnectionID = cpc_ConnectionID b, vd_CredentialHandle = cpc_CredentialHandle b,
                        vd_CredentialRevision = cpc_CredentialRevision b, vd_Environment = cpc_Environment b, vd_Valid = True\<rparr>
               in case streamErr of
                    None \<Rightarrow> [v]
                  | Some err \<Rightarrow>
                      if as_customer_credential err = Some (Some CodeProviderCredentialInvalid) then [v\<lparr>vd_Valid := False\<rparr>] else [])"

definition usage_row ::
  "('c, 'd) exec_env \<Rightarrow> nat \<Rightarrow> nat \<Rightarrow> route \<Rightarrow> 'd outcome \<Rightarrow> attempt_telemetry \<Rightarrow> money option \<Rightarrow> attempt_usage" where
  "usage_row env n index r out telemetry cost =
     \<lparr>au_AttemptIndex = int index, au_DeploymentID = ro_DeploymentID r, au_Provider = ro_Provider r,
      au_ModelReference = ro_ModelReference r, au_OccurredAt = en_now env n (7 + index),
      au_ProviderBilledCustomer = (ro_CustomerProviderCredential r \<noteq> None), au_KeyID = ou_KeyID out,
      au_KeyClass = ou_KeyClass out, au_ProviderReportedCost = cost, au_Served = False, au_Units = ou_Units out,
      au_Telemetry = telemetry\<rparr>"

text \<open>The rows of the hedged exchanges that were cancelled, then the attempt's own.\<close>

definition add_usage ::
  "('c, 'd) exec_env \<Rightarrow> nat \<Rightarrow> route \<Rightarrow> 'd outcome \<Rightarrow> attempt_telemetry \<Rightarrow> attempt_usage list \<Rightarrow> attempt_usage list" where
  "add_usage env n r out telemetry usage =
     (let hedged = (if ou_Units out = [] then 0 else nat (ou_AbandonedExchanges out));
          cancelled = telemetry\<lparr>te_TimeToFirstOutput := 0, te_Outcome := AttemptCancelled, te_FailureCode := None\<rparr>
      in usage @ map (\<lambda>i. usage_row env n (length usage + i) r out cancelled None) [0..<hedged] @
         [usage_row env n (length usage + hedged) r out telemetry (ou_ProviderReportedCost out)])"

text \<open>What follows an attempt: whether it ends the request, moves on, or is tried again.\<close>

definition after_attempt ::
  "('c, 'd) exec_env \<Rightarrow> request \<Rightarrow> permit option \<Rightarrow> 'd attempt \<Rightarrow> 'd exec_state \<Rightarrow> 'd control" where
  "after_attempt env request p a s =
     (let n = xs_turn s
      in case att_err a of
           None \<Rightarrow> Leave_loop a ((report_platform env p outcomeServed s)\<lparr>xs_turn := Suc n\<rparr>)
         | Some err \<Rightarrow>
             if att_cancelled a \<or> \<not> DeploymentAttributable err
             then Leave_loop a ((report_platform env p outcomeIrrelevant s)\<lparr>xs_turn := Suc n\<rparr>)
             else let s = (report_platform env p outcomeFailed s)\<lparr>xs_turn := Suc n\<rparr>
                  in if cm_APIFormat (rq_Client request) = APIFormatDecisions then Leave_loop a s
                     else let s = s\<lparr>xs_abandoned := Some a\<rparr>
                          in if em_started (xs_emit s) then Next_route s
                             else (case retry_next (en_retry env) (en_random env n) err (xs_routeRetries s) (xs_waited s) of
                                     None \<Rightarrow> Next_route s
                                   | Some wait \<Rightarrow>
                                       if \<not> en_waits env n wait
                                       then Leave_loop (a\<lparr>att_cancelled := True\<rparr>) (s\<lparr>xs_abandoned := None\<rparr>)
                                       else Same_route (s\<lparr>xs_routeRetries := xs_routeRetries s + 1,
                                              xs_waited := int64 (xs_waited s + wait), xs_retrySame := True\<rparr>)))"

definition run_attempt ::
  "('c, 'd) exec_env \<Rightarrow> request \<Rightarrow> route \<Rightarrow> ('c, 'd) adapter \<Rightarrow> 'c \<Rightarrow> credentials \<Rightarrow> credentials \<Rightarrow> permit option \<Rightarrow>
   limit_permit option \<Rightarrow> 'd exec_state \<Rightarrow> 'd control" where
  "run_attempt env request r a call platform creds p cp s0 =
     (let n = xs_turn s0; requestID = at_RequestID (rq_Attribution request);
          e0 = serving (ro_Provider r) (ro_DeploymentID r) (xs_emit s0);
          ((out, streamErr), e) = run_adapter (ad_Stream a n call creds) (en_sink env) e0;
          telemetry = attemptTelemetry env n requestID (ro_Provider r) streamErr (em_attemptOutputAt e);
          cancelled = (case streamErr of None \<Rightarrow> False | Some err \<Rightarrow> isCancellation (en_withdrawn env n 1) err);
          s = report_customer env cp (customer_limit_outcome streamErr) (s0\<lparr>xs_abandoned := None, xs_emit := e\<rparr>);
          s = s\<lparr>xs_verdicts := xs_verdicts s @ credential_verdicts (en_reports env) r streamErr,
                xs_usage := add_usage env n r out telemetry (xs_usage s),
                xs_calls := xs_calls s @ [\<lparr>use_route = r, use_committed = em_started (xs_emit s0), use_credentials = creds,
                  use_err = streamErr, use_cancelled = cancelled\<rparr>]\<rparr>
      in after_attempt env request p
           \<lparr>att_route = r, att_outcome = out, att_err = streamErr, att_cancelled = cancelled,
            att_funding = attemptFunding platform r (ou_KeyID out)\<rparr> s)"

section \<open>The loop\<close>

text \<open>A refusal before any upstream call: it settles the attempt it would have replaced, if there was one.\<close>

definition preflight_failure ::
  "('c, 'd) exec_env \<Rightarrow> request \<Rightarrow> string option \<Rightarrow> instant \<Rightarrow> contract_error \<Rightarrow> 'd exec_state \<Rightarrow> 'd control" where
  "preflight_failure env request generationID startedAt failure s =
     (case xs_abandoned s of
        Some a \<Rightarrow>
          (case settle env request generationID startedAt a None (Some failure) s of (r, s) \<Rightarrow> Return_result r s)
      | None \<Rightarrow>
          Return_result (failed_result failure no_cost)
            (s\<lparr>xs_emit := snd (finishWithError (en_sink env) failure (xs_emit s))\<rparr>))"

definition attempt_call ::
  "('c, 'd) exec_env \<Rightarrow> request \<Rightarrow> string option \<Rightarrow> instant \<Rightarrow> route \<Rightarrow> ('c, 'd) adapter \<Rightarrow> 'c \<Rightarrow> credentials \<Rightarrow>
   permit option \<Rightarrow> limit_permit option \<Rightarrow> 'd exec_state \<Rightarrow> 'd control" where
  "attempt_call env request generationID startedAt r a call platform p cp s =
     (case credentialsForRoute env (xs_turn s) (at_RequestID (rq_Attribution request)) r platform of
        Inl failure \<Rightarrow> preflight_failure env request generationID startedAt failure (release env p cp s)
      | Inr creds \<Rightarrow> run_attempt env request r a call platform creds p cp s)"

definition switch_and_attempt ::
  "('c, 'd) exec_env \<Rightarrow> request \<Rightarrow> string option \<Rightarrow> instant \<Rightarrow> model_id \<Rightarrow> bool \<Rightarrow> route \<Rightarrow> ('c, 'd) adapter \<Rightarrow> 'c \<Rightarrow>
   credentials \<Rightarrow> permit option \<Rightarrow> limit_permit option \<Rightarrow> 'd exec_state \<Rightarrow> 'd control" where
  "switch_and_attempt env request generationID startedAt primary retrying r a call platform p cp s =
     (case (if retrying then None else xs_abandoned s) of
        None \<Rightarrow> attempt_call env request generationID startedAt r a call platform p cp s
      | Some left \<Rightarrow>
          (case att_err left of
             None \<Rightarrow> attempt_call env request generationID startedAt r a call platform p cp s
           | Some err \<Rightarrow>
               (case routeSwitch (en_sink env) (switchReason err) primary (att_route left) r (en_now env (xs_turn s) 2) (xs_emit s) of
                  (None, e) \<Rightarrow>
                    attempt_call env request generationID startedAt r a call platform p cp
                      (s\<lparr>xs_emit := e, xs_switches := xs_switches s + 1\<rparr>)
                | (Some err, e) \<Rightarrow>
                    let s = release env p cp (s\<lparr>xs_emit := e\<rparr>)
                    in if errors_is err ErrSwitchTooLate then Leave_loop left (s\<lparr>xs_abandoned := None\<rparr>)
                       else (case settle env request generationID startedAt left (Some err) None s of
                               (res, s) \<Rightarrow> Return_result res s))))"

definition after_admission ::
  "('c, 'd) exec_env \<Rightarrow> request \<Rightarrow> string option \<Rightarrow> instant \<Rightarrow> model_id \<Rightarrow> bool \<Rightarrow> candidate \<Rightarrow> permit option \<Rightarrow>
   limit_permit option \<Rightarrow> 'd exec_state \<Rightarrow> 'd control" where
  "after_admission env request generationID startedAt primary retrying c p cp s =
     (let r = cn_route c; platform = (ro_CustomerProviderCredential r = None)
      in case ResolveExecution (en_registry env (xs_turn s)) (ro_DeploymentID r) (ro_Provider r) platform of
           Inl _ \<Rightarrow> Next_route (skip_route r (release env p cp s))
         | Inr (a, creds) \<Rightarrow>
             (case (if cn_fundingCeiling c \<noteq> FundingTierNone \<and> platform then boundedPool creds (cn_fundingCeiling c) else Some creds) of
                None \<Rightarrow> Next_route (skip_route r (release env p cp s))
              | Some creds \<Rightarrow>
                  (case (if em_started (xs_emit s) then xs_abandoned s else None) of
                     Some left \<Rightarrow> Leave_loop left ((release env p cp s)\<lparr>xs_abandoned := None\<rparr>)
                   | None \<Rightarrow>
                       (case translate a request r of
                          Inl err \<Rightarrow>
                            preflight_failure env request generationID startedAt
                              (translationFailure (en_errorText env) (at_RequestID (rq_Attribution request)) err) (release env p cp s)
                        | Inr call \<Rightarrow>
                            switch_and_attempt env request generationID startedAt primary retrying r a call creds p cp s))))"

definition exec_turn ::
  "('c, 'd) exec_env \<Rightarrow> request \<Rightarrow> string option \<Rightarrow> instant \<Rightarrow> model_id \<Rightarrow> candidate \<Rightarrow> 'd exec_state \<Rightarrow> 'd control" where
  "exec_turn env request generationID startedAt primary c s0 =
     (let r = cn_route c; retrying = xs_retrySame s0;
          s = s0\<lparr>xs_retrySame := False, xs_routeRetries := (if retrying then xs_routeRetries s0 else 0)\<rparr>
      in case admit_customer env r s of
           (Inl refused, s) \<Rightarrow>
             preflight_failure env request generationID startedAt
               (customerCredentialRefusal (at_RequestID (rq_Attribution request)) refused) s
         | (Inr cp, s) \<Rightarrow>
             (case admit_platform env r s of
                (None, s) \<Rightarrow> Next_route (skip_route r s)
              | (Some p, s) \<Rightarrow> after_admission env request generationID startedAt primary retrying c p cp s))"


text \<open>
  A turn that asks for the same route again has used one more of the route's retries, so the loop
  ends: each candidate is taken at most \<open>MaxRetriesPerRoute + 1\<close> times.
\<close>

definition retries_used :: "'d exec_state \<Rightarrow> int" where
  "retries_used s = (if xs_retrySame s then xs_routeRetries s else 0)"

lemma release_simps [simp]:
  "xs_routeRetries (release env p cp s) = xs_routeRetries s" "xs_retrySame (release env p cp s) = xs_retrySame s"
  "xs_emit (release env p cp s) = xs_emit s" "xs_abandoned (release env p cp s) = xs_abandoned s"
  "xs_calls (release env p cp s) = xs_calls s" "xs_usage (release env p cp s) = xs_usage s"
  "xs_switches (release env p cp s) = xs_switches s" "xs_waited (release env p cp s) = xs_waited s"
  "xs_turn (release env p cp s) = xs_turn s" "xs_skipped (release env p cp s) = xs_skipped s"
  "xs_verdicts (release env p cp s) = xs_verdicts s"
  by (simp_all add: release_def report_customer_def report_platform_def Let_def)

lemma report_platform_simps [simp]:
  "xs_routeRetries (report_platform env p v s) = xs_routeRetries s" "xs_retrySame (report_platform env p v s) = xs_retrySame s"
  "xs_emit (report_platform env p v s) = xs_emit s" "xs_abandoned (report_platform env p v s) = xs_abandoned s"
  "xs_calls (report_platform env p v s) = xs_calls s" "xs_usage (report_platform env p v s) = xs_usage s"
  "xs_switches (report_platform env p v s) = xs_switches s" "xs_waited (report_platform env p v s) = xs_waited s"
  "xs_turn (report_platform env p v s) = xs_turn s" "xs_limits (report_platform env p v s) = xs_limits s"
  "xs_skipped (report_platform env p v s) = xs_skipped s" "xs_verdicts (report_platform env p v s) = xs_verdicts s"
  by (simp_all add: report_platform_def Let_def)

lemma report_customer_simps [simp]:
  "xs_routeRetries (report_customer env cp w s) = xs_routeRetries s" "xs_retrySame (report_customer env cp w s) = xs_retrySame s"
  "xs_emit (report_customer env cp w s) = xs_emit s" "xs_abandoned (report_customer env cp w s) = xs_abandoned s"
  "xs_calls (report_customer env cp w s) = xs_calls s" "xs_usage (report_customer env cp w s) = xs_usage s"
  "xs_switches (report_customer env cp w s) = xs_switches s" "xs_waited (report_customer env cp w s) = xs_waited s"
  "xs_turn (report_customer env cp w s) = xs_turn s" "xs_rotation (report_customer env cp w s) = xs_rotation s"
  "xs_skipped (report_customer env cp w s) = xs_skipped s" "xs_verdicts (report_customer env cp w s) = xs_verdicts s"
  by (simp_all add: report_customer_def Let_def)

lemma skip_route_simps [simp]:
  "xs_routeRetries (skip_route r s) = xs_routeRetries s" "xs_retrySame (skip_route r s) = xs_retrySame s"
  "xs_emit (skip_route r s) = xs_emit s" "xs_abandoned (skip_route r s) = xs_abandoned s"
  "xs_calls (skip_route r s) = xs_calls s" "xs_usage (skip_route r s) = xs_usage s"
  "xs_switches (skip_route r s) = xs_switches s" "xs_waited (skip_route r s) = xs_waited s"
  "xs_turn (skip_route r s) = Suc (xs_turn s)" "xs_rotation (skip_route r s) = xs_rotation s"
  "xs_limits (skip_route r s) = xs_limits s" "xs_verdicts (skip_route r s) = xs_verdicts s"
  by (simp_all add: skip_route_def)

lemma retry_next_below: "retry_next p random err retried waited = Some wait \<Longrightarrow> retried < rtp_MaxRetriesPerRoute p"
  by (auto simp: retry_next_def split: if_splits)

lemma after_attempt_same:
  assumes "after_attempt env request p a s = Same_route s'"
  shows "xs_routeRetries s < rtp_MaxRetriesPerRoute (en_retry env) \<and> xs_retrySame s' \<and>
    xs_routeRetries s' = xs_routeRetries s + 1 \<and> \<not> em_started (xs_emit s') \<and> xs_abandoned s' = Some a"
  using assms by (auto simp: after_attempt_def Let_def split: option.splits if_splits dest: retry_next_below)

lemma preflight_never_repeats: "preflight_failure env request g t failure s \<noteq> Same_route s'"
  by (auto simp: preflight_failure_def split: option.splits prod.splits)

lemma run_attempt_same:
  assumes "run_attempt env request r a call platform creds p cp s = Same_route s'"
  shows "xs_routeRetries s < rtp_MaxRetriesPerRoute (en_retry env) \<and> xs_retrySame s' \<and>
    xs_routeRetries s' = xs_routeRetries s + 1"
  using assms by (auto simp: run_attempt_def Let_def split: prod.splits dest!: after_attempt_same)

lemma attempt_call_same:
  assumes "attempt_call env request g t r a call platform p cp s = Same_route s'"
  shows "xs_routeRetries s < rtp_MaxRetriesPerRoute (en_retry env) \<and> xs_retrySame s' \<and>
    xs_routeRetries s' = xs_routeRetries s + 1"
  using assms by (auto simp: attempt_call_def preflight_never_repeats split: sum.splits dest!: run_attempt_same)

lemma switch_and_attempt_same:
  assumes "switch_and_attempt env request g t primary retrying r a call platform p cp s = Same_route s'"
  shows "xs_routeRetries s < rtp_MaxRetriesPerRoute (en_retry env) \<and> xs_retrySame s' \<and>
    xs_routeRetries s' = xs_routeRetries s + 1"
  using assms by (auto simp: switch_and_attempt_def Let_def split: option.splits prod.splits if_splits dest!: attempt_call_same)

lemma after_admission_same:
  assumes "after_admission env request g t primary retrying c p cp s = Same_route s'"
  shows "xs_routeRetries s < rtp_MaxRetriesPerRoute (en_retry env) \<and> xs_retrySame s' \<and>
    xs_routeRetries s' = xs_routeRetries s + 1"
  using assms by (auto simp: after_admission_def Let_def preflight_never_repeats
      split: option.splits prod.splits if_splits sum.splits dest!: switch_and_attempt_same)

lemma admit_customer_state:
  assumes "admit_customer env r s = (res, s')"
  shows "\<exists>l. s' = s\<lparr>xs_limits := l\<rparr>"
  using assms
proof (cases "ro_CustomerProviderCredential r")
  case None
  then have "s' = s\<lparr>xs_limits := xs_limits s\<rparr>" using assms by (simp add: admit_customer_def)
  then show ?thesis by blast
qed (auto simp: admit_customer_def Let_def split: option.splits prod.splits)

lemma admit_platform_state:
  assumes "admit_platform env r s = (res, s')"
  shows "\<exists>g. s' = s\<lparr>xs_rotation := g\<rparr>"
  using assms
proof (cases "ro_CustomerProviderCredential r")
  case (Some b)
  then have "s' = s\<lparr>xs_rotation := xs_rotation s\<rparr>" using assms by (simp add: admit_platform_def)
  then show ?thesis by blast
qed (auto simp: admit_platform_def Let_def split: option.splits prod.splits)

lemma exec_turn_same:
  assumes "exec_turn env request g t primary c s = Same_route s'"
  shows "retries_used s < rtp_MaxRetriesPerRoute (en_retry env) \<and> xs_retrySame s' \<and> retries_used s' = retries_used s + 1"
  using assms by (auto simp: exec_turn_def Let_def retries_used_def preflight_never_repeats
      split: prod.splits sum.splits option.splits dest!: after_admission_same admit_customer_state admit_platform_state)

function exec_loop ::
  "('c, 'd) exec_env \<Rightarrow> request \<Rightarrow> string option \<Rightarrow> instant \<Rightarrow> model_id \<Rightarrow> candidate list \<Rightarrow> 'd exec_state \<Rightarrow> 'd loop_end" where
  "exec_loop env request generationID startedAt primary [] s = Exhausted s"
| "exec_loop env request generationID startedAt primary (c # cs) s =
     (case exec_turn env request generationID startedAt primary c s of
        Next_route s \<Rightarrow> exec_loop env request generationID startedAt primary cs s
      | Same_route s \<Rightarrow> exec_loop env request generationID startedAt primary (c # cs) s
      | Leave_loop a s \<Rightarrow> Broken a s
      | Return_result r s \<Rightarrow> Returned r s)"
  by pat_completeness auto
termination
  by (relation "measures [\<lambda>(env, request, g, t, primary, cs, s). length cs,
       \<lambda>(env, request, g, t, primary, cs, s). nat (rtp_MaxRetriesPerRoute (en_retry env) - retries_used s)]")
     (auto dest!: exec_turn_same)

section \<open>The executor\<close>

definition generationFor :: "string option \<Rightarrow> attribution \<Rightarrow> string option" where
  "generationFor allocated attribution =
     (case at_GenerationID attribution of
        Some existing \<Rightarrow> if existing \<noteq> '''' then Some existing else allocated
      | None \<Rightarrow> allocated)"

definition start_state :: "registry \<Rightarrow> limit_registry \<Rightarrow> emitter \<Rightarrow> 'd exec_state" where
  "start_state reg limits e =
     \<lparr>xs_emit = e, xs_rotation = reg, xs_limits = limits, xs_verdicts = [], xs_usage = [], xs_switches = 0,
      xs_abandoned = None, xs_skipped = [], xs_retrySame = False, xs_routeRetries = 0, xs_waited = 0, xs_turn = 1,
      xs_calls = []\<rparr>"

text \<open>What follows the loop: the attempt that ended it, or the last one that failed, or nothing ran.\<close>

definition after_loop ::
  "('c, 'd) exec_env \<Rightarrow> request \<Rightarrow> string option \<Rightarrow> instant \<Rightarrow> nat \<Rightarrow> 'd loop_end \<Rightarrow> 'd result \<times> 'd exec_state" where
  "after_loop env request generationID startedAt candidateCount k =
     (case k of
        Returned r s \<Rightarrow> (r, s)
      | Broken a s \<Rightarrow> settle env request generationID startedAt a None None s
      | Exhausted s \<Rightarrow>
          (case xs_abandoned s of
             Some a \<Rightarrow> settle env request generationID startedAt a None None s
           | None \<Rightarrow>
               let failure = everyRouteOutOfRotation (at_RequestID (rq_Attribution request)) candidateCount (xs_skipped s)
                     startedAt (en_rotation env (xs_turn s) 2 (xs_rotation s))
               in (failed_result failure no_cost,
                   s\<lparr>xs_emit := snd (finishWithError (en_sink env) failure (xs_emit s))\<rparr>)))"

definition execute ::
  "('c, 'd) exec_env \<Rightarrow> registry \<Rightarrow> limit_registry \<Rightarrow> request \<Rightarrow> 'd result \<times> 'd exec_state" where
  "execute env reg limits request =
     (let generationID = generationFor (en_generation env) (rq_Attribution request);
          startedAt = en_now env 0 0;
          s = start_state reg limits (newEmitter request generationID startedAt)
      in case resolve (en_quoted env) (en_describeRequest env) (en_inventory env) (en_costs env) request startedAt of
           Inl failure \<Rightarrow>
             (failed_result failure no_cost, s\<lparr>xs_emit := snd (finishWithError (en_sink env) failure (xs_emit s))\<rparr>)
         | Inr cs \<Rightarrow>
             after_loop env request generationID startedAt (length cs)
               (exec_loop env request generationID startedAt (ModelID (ro_ModelReference (cn_route (hd cs)))) cs s))"

text \<open>
  \<open>Execute\<close> records the cost unless nothing was attempted, nobody records it, or the caller does so
  itself. The error of the record is the operator's and changes nothing of the result.
\<close>

definition Execute ::
  "('c, 'd) exec_env \<Rightarrow> (cost_record \<Rightarrow> go_error option) option \<Rightarrow> bool \<Rightarrow> registry \<Rightarrow> limit_registry \<Rightarrow> request \<Rightarrow>
   'd result \<times> go_error option \<times> 'd exec_state" where
  "Execute env recorder deferred reg limits request =
     (case execute env reg limits request of
        (r, s) \<Rightarrow>
          (case recorder of
             None \<Rightarrow> (r, None, s)
           | Some rec \<Rightarrow>
               if cr_Attempts (re_UpstreamCost r) = [] \<or> deferred then (r, None, s)
               else (r, rec (re_UpstreamCost r), s)))"

datatype executor_error = NoInventoryStore | NoAdapterRegistry | NoRotationRegistry | NegativeRetryPolicy retry_policy

record ('c, 'd, 'e) executor_config =
  cf_Inventory :: "'e inventory_store option"
  cf_Providers :: "('c, 'd) adapter_registry option"
  cf_Rotation :: "registry option"
  cf_Retry :: "retry_policy option"

definition policy_nonnegative :: "retry_policy \<Rightarrow> bool" where
  "policy_nonnegative p \<longleftrightarrow> rtp_MaxRetriesPerRoute p \<ge> 0 \<and> rtp_Backoff p \<ge> 0 \<and> rtp_Budget p \<ge> 0"

text \<open>The parts the executor is built from, with the policy it retries under.\<close>

definition NewExecutor ::
  "('c, 'd, 'e) executor_config \<Rightarrow>
   executor_error + 'e inventory_store \<times> ('c, 'd) adapter_registry \<times> registry \<times> retry_policy" where
  "NewExecutor config =
     (case cf_Inventory config of
        None \<Rightarrow> Inl NoInventoryStore
      | Some invStore \<Rightarrow>
          (case cf_Providers config of
             None \<Rightarrow> Inl NoAdapterRegistry
           | Some providers \<Rightarrow>
               (case cf_Rotation config of
                  None \<Rightarrow> Inl NoRotationRegistry
                | Some rotation \<Rightarrow>
                    let retry = (case cf_Retry config of None \<Rightarrow> DefaultRetryPolicy | Some p \<Rightarrow> p)
                    in if \<not> policy_nonnegative retry then Inl (NegativeRetryPolicy retry)
                       else Inr (invStore, providers, rotation, retry))))"

end
