(* ===== verification/Execution.thy ===== *)
theory Execution
  imports Executor
begin

text \<open>
  What the executor's loop guarantees, for every sink, every adapter, every clock and every
  interleaving with other requests. One turn of the loop is first shown to have one of five shapes
  (\<open>turn_shape\<close>); each guarantee is then an invariant of the loop proved by cases on the shape.
\<close>

section \<open>The shape of a turn\<close>

definition byok :: "route \<Rightarrow> bool" where
  "byok r \<longleftrightarrow> ro_CustomerProviderCredential r \<noteq> None"

text \<open>A customer route leaves the breakers alone, a platform route the customers' limits.\<close>

definition lanes_kept :: "route \<Rightarrow> 'd exec_state \<Rightarrow> 'd exec_state \<Rightarrow> bool" where
  "lanes_kept r s s' \<longleftrightarrow> (if byok r then xs_rotation s' = xs_rotation s else xs_limits s' = xs_limits s)"

definition permits_fit :: "route \<Rightarrow> permit option \<Rightarrow> limit_permit option \<Rightarrow> bool" where
  "permits_fit r p cp \<longleftrightarrow> (if byok r then p = None else cp = None)"

definition announced :: "('c, 'd) exec_env \<Rightarrow> model_id \<Rightarrow> route \<Rightarrow> 'd exec_state \<Rightarrow> go_error option \<Rightarrow> emitter \<Rightarrow> bool" where
  "announced env primary r s res e \<longleftrightarrow>
     (\<exists>left err. xs_abandoned s = Some left \<and> att_err left = Some err \<and>
        routeSwitch (en_sink env) (switchReason err) primary (att_route left) r (en_now env (xs_turn s) 2) (xs_emit s) = (res, e))"

text \<open>
  What has happened before an upstream call is made or refused: the turn's own flags are set, a
  permit may have been taken, and a switch may have been announced and counted.
\<close>

definition undisturbed :: "'d exec_state \<Rightarrow> 'd exec_state \<Rightarrow> bool" where
  "undisturbed s0 s \<longleftrightarrow>
     xs_verdicts s = xs_verdicts s0 \<and> xs_usage s = xs_usage s0 \<and> xs_abandoned s = xs_abandoned s0 \<and>
     xs_skipped s = xs_skipped s0 \<and> xs_waited s = xs_waited s0 \<and> xs_turn s = xs_turn s0 \<and> xs_calls s = xs_calls s0 \<and>
     \<not> xs_retrySame s \<and> xs_routeRetries s = retries_used s0"

definition admitted :: "route \<Rightarrow> 'd exec_state \<Rightarrow> 'd exec_state \<Rightarrow> bool" where
  "admitted r s0 s \<longleftrightarrow> undisturbed s0 s \<and> lanes_kept r s0 s \<and> xs_emit s = xs_emit s0 \<and> xs_switches s = xs_switches s0"

definition prepared :: "('c, 'd) exec_env \<Rightarrow> model_id \<Rightarrow> route \<Rightarrow> 'd exec_state \<Rightarrow> 'd exec_state \<Rightarrow> bool" where
  "prepared env primary r s0 s \<longleftrightarrow> undisturbed s0 s \<and> lanes_kept r s0 s \<and>
     (xs_emit s = xs_emit s0 \<and> xs_switches s = xs_switches s0 \<or>
      announced env primary r s0 None (xs_emit s) \<and> xs_switches s = xs_switches s0 + 1)"

text \<open>The credentials a candidate may be attempted with.\<close>

definition granted :: "('c, 'd) exec_env \<Rightarrow> candidate \<Rightarrow> credentials \<Rightarrow> bool" where
  "granted env c creds \<longleftrightarrow>
     (let r = cn_route c
      in case ro_CustomerProviderCredential r of
           Some binding \<Rightarrow>
             (\<exists>resolver n plaintext pool. en_resolver env = Some resolver \<and>
                resolver n (customerCredentialScope r binding) = Inr plaintext \<and>
                NewCustomerKeyPool (ro_Provider r) plaintext = Inr pool \<and> creds = Some (pool, root_view))
         | None \<Rightarrow>
             (\<exists>n a creds0. ResolveExecution (en_registry env n) (ro_DeploymentID r) (ro_Provider r) True = Inr (a, creds0) \<and>
                (if cn_fundingCeiling c = FundingTierNone then creds = creds0
                 else boundedPool creds0 (cn_fundingCeiling c) = Some creds)))"

inductive turn_shape ::
  "('c, 'd) exec_env \<Rightarrow> request \<Rightarrow> string option \<Rightarrow> instant \<Rightarrow> model_id \<Rightarrow> candidate \<Rightarrow> 'd exec_state \<Rightarrow> 'd control \<Rightarrow> bool"
  for env request g t primary c s0 where
  Skipped: "admitted (cn_route c) s0 s \<Longrightarrow>
     turn_shape env request g t primary c s0 (Next_route (skip_route (cn_route c) s))"
| Refused: "prepared env primary (cn_route c) s0 s \<Longrightarrow>
     turn_shape env request g t primary c s0 (preflight_failure env request g t failure s)"
| Stays: "admitted (cn_route c) s0 s \<Longrightarrow>
     xs_abandoned s0 = Some left \<Longrightarrow> e = xs_emit s0 \<or> announced env primary (cn_route c) s0 (Some err) e \<Longrightarrow>
     turn_shape env request g t primary c s0 (Leave_loop left (s\<lparr>xs_emit := e, xs_abandoned := None\<rparr>))"
| Undeliverable: "admitted (cn_route c) s0 s \<Longrightarrow>
     xs_abandoned s0 = Some left \<Longrightarrow> announced env primary (cn_route c) s0 (Some err) e \<Longrightarrow>
     settle env request g t left (Some err) None (s\<lparr>xs_emit := e\<rparr>) = (res, s') \<Longrightarrow>
     turn_shape env request g t primary c s0 (Return_result res s')"
| Attempted: "prepared env primary (cn_route c) s0 s \<Longrightarrow> permits_fit (cn_route c) p cp \<Longrightarrow>
     (em_started (xs_emit s0) \<Longrightarrow> xs_abandoned s0 = None) \<Longrightarrow> granted env c creds \<Longrightarrow>
     turn_shape env request g t primary c s0 (run_attempt env request (cn_route c) a call platform creds p cp s)"

section \<open>Every turn has a shape\<close>

lemma admitted_prepared: "admitted r s0 s \<Longrightarrow> prepared env primary r s0 s"
  by (simp add: admitted_def prepared_def)

lemma release_lanes: "permits_fit r p cp \<Longrightarrow> lanes_kept r s0 s \<Longrightarrow> lanes_kept r s0 (release env p cp s)"
  by (auto simp: lanes_kept_def permits_fit_def release_def report_platform_def report_customer_def Let_def)

lemma undisturbed_release: "undisturbed s0 (release env p cp s) = undisturbed s0 s"
  by (simp add: undisturbed_def)

lemma admitted_release: "permits_fit r p cp \<Longrightarrow> admitted r s0 s \<Longrightarrow> admitted r s0 (release env p cp s)"
  by (simp add: admitted_def undisturbed_release release_lanes)

lemma prepared_release: "permits_fit r p cp \<Longrightarrow> prepared env primary r s0 s \<Longrightarrow> prepared env primary r s0 (release env p cp s)"
  by (simp add: prepared_def undisturbed_release release_lanes)

lemma attempt_call_shape:
  assumes prep: "prepared env primary (cn_route c) s0 s" and fit: "permits_fit (cn_route c) p cp"
    and open_stream: "em_started (xs_emit s0) \<Longrightarrow> xs_abandoned s0 = None"
    and platform: "\<not> byok (cn_route c) \<Longrightarrow> granted env c creds"
  shows "turn_shape env request g t primary c s0 (attempt_call env request g t (cn_route c) a call creds p cp s)"
proof (cases "credentialsForRoute env (xs_turn s) (at_RequestID (rq_Attribution request)) (cn_route c) creds")
  case (Inl failure)
  then show ?thesis using Refused [OF prepared_release [OF fit prep]] by (simp add: attempt_call_def)
next
  case (Inr creds')
  have "granted env c creds'"
  proof (cases "byok (cn_route c)")
    case True
    with Inr show ?thesis
      by (auto simp: credentialsForRoute_def granted_def byok_def Let_def split: option.splits sum.splits)
  next
    case False
    with Inr platform show ?thesis by (simp add: credentialsForRoute_def byok_def)
  qed
  from Attempted [OF prep fit open_stream this] Inr show ?thesis by (simp add: attempt_call_def)
qed

lemma switch_and_attempt_shape:
  assumes adm: "admitted (cn_route c) s0 s" and fit: "permits_fit (cn_route c) p cp"
    and open_stream: "em_started (xs_emit s0) \<Longrightarrow> xs_abandoned s0 = None"
    and platform: "\<not> byok (cn_route c) \<Longrightarrow> granted env c creds"
  shows "turn_shape env request g t primary c s0
    (switch_and_attempt env request g t primary retrying (cn_route c) a call creds p cp s)"
proof -
  note direct = attempt_call_shape [OF admitted_prepared [OF adm] fit open_stream platform]
  have same: "xs_abandoned s = xs_abandoned s0" "xs_emit s = xs_emit s0" "xs_turn s = xs_turn s0"
    using adm by (simp_all add: admitted_def undisturbed_def)
  show ?thesis
  proof (cases "if retrying then None else xs_abandoned s")
    case None
    with direct show ?thesis by (simp add: switch_and_attempt_def)
  next
    case left: (Some left)
    then have aband: "xs_abandoned s0 = Some left" using same by (simp split: if_splits)
    show ?thesis
    proof (cases "att_err left")
      case None
      with left direct show ?thesis by (simp add: switch_and_attempt_def)
    next
      case (Some err)
      obtain res e where rs: "routeSwitch (en_sink env) (switchReason err) primary (att_route left) (cn_route c)
          (en_now env (xs_turn s) 2) (xs_emit s) = (res, e)" by fastforce
      then have ann: "announced env primary (cn_route c) s0 res e"
        using aband Some same by (simp add: announced_def)
      show ?thesis
      proof (cases res)
        case None
        let ?s = "s\<lparr>xs_emit := e, xs_switches := xs_switches s + 1\<rparr>"
        have "prepared env primary (cn_route c) s0 ?s"
          using adm ann None by (simp add: admitted_def prepared_def undisturbed_def lanes_kept_def)
        from attempt_call_shape [OF this fit open_stream platform] show ?thesis
          using left Some rs None by (simp add: switch_and_attempt_def)
      next
        case (Some err')
        let ?s = "release env p cp (s\<lparr>xs_emit := e\<rparr>)"
        have eq: "?s = (release env p cp s)\<lparr>xs_emit := e\<rparr>"
          by (simp add: release_def report_platform_def report_customer_def Let_def)
        note adm' = admitted_release [OF fit adm, of env]
        obtain r s' where st: "settle env request g t left (Some err') None ?s = (r, s')" by fastforce
        show ?thesis
        proof (cases "errors_is err' ErrSwitchTooLate")
          case True
          with left \<open>att_err left = Some err\<close> rs Some show ?thesis
            using Stays [OF adm' aband disjI2, OF ann [unfolded Some]] by (simp add: switch_and_attempt_def Let_def eq)
        next
          case False
          with left \<open>att_err left = Some err\<close> rs Some st show ?thesis
            using Undeliverable [OF adm' aband ann [unfolded Some] st [unfolded eq]]
            by (simp add: switch_and_attempt_def Let_def)
        qed
      qed
    qed
  qed
qed

lemma after_admission_shape:
  assumes adm: "admitted (cn_route c) s0 s" and fit: "permits_fit (cn_route c) p cp"
  shows "turn_shape env request g t primary c s0 (after_admission env request g t primary retrying c p cp s)"
proof -
  let ?r = "cn_route c"
  have same: "xs_abandoned s = xs_abandoned s0" "xs_emit s = xs_emit s0"
    using adm by (simp_all add: admitted_def undisturbed_def)
  note rel = admitted_release [OF fit adm, of env]
  show ?thesis
  proof (cases "ResolveExecution (en_registry env (xs_turn s)) (ro_DeploymentID ?r) (ro_Provider ?r)
      (ro_CustomerProviderCredential ?r = None)")
    case (Inl err)
    with Skipped [OF rel] show ?thesis by (simp add: after_admission_def Let_def)
  next
    case (Inr x)
    obtain a creds0 where x: "x = (a, creds0)" by fastforce
    let ?creds = "if cn_fundingCeiling c \<noteq> FundingTierNone \<and> ro_CustomerProviderCredential ?r = None
      then boundedPool creds0 (cn_fundingCeiling c) else Some creds0"
    show ?thesis
    proof (cases ?creds)
      case None
      with Inr x Skipped [OF rel] show ?thesis by (simp add: after_admission_def Let_def)
    next
      case (Some creds)
      have platform: "granted env c creds" if "\<not> byok ?r"
        using that Inr x Some by (auto simp: granted_def byok_def Let_def split: if_splits)
      show ?thesis
      proof (cases "if em_started (xs_emit s) then xs_abandoned s else None")
        case (Some left)
        then have l: "xs_abandoned s0 = Some left" using same by (simp split: if_splits)
        have eq: "(release env p cp s)\<lparr>xs_emit := xs_emit s0, xs_abandoned := None\<rparr> = (release env p cp s)\<lparr>xs_abandoned := None\<rparr>"
          using rel by (simp add: admitted_def)
        show ?thesis
          using Stays [OF rel l disjI1 [OF refl], of env request g t primary]
            Inr x \<open>?creds = Some creds\<close> Some by (simp add: after_admission_def Let_def eq)
      next
        case None
        then have open_stream: "em_started (xs_emit s0) \<Longrightarrow> xs_abandoned s0 = None"
          using same by (simp split: if_splits)
        show ?thesis
        proof (cases "translate a request ?r")
          case (Inl err)
          with Inr x \<open>?creds = Some creds\<close> None Refused [OF admitted_prepared [OF rel]] show ?thesis
            by (simp add: after_admission_def Let_def)
        next
          case (Inr call)
          with \<open>ResolveExecution _ _ _ _ = Inr x\<close> x \<open>?creds = Some creds\<close> None
            switch_and_attempt_shape [OF adm fit open_stream platform]
          show ?thesis by (simp add: after_admission_def Let_def)
        qed
      qed
    qed
  qed
qed

lemma exec_turn_shape: "turn_shape env request g t primary c s0 (exec_turn env request g t primary c s0)"
proof -
  let ?r = "cn_route c"
  let ?s = "s0\<lparr>xs_retrySame := False, xs_routeRetries := retries_used s0\<rparr>"
  have start: "admitted ?r s0 ?s" by (simp add: admitted_def undisturbed_def lanes_kept_def)
  obtain res s1 where ac: "admit_customer env ?r ?s = (res, s1)" by fastforce
  have adm1: "admitted ?r s0 s1" and cp: "byok ?r \<or> res = Inr None"
    using ac start by (auto simp: admit_customer_def admitted_def undisturbed_def lanes_kept_def byok_def Let_def
        split: option.splits prod.splits)
  show ?thesis
  proof (cases res)
    case (Inl refused)
    with ac Refused [OF admitted_prepared [OF adm1]] show ?thesis by (simp add: exec_turn_def Let_def retries_used_def)
  next
    case (Inr cp)
    obtain pm s2 where ap: "admit_platform env ?r s1 = (pm, s2)" by fastforce
    have adm2: "admitted ?r s0 s2" and pm: "byok ?r \<Longrightarrow> pm = Some None"
      using ap adm1 by (auto simp: admit_platform_def admitted_def undisturbed_def lanes_kept_def byok_def Let_def
          split: option.splits prod.splits if_splits)
    show ?thesis
    proof (cases pm)
      case None
      with ac Inr ap Skipped [OF adm2] show ?thesis by (simp add: exec_turn_def Let_def retries_used_def)
    next
      case (Some p)
      have "permits_fit ?r p cp" using \<open>byok ?r \<or> res = Inr None\<close> Inr pm Some by (auto simp: permits_fit_def)
      from after_admission_shape [OF adm2 this] ac Inr ap Some show ?thesis
        by (simp add: exec_turn_def Let_def retries_used_def)
    qed
  qed
qed

section \<open>What the steps of a turn change\<close>

text \<open>Emitter calls other than a switch announcement.\<close>

fun is_switch :: "emitter_op \<Rightarrow> bool" where
  "is_switch (OpRouteSwitch _ _ _ _ _) \<longleftrightarrow> True"
| "is_switch _ \<longleftrightarrow> False"

definition continues :: "sink \<Rightarrow> emitter \<Rightarrow> emitter \<Rightarrow> bool" where
  "continues sink e e' \<longleftrightarrow> (\<exists>ops. list_all (\<lambda>op. \<not> is_switch op) ops \<and> e' = emitter_run sink ops e)"

named_theorems continues_intros

lemma continues_refl [continues_intros, simp]: "continues sink e e"
  unfolding continues_def by (rule exI [of _ "[]"]) (simp add: emitter_run_def)

lemma emitter_run_append: "emitter_run sink (xs @ ys) e = emitter_run sink ys (emitter_run sink xs e)"
  by (simp add: emitter_run_def)

lemma continues_trans: "continues sink e e1 \<Longrightarrow> continues sink e1 e2 \<Longrightarrow> continues sink e e2"
  unfolding continues_def by (metis emitter_run_append list_all_append)

lemma continues_op:
  assumes "emitter_apply sink op e = (err, e')" and "\<not> is_switch op"
  shows "continues sink e e'"
  unfolding continues_def by (rule exI [of _ "[op]"]) (use assms in \<open>simp add: emitter_run_def\<close>)

lemma continues_steps [continues_intros]:
  "continues sink e (serving slug d e)"
  "continues sink e (snd (emitter_Usage sink units source e))"
  "continues sink e (snd (finishWithDone sink reason now e))"
  "continues sink e (snd (finishWithError sink failure e))"
  using continues_op [of sink "OpServing slug d" e None] continues_op [of sink "OpAdapter 0 (CallUsage units source)" e]
    continues_op [of sink "OpDone reason now" e] continues_op [of sink "OpError failure" e]
  by (simp_all, metis prod.collapse, metis prod.collapse, metis prod.collapse)

lemma continues_results:
  "emitter_Usage sink units source e = (err, e') \<Longrightarrow> continues sink e e'"
  "finishWithDone sink reason now e = (err, e') \<Longrightarrow> continues sink e e'"
  "finishWithError sink failure e = (err, e') \<Longrightarrow> continues sink e e'"
  using continues_steps [of sink e] by (metis snd_conv)+

lemma run_adapter_continues: "continues sink e (snd (run_adapter a sink e))"
proof (induction a arbitrary: e)
  case (Emits now call k)
  obtain err e1 where call: "adapter_apply sink now call e = (err, e1)" by fastforce
  then have "continues sink e e1" using continues_op [of sink "OpAdapter now call" e] by simp
  from continues_trans [OF this Emits.IH [OF rangeI]] call show ?case by simp
qed simp

lemma estimate_usage_continues:
  "estimate_usage sink completed a usage sinkErr e = (a', usage', sinkErr', e') \<Longrightarrow> continues sink e e'"
  by (auto simp: estimate_usage_def Let_def dest: continues_results split: if_splits prod.splits)

lemma conclude_continues:
  assumes "conclude env requestID a report cost completedAt sinkErr failure e = (r, e')"
  shows "continues (en_sink env) e e'"
  using assms by (auto simp: conclude_def Let_def dest: continues_results split: option.splits if_splits prod.splits)

text \<open>Settlement marks the rows and continues the stream, and nothing else.\<close>

definition row_of :: "attempt_usage \<Rightarrow> attempt_usage" where
  "row_of u = u\<lparr>au_Served := False, au_Units := []\<rparr>"

lemma rows_kept [simp]:
  "map row_of (mark_served b usage) = map row_of usage" "map row_of (set_last_units units usage) = map row_of usage"
  by (cases usage rule: rev_cases; simp add: mark_served_def set_last_units_def row_of_def)+

lemma estimate_usage_rows:
  "estimate_usage sink completed a usage sinkErr e = (a', usage', sinkErr', e') \<Longrightarrow> map row_of usage' = map row_of usage"
  by (auto simp: estimate_usage_def Let_def split: if_splits prod.splits)

definition settled_from :: "sink \<Rightarrow> 'd exec_state \<Rightarrow> 'd exec_state \<Rightarrow> bool" where
  "settled_from sink s s' \<longleftrightarrow>
     continues sink (xs_emit s) (xs_emit s') \<and> xs_rotation s' = xs_rotation s \<and> xs_limits s' = xs_limits s \<and>
     xs_calls s' = xs_calls s \<and> xs_switches s' = xs_switches s \<and> xs_waited s' = xs_waited s \<and>
     map row_of (xs_usage s') = map row_of (xs_usage s)"

lemma settle_report_continues:
  assumes "settle_report env request completed completedAt a sinkErr failure report cost e = (r, e')"
  shows "continues (en_sink env) e e'"
  using assms continues_steps(4) [of "en_sink env" e] unfolding settle_report_def Let_def
  by (auto dest: conclude_continues split: if_splits option.splits)

text \<open>Settlement step by step.\<close>

lemma settle_steps:
  assumes "settle env request g t a sinkErr failure s = (r, s')"
  obtains a1 usage1 sinkErr1 e1 served e2 clock where
    "estimate_usage (en_sink env) (att_err a = None \<and> sinkErr = None \<and> failure = None) a (xs_usage s) sinkErr (xs_emit s) =
       (a1, usage1, sinkErr1, e1)"
    "s' = s\<lparr>xs_emit := e2, xs_usage := mark_served served usage1\<rparr>"
    "settle_report env request (att_err a = None \<and> sinkErr = None \<and> failure = None) (en_now env (xs_turn s) 6) a1 sinkErr1 failure
       (report_of request g a1 (mark_served served usage1) (xs_switches s) t (en_now env (xs_turn s) 6))
       (MeasureRequest (en_costs env) clock (at_RequestID (rq_Attribution request)) (mark_served served usage1)) e1 = (r, e2)"
  using assms unfolding settle_def Let_def by (auto split: prod.splits)

lemma settle_settled:
  assumes "settle env request g t a sinkErr failure s = (r, s')"
  shows "settled_from (en_sink env) s s'"
  using assms
proof (rule settle_steps)
  fix a1 usage1 sinkErr1 e1 served e2 clock
  assume est: "estimate_usage (en_sink env) (att_err a = None \<and> sinkErr = None \<and> failure = None) a (xs_usage s) sinkErr (xs_emit s) =
       (a1, usage1, sinkErr1, e1)"
    and s': "s' = s\<lparr>xs_emit := e2, xs_usage := mark_served served usage1\<rparr>"
    and rep: "settle_report env request (att_err a = None \<and> sinkErr = None \<and> failure = None) (en_now env (xs_turn s) 6) a1 sinkErr1 failure
       (report_of request g a1 (mark_served served usage1) (xs_switches s) t (en_now env (xs_turn s) 6))
       (MeasureRequest (en_costs env) clock (at_RequestID (rq_Attribution request)) (mark_served served usage1)) e1 = (r, e2)"
  show ?thesis
    using continues_trans [OF estimate_usage_continues [OF est] settle_report_continues [OF rep]] estimate_usage_rows [OF est]
    by (simp add: settled_from_def s')
qed

lemma preflight_settled:
  obtains r s' where "preflight_failure env request g t failure s = Return_result r s'" "settled_from (en_sink env) s s'"
proof (cases "xs_abandoned s")
  case None
  then show ?thesis
    using that continues_steps(4) [of "en_sink env" "xs_emit s" failure] by (auto simp: preflight_failure_def settled_from_def)
next
  case (Some a)
  obtain r s' where "settle env request g t a None (Some failure) s = (r, s')" by fastforce
  with Some settle_settled [OF this] that show ?thesis by (simp add: preflight_failure_def)
qed

text \<open>What an attempt leaves behind, and how the loop goes on from it.\<close>

definition attempt_kept :: "permit option \<Rightarrow> 'd exec_state \<Rightarrow> 'd exec_state \<Rightarrow> bool" where
  "attempt_kept p s s' \<longleftrightarrow>
     xs_emit s' = xs_emit s \<and> xs_limits s' = xs_limits s \<and> xs_usage s' = xs_usage s \<and> xs_calls s' = xs_calls s \<and>
     xs_switches s' = xs_switches s \<and> xs_verdicts s' = xs_verdicts s \<and> (p = None \<longrightarrow> xs_rotation s' = xs_rotation s)"

lemma after_attempt_cases:
  obtains
    (ends) a' s' where "after_attempt env request p a s = Leave_loop a' s'" "attempt_kept p s s'"
      "a' = a \<or> a' = a\<lparr>att_cancelled := True\<rparr>" "xs_abandoned s' = xs_abandoned s \<or> xs_abandoned s' = None"
      "xs_waited s' = xs_waited s"
  | (moves) err s' where "after_attempt env request p a s = Next_route s'" "attempt_kept p s s'"
      "att_err a = Some err" "\<not> att_cancelled a" "DeploymentAttributable err"
      "cm_APIFormat (rq_Client request) \<noteq> APIFormatDecisions" "xs_abandoned s' = Some a" "xs_waited s' = xs_waited s"
      "xs_retrySame s' = xs_retrySame s"
  | (repeats) err wait s' where "after_attempt env request p a s = Same_route s'" "attempt_kept p s s'"
      "att_err a = Some err" "\<not> att_cancelled a" "DeploymentAttributable err"
      "cm_APIFormat (rq_Client request) \<noteq> APIFormatDecisions" "xs_abandoned s' = Some a" "\<not> em_started (xs_emit s')"
      "retry_next (en_retry env) (en_random env (xs_turn s)) err (xs_routeRetries s) (xs_waited s) = Some wait"
      "xs_waited s' = int64 (xs_waited s + wait)" "xs_retrySame s'" "xs_routeRetries s' = xs_routeRetries s + 1"
proof -
  have kept: "attempt_kept p s ((report_platform env p v s)\<lparr>xs_turn := n\<rparr>)" for v n
    by (simp add: attempt_kept_def) (simp add: report_platform_def)
  show ?thesis
  proof (cases "att_err a")
    case None
    then show ?thesis using ends [OF _ kept] by (simp add: after_attempt_def Let_def)
  next
    case (Some err)
    let ?s = "\<lambda>v. (report_platform env p v s)\<lparr>xs_turn := Suc (xs_turn s)\<rparr>"
    show ?thesis
    proof (cases "att_cancelled a \<or> \<not> DeploymentAttributable err \<or> cm_APIFormat (rq_Client request) = APIFormatDecisions")
      case True
      then have "after_attempt env request p a s = Leave_loop a (?s (if att_cancelled a \<or> \<not> DeploymentAttributable err
          then outcomeIrrelevant else outcomeFailed))"
        using Some by (auto simp: after_attempt_def Let_def)
      from ends [OF this kept] show ?thesis by simp
    next
      case False
      show ?thesis
      proof (cases "if em_started (xs_emit s) then None
          else retry_next (en_retry env) (en_random env (xs_turn s)) err (xs_routeRetries s) (xs_waited s)")
        case None
        then show ?thesis
          using Some False kept [where v = outcomeFailed]
          by (intro moves [of "?s outcomeFailed\<lparr>xs_abandoned := Some a\<rparr>" err])
             (auto simp: after_attempt_def Let_def attempt_kept_def split: if_splits)
      next
        case (Some wait)
        then have st: "\<not> em_started (xs_emit s)"
          and n: "retry_next (en_retry env) (en_random env (xs_turn s)) err (xs_routeRetries s) (xs_waited s) = Some wait"
          by (simp_all split: if_splits)
        show ?thesis
        proof (cases "en_waits env (xs_turn s) wait")
          case True
          then show ?thesis
            using \<open>att_err a = Some err\<close> False st n kept [where v = outcomeFailed]
            by (intro repeats [of "?s outcomeFailed\<lparr>xs_abandoned := Some a, xs_routeRetries := xs_routeRetries s + 1,
                  xs_waited := int64 (xs_waited s + wait), xs_retrySame := True\<rparr>" err wait])
               (auto simp: after_attempt_def Let_def attempt_kept_def)
        next
          case False
          then show ?thesis
            using \<open>att_err a = Some err\<close> \<open>\<not> (att_cancelled a \<or> _ \<or> _)\<close> st n kept [where v = outcomeFailed]
            by (intro ends [of "a\<lparr>att_cancelled := True\<rparr>" "?s outcomeFailed\<lparr>xs_abandoned := None\<rparr>"])
               (auto simp: after_attempt_def Let_def attempt_kept_def)
        qed
      qed
    qed
  qed
qed

text \<open>The state in which an attempt is judged.\<close>

definition attempt_done :: "('c, 'd) exec_env \<Rightarrow> route \<Rightarrow> credentials \<Rightarrow> limit_permit option \<Rightarrow> 'd attempt \<Rightarrow>
  'd exec_state \<Rightarrow> 'd exec_state \<Rightarrow> bool" where
  "attempt_done env r creds cp a s0 s \<longleftrightarrow>
     continues (en_sink env) (xs_emit s0) (xs_emit s) \<and> xs_abandoned s = None \<and> xs_rotation s = xs_rotation s0 \<and>
     (cp = None \<longrightarrow> xs_limits s = xs_limits s0) \<and> xs_switches s = xs_switches s0 \<and> xs_waited s = xs_waited s0 \<and>
     xs_retrySame s = xs_retrySame s0 \<and> xs_routeRetries s = xs_routeRetries s0 \<and>
     (\<exists>telemetry. xs_usage s = add_usage env (xs_turn s0) r (att_outcome a) telemetry (xs_usage s0)) \<and>
     xs_calls s = xs_calls s0 @ [\<lparr>use_route = r, use_committed = em_started (xs_emit s0), use_credentials = creds,
        use_err = att_err a, use_cancelled = att_cancelled a\<rparr>] \<and> att_route a = r"

lemma run_attempt_judged:
  obtains a' s where "run_attempt env request r ad call platform creds p cp s0 = after_attempt env request p a' s"
    "attempt_done env r creds cp a' s0 s"
proof -
  let ?e0 = "serving (ro_Provider r) (ro_DeploymentID r) (xs_emit s0)"
  obtain out err e where run: "run_adapter (ad_Stream ad (xs_turn s0) call creds) (en_sink env) ?e0 = ((out, err), e)"
    by (metis prod.exhaust)
  have e: "continues (en_sink env) (xs_emit s0) e"
    using continues_trans [OF continues_steps(1) run_adapter_continues] run by (metis snd_conv)
  let ?tel = "attemptTelemetry env (xs_turn s0) (at_RequestID (rq_Attribution request)) (ro_Provider r) err (em_attemptOutputAt e)"
  let ?c = "case err of None \<Rightarrow> False | Some err \<Rightarrow> isCancellation (en_withdrawn env (xs_turn s0) 1) err"
  let ?s1 = "report_customer env cp (customer_limit_outcome err) (s0\<lparr>xs_abandoned := None, xs_emit := e\<rparr>)"
  let ?s = "?s1\<lparr>xs_verdicts := xs_verdicts ?s1 @ credential_verdicts (en_reports env) r err,
      xs_usage := add_usage env (xs_turn s0) r out ?tel (xs_usage ?s1),
      xs_calls := xs_calls ?s1 @ [\<lparr>use_route = r, use_committed = em_started (xs_emit s0), use_credentials = creds,
        use_err = err, use_cancelled = ?c\<rparr>]\<rparr>"
  let ?a = "\<lparr>att_route = r, att_outcome = out, att_err = err, att_cancelled = ?c,
      att_funding = attemptFunding platform r (ou_KeyID out)\<rparr>"
  have "xs_limits ?s1 = xs_limits s0" if "cp = None" using that by (simp add: report_customer_def)
  then have "attempt_done env r creds cp ?a s0 ?s" using e by (auto simp: attempt_done_def)
  moreover have "run_attempt env request r ad call platform creds p cp s0 = after_attempt env request p ?a ?s"
    by (simp only: run_attempt_def Let_def run prod.case)
  ultimately show ?thesis by (rule that [rotated])
qed

section \<open>Announced switches\<close>

definition switches_accepted :: "event_log \<Rightarrow> nat" where
  "switches_accepted l = length (filter (\<lambda>x. snd x \<and> EventType (ev_Body (fst x)) = EventRouteSwitch) l)"

text \<open>The log grows by events that announce no switch.\<close>

definition no_switch :: "emitter \<Rightarrow> emitter \<Rightarrow> bool" where
  "no_switch e e' \<longleftrightarrow>
     (\<exists>xs. em_log e' = em_log e @ xs \<and> list_all (\<lambda>x. EventType (ev_Body (fst x)) \<noteq> EventRouteSwitch) xs)"

lemma no_switch_same: "em_log e' = em_log e \<Longrightarrow> no_switch e e'"
  by (simp add: no_switch_def)

lemma no_switch_trans: "no_switch e e1 \<Longrightarrow> no_switch e1 e2 \<Longrightarrow> no_switch e e2"
  by (auto simp: no_switch_def)

lemma no_switch_send:
  assumes "emitter_send sink event e = (err, e')" and "EventType (ev_Body event) \<noteq> EventRouteSwitch"
  shows "no_switch e e'"
  using assms(1) by (cases rule: emitter_send_cases) (use assms(2) in \<open>auto simp: no_switch_def\<close>)

lemma no_switch_cong: "em_log e2 = em_log e1 \<Longrightarrow> no_switch e1 e' = no_switch e2 e'"
  by (simp add: no_switch_def)

lemma no_switch_send_next:
  assumes "EventType body \<noteq> EventRouteSwitch"
  shows "no_switch e (snd (send_next sink body e))"
proof -
  obtain err e' where s: "emitter_send sink (frame e (em_sequence e) body) (e\<lparr>em_sequence := em_sequence e + 1\<rparr>) = (err, e')" by fastforce
  have "no_switch (e\<lparr>em_sequence := em_sequence e + 1\<rparr>) e'" using no_switch_send [OF s] assms by simp
  then have "no_switch e e'" by (simp add: no_switch_def)
  with s show ?thesis by (simp add: send_next_def emitter_next_def frame_def)
qed

lemma no_switch_send_stamped:
  assumes "EventType (ev_Body x) \<noteq> EventRouteSwitch"
  shows "no_switch e (snd (send_stamped sink x e))"
proof -
  obtain err e' where s: "emitter_send sink (stampSequence x (em_sequence e)) (e\<lparr>em_sequence := em_sequence e + 1\<rparr>) = (err, e')" by fastforce
  have "no_switch (e\<lparr>em_sequence := em_sequence e + 1\<rparr>) e'" using no_switch_send [OF s] assms by simp
  then have "no_switch e e'" by (simp add: no_switch_def)
  with s show ?thesis by (simp add: send_stamped_def emitter_next_def)
qed

lemma no_switch_send_held:
  "\<forall>x \<in> set held. EventType (ev_Body x) \<noteq> EventRouteSwitch \<Longrightarrow> no_switch e (snd (send_held sink held e))"
proof (induction held arbitrary: e)
  case (Cons x held)
  obtain err e1 where s: "send_stamped sink x e = (err, e1)" by fastforce
  then have "no_switch e e1" using no_switch_send_stamped [of x e sink] Cons.prems by simp
  with s Cons.IH [of e1] Cons.prems show ?case by (auto intro: no_switch_trans split: option.splits)
qed (simp add: no_switch_same)

lemma held_kinds:
  assumes "held_ok e"
  shows "\<forall>x \<in> set (em_pending e). EventType (ev_Body x) \<noteq> EventRouteSwitch"
    and "em_pendingStart e = Some s \<Longrightarrow> EventType (ev_Body s) \<noteq> EventRouteSwitch"
  using assms by (fastforce simp: held_ok_def)+

lemma no_switch_commit:
  assumes "held_ok e"
  shows "no_switch e (snd (emitter_commit sink e))"
proof (cases "em_started e \<or> em_pendingStart e = None")
  case False
  then obtain start where ns: "\<not> em_started e" and ps: "em_pendingStart e = Some start" by blast
  let ?e2 = "e\<lparr>em_started := True, em_pendingStart := None, em_pending := [], em_sequence := em_sequence e + 1\<rparr>"
  obtain err1 e3 where s: "emitter_send sink (start\<lparr>ev_Seq := em_sequence e\<rparr>) ?e2 = (err1, e3)" by fastforce
  have "no_switch e e3"
    using no_switch_send [OF s] held_kinds(2) [OF assms ps] no_switch_cong [of ?e2 e e3] by simp
  moreover have "no_switch e3 (snd (send_held sink (em_pending e) e3))"
    by (rule no_switch_send_held [OF held_kinds(1) [OF assms]])
  ultimately show ?thesis
    using ns ps s by (auto simp: emitter_commit_def emitter_next_def Let_def intro: no_switch_trans split: option.splits)
qed (auto simp: emitter_commit_def no_switch_same)

lemma no_switch_deliver:
  assumes "held_ok e" and "EventType body \<noteq> EventRouteSwitch"
  shows "no_switch e (snd (deliver sink body f e))"
proof -
  obtain err1 e1 where c: "emitter_commit sink e = (err1, e1)" by fastforce
  obtain err2 e2 where s: "send_next sink body e1 = (err2, e2)" by fastforce
  have 1: "no_switch e e1" using no_switch_commit [OF assms(1), of sink] c by simp
  have 2: "no_switch e1 e2" using no_switch_send_next [OF assms(2), of e1 sink] s by simp
  have "no_switch e (e2\<lparr>em_estimate := u\<rparr>)" for u
    by (rule no_switch_trans [OF no_switch_trans [OF 1 2] no_switch_same]) simp
  with c s 1 no_switch_trans [OF 1 2] show ?thesis by (cases err1; cases err2) (simp_all add: deliver_def)
qed

lemma held_ok_markOutput: "held_ok (markOutput now e) = held_ok e"
  by (simp add: held_ok_def markOutput_def)

lemma no_switch_adapter:
  assumes "held_ok e"
  shows "no_switch e (snd (adapter_apply sink now call e))"
proof -
  have marked: "no_switch (markOutput now e) x = no_switch e x" for x
    by (rule no_switch_cong) (simp add: markOutput_def)
  have held: "no_switch e (snd (sendOrHold sink x e))" if "EventType (ev_Body x) \<noteq> EventRouteSwitch" for x
    using no_switch_send_stamped [OF that, of e sink] by (simp add: sendOrHold_def no_switch_same)
  show ?thesis
    using assms no_switch_deliver [of e] no_switch_deliver [of "markOutput now e"]
    by (cases call)
      (simp_all add: emitter_Start_def emitter_Delta_def emitter_ToolCall_def emitter_Usage_def emitter_Audio_def
        requireStarted_def no_switch_same held marked held_ok_markOutput)
qed

lemma no_switch_apply:
  assumes "emitter_ok e" and "\<not> is_switch op"
  shows "no_switch e (snd (emitter_apply sink op e))"
proof -
  have h: "held_ok e" using assms(1) by (simp add: emitter_ok_def)
  have ends: "no_switch x (y\<lparr>em_terminated := b\<rparr>) = no_switch x y" for x y b by (simp add: no_switch_def)
  show ?thesis
  proof (cases op)
    case (OpDone reason now)
    obtain err1 e1 where c: "emitter_commit sink e = (err1, e1)" by fastforce
    have "no_switch e e1" using no_switch_commit [OF h, of sink] c by simp
    moreover have "no_switch e1 (snd (send_next sink (StreamDoneEvent (em_generationID e1) reason (NewTimestamp now)) e1))"
      by (rule no_switch_send_next) simp
    ultimately show ?thesis
      using OpDone c by (auto simp: finishWithDone_def requireStarted_def Let_def no_switch_same ends
          intro: no_switch_trans split: option.splits prod.splits)
  next
    case (OpError failure)
    with no_switch_send_next [of "StreamErrorEvent failure" e sink] show ?thesis
      by (auto simp: finishWithError_def Let_def no_switch_same ends split: prod.splits)
  qed (use assms no_switch_adapter [OF h] in \<open>simp_all add: no_switch_same serving_def\<close>)
qed

lemma switches_kept: "no_switch e e' \<Longrightarrow> switches_accepted (em_log e') = switches_accepted (em_log e)"
  by (auto simp: no_switch_def switches_accepted_def list_all_iff)

lemma continues_switches:
  assumes "continues sink e e'" and "emitter_ok e"
  shows "emitter_ok e' \<and> switches_accepted (em_log e') = switches_accepted (em_log e)"
proof -
  obtain ops where ops: "list_all (\<lambda>op. \<not> is_switch op) ops" "e' = emitter_run sink ops e"
    using assms(1) by (auto simp: continues_def)
  have "emitter_ok (emitter_run sink ops e) \<and> switches_accepted (em_log (emitter_run sink ops e)) = switches_accepted (em_log e)"
    using ops(1) assms(2)
  proof (induction ops arbitrary: e)
    case (Cons op ops)
    then show ?case
      using Cons.IH [OF _ emitter_apply_ok] switches_kept [OF no_switch_apply [of e op sink]]
      by (simp add: emitter_run_def)
  qed (simp add: emitter_run_def)
  with ops(2) show ?thesis by simp
qed

lemma send_switch_counts:
  assumes "send_next sink body e = (res, e')" and "EventType body = EventRouteSwitch"
  shows "switches_accepted (em_log e') = switches_accepted (em_log e) + (if res = None then 1 else 0)"
proof -
  have "emitter_send sink (frame e (em_sequence e) body) (e\<lparr>em_sequence := em_sequence e + 1\<rparr>) = (res, e')"
    using assms(1) by (simp add: send_next_def emitter_next_def frame_def)
  then show ?thesis
    by (cases rule: emitter_send_cases) (use assms(2) in \<open>simp_all add: switches_accepted_def\<close>)
qed

lemma announced_emitter:
  assumes "announced env primary r s res e" and "emitter_ok (xs_emit s)"
  shows "emitter_ok e \<and> em_started e = em_started (xs_emit s) \<and> (res = None \<longrightarrow> \<not> em_started e) \<and>
    switches_accepted (em_log e) = switches_accepted (em_log (xs_emit s)) + (if res = None then 1 else 0)"
proof -
  obtain reason a now where rs: "routeSwitch (en_sink env) reason primary a r now (xs_emit s) = (res, e)"
    using assms(1) unfolding announced_def by blast
  have "emitter_ok e"
    using emitter_apply_ok [OF assms(2), of "en_sink env" "OpRouteSwitch reason primary a r now"] rs by simp
  moreover have "em_started (snd (send_next (en_sink env) b (xs_emit s))) = em_started (xs_emit s)" for b
    by (rule send_next_started)
  ultimately show ?thesis
    using rs by (auto simp: routeSwitch_def dest: send_switch_counts split: if_splits) (metis snd_conv)+
qed

section \<open>Invariants of the loop\<close>

lemma exec_loop_rule:
  assumes turn: "\<And>c rest s. I (c # rest) s \<Longrightarrow>
      (case exec_turn env request g t primary c s of
         Next_route s' \<Rightarrow> I rest s' | Same_route s' \<Rightarrow> I (c # rest) s'
       | Leave_loop a s' \<Rightarrow> L a s' | Return_result r s' \<Rightarrow> R r s')"
    and "I cs s"
  shows "case exec_loop env request g t primary cs s of
      Exhausted s' \<Rightarrow> I [] s' | Broken a s' \<Rightarrow> L a s' | Returned r s' \<Rightarrow> R r s'"
  using assms
proof (induction env request g t primary cs s rule: exec_loop.induct)
  case (2 env request g t primary c cs s)
  from 2(3) [OF 2(4)] show ?case
    using 2(1) [OF _ 2(3)] 2(2) [OF _ 2(3)] by (cases "exec_turn env request g t primary c s") simp_all
qed simp


text \<open>
  A turn either passes over its candidate, ends the request without a call upstream, or makes one
  attempt and is judged by it.
\<close>

definition before_attempt :: "('c, 'd) exec_env \<Rightarrow> model_id \<Rightarrow> route \<Rightarrow> 'd exec_state \<Rightarrow> 'd exec_state \<Rightarrow> bool" where
  "before_attempt env primary r s0 s \<longleftrightarrow>
     prepared env primary r s0 s \<or>
     (\<exists>s1 e err. admitted r s0 s1 \<and> announced env primary r s0 (Some err) e \<and> s = s1\<lparr>xs_emit := e\<rparr>)"

lemma settled_from_refl [simp]: "settled_from sink s s"
  by (simp add: settled_from_def)

lemma turn_cases:
  assumes "turn_shape env request g t primary c s0 k"
  obtains
    (skipped) s1 where "admitted (cn_route c) s0 s1" "k = Next_route (skip_route (cn_route c) s1)"
  | (stopped) s1 s2 where "before_attempt env primary (cn_route c) s0 s1" "settled_from (en_sink env) s1 s2"
      "(\<exists>a. k = Leave_loop a s2) \<or> (\<exists>r. k = Return_result r s2)"
  | (attempted) s1 s2 a p cp creds where "prepared env primary (cn_route c) s0 s1"
      "em_started (xs_emit s0) \<longrightarrow> xs_abandoned s0 = None" "granted env c creds" "permits_fit (cn_route c) p cp"
      "attempt_done env (cn_route c) creds cp a s1 s2" "k = after_attempt env request p a s2"
  using assms
proof (cases rule: turn_shape.cases)
  case (Skipped s)
  then show ?thesis by (rule skipped [rotated])
next
  case (Refused s failure)
  obtain r s' where "preflight_failure env request g t failure s = Return_result r s'" "settled_from (en_sink env) s s'"
    by (rule preflight_settled)
  with Refused show ?thesis using stopped [of s s'] by (simp add: before_attempt_def)
next
  case (Stays s left e err)
  show ?thesis
  proof (rule stopped [of "s\<lparr>xs_emit := e\<rparr>" "s\<lparr>xs_emit := e, xs_abandoned := None\<rparr>"])
    show "before_attempt env primary (cn_route c) s0 (s\<lparr>xs_emit := e\<rparr>)"
    proof (cases "e = xs_emit s0")
      case True
      with Stays(2) show ?thesis
        by (simp add: before_attempt_def prepared_def admitted_def undisturbed_def lanes_kept_def)
    next
      case False
      with Stays(2,4) show ?thesis by (auto simp: before_attempt_def)
    qed
    show "settled_from (en_sink env) (s\<lparr>xs_emit := e\<rparr>) (s\<lparr>xs_emit := e, xs_abandoned := None\<rparr>)"
      by (simp add: settled_from_def)
    show "(\<exists>a. k = Leave_loop a (s\<lparr>xs_emit := e, xs_abandoned := None\<rparr>)) \<or>
        (\<exists>r. k = Return_result r (s\<lparr>xs_emit := e, xs_abandoned := None\<rparr>))" using Stays(1) by simp
  qed
next
  case (Undeliverable s left err e res s')
  have "before_attempt env primary (cn_route c) s0 (s\<lparr>xs_emit := e\<rparr>)"
    using Undeliverable(2,4) by (auto simp: before_attempt_def)
  then show ?thesis using stopped settle_settled [OF Undeliverable(5)] Undeliverable(1) by blast
next
  case (Attempted s p cp creds a call platform)
  obtain a' s' where "run_attempt env request (cn_route c) a call platform creds p cp s = after_attempt env request p a' s'"
    "attempt_done env (cn_route c) creds cp a' s s'" by (rule run_attempt_judged)
  with Attempted show ?thesis using attempted [of s creds p cp a' s'] by simp
qed

section \<open>Guarantees of an execution\<close>

text \<open>
  A guarantee is a predicate \<open>H\<close> of the state at the head of the loop and a predicate \<open>F\<close> of the state
  at the end, for requests all of whose candidates satisfy \<open>C\<close>.
\<close>

fun leads_to :: "('d exec_state \<Rightarrow> bool) \<Rightarrow> ('d exec_state \<Rightarrow> bool) \<Rightarrow> 'd control \<Rightarrow> bool" where
  "leads_to H F (Next_route s) = H s"
| "leads_to H F (Same_route s) = H s"
| "leads_to H F (Leave_loop a s) = F s"
| "leads_to H F (Return_result r s) = F s"

locale exec_guarantee =
  fixes env :: "('c, 'd) exec_env" and request :: request and C :: "candidate \<Rightarrow> bool"
    and H :: "'d exec_state \<Rightarrow> bool" and F :: "'d exec_state \<Rightarrow> bool"
  assumes turn: "C c \<Longrightarrow> H s \<Longrightarrow> turn_shape env request g t primary c s k \<Longrightarrow> leads_to H F k"
    and exhausted: "H s \<Longrightarrow> F s"
    and settled: "F s \<Longrightarrow> settled_from (en_sink env) s s' \<Longrightarrow> F s'"
begin

lemma loop:
  assumes "list_all C cs" and "H s"
  shows "case exec_loop env request g t primary cs s of Exhausted s' \<Rightarrow> F s' | Broken a s' \<Rightarrow> F s' | Returned r s' \<Rightarrow> F s'"
proof -
  have "case exec_loop env request g t primary cs s of
      Exhausted s' \<Rightarrow> list_all C [] \<and> H s' | Broken a s' \<Rightarrow> F s' | Returned r s' \<Rightarrow> F s'"
  proof (rule exec_loop_rule [where I = "\<lambda>rest s. list_all C rest \<and> H s" and L = "\<lambda>_. F" and R = "\<lambda>_. F"])
    fix c rest and s :: "'d exec_state"
    assume "list_all C (c # rest) \<and> H s"
    then show "case exec_turn env request g t primary c s of Next_route s' \<Rightarrow> list_all C rest \<and> H s'
        | Same_route s' \<Rightarrow> list_all C (c # rest) \<and> H s' | Leave_loop a x \<Rightarrow> F x | Return_result r x \<Rightarrow> F x"
      using turn [OF _ _ exec_turn_shape, of c s g t primary] by (auto split: control.splits)
  qed (use assms in simp)
  then show ?thesis by (auto split: loop_end.splits intro: exhausted)
qed

lemma ending:
  assumes "case k of Exhausted s' \<Rightarrow> F s' | Broken a s' \<Rightarrow> F s' | Returned r s' \<Rightarrow> F s'"
  shows "F (snd (after_loop env request g t n k))"
proof -
  have finish: "F (snd (settle env request g t a err failure s))" if "F s" for a err failure s
    using settled [OF that settle_settled] by (metis prod.collapse)
  have "F (s\<lparr>xs_emit := snd (finishWithError (en_sink env) failure (xs_emit s))\<rparr>)" if "F s" for failure s
    by (rule settled [OF that]) (simp add: settled_from_def continues_steps)
  with finish assms show ?thesis
    by (auto simp: after_loop_def Let_def split: loop_end.splits option.splits)
qed

lemma execution:
  assumes "H (start_state reg limits (newEmitter request (generationFor (en_generation env) (rq_Attribution request)) (en_now env 0 0)))"
    and "\<And>cs. resolve (en_quoted env) (en_describeRequest env) (en_inventory env) (en_costs env) request (en_now env 0 0) = Inr cs
      \<Longrightarrow> list_all C cs"
  shows "F (snd (execute env reg limits request))"
proof -
  let ?g = "generationFor (en_generation env) (rq_Attribution request)"
  let ?s = "start_state reg limits (newEmitter request ?g (en_now env 0 0)) :: 'd exec_state"
  show ?thesis
  proof (cases "resolve (en_quoted env) (en_describeRequest env) (en_inventory env) (en_costs env) request (en_now env 0 0)")
    case (Inl failure)
    have "F (?s\<lparr>xs_emit := snd (finishWithError (en_sink env) failure (xs_emit ?s))\<rparr>)"
      by (rule settled [OF exhausted [OF assms(1)]], simp add: settled_from_def, rule continues_steps)
    with Inl show ?thesis by (simp add: execute_def Let_def)
  next
    case (Inr cs)
    with ending [OF loop [OF assms(2) [OF Inr] assms(1)]] show ?thesis by (simp add: execute_def Let_def)
  qed
qed

end

subsection \<open>The stream\<close>

definition stream_inv :: "'d exec_state \<Rightarrow> bool" where
  "stream_inv s \<longleftrightarrow> emitter_ok (xs_emit s) \<and> xs_switches s = int (switches_accepted (em_log (xs_emit s)))"

lemma stream_inv_prepared: "stream_inv s0 \<Longrightarrow> prepared env primary r s0 s \<Longrightarrow> stream_inv s"
  by (auto simp: stream_inv_def prepared_def dest: announced_emitter)

lemma stream_inv_before: "stream_inv s0 \<Longrightarrow> before_attempt env primary r s0 s \<Longrightarrow> stream_inv s"
  by (auto simp: before_attempt_def stream_inv_prepared) (auto simp: stream_inv_def admitted_def dest: announced_emitter)

lemma stream_inv_settled: "stream_inv s \<Longrightarrow> settled_from sink s s' \<Longrightarrow> stream_inv s'"
  by (auto simp: stream_inv_def settled_from_def dest: continues_switches)

lemma stream_inv_done: "stream_inv s0 \<Longrightarrow> attempt_done env r creds cp a s0 s \<Longrightarrow> stream_inv s"
  by (auto simp: stream_inv_def attempt_done_def dest: continues_switches)

lemma stream_inv_kept: "stream_inv s \<Longrightarrow> attempt_kept p s s' \<Longrightarrow> stream_inv s'"
  by (simp add: stream_inv_def attempt_kept_def)

lemma stream_inv_admitted: "stream_inv s0 \<Longrightarrow> admitted r s0 s \<Longrightarrow> stream_inv s"
  by (simp add: stream_inv_def admitted_def)

lemmas stream_inv_steps = stream_inv_prepared stream_inv_before stream_inv_settled stream_inv_done stream_inv_kept
  stream_inv_admitted

lemma stream_inv_skip: "stream_inv (skip_route r s) = stream_inv s"
  by (simp add: stream_inv_def)

lemma stream_inv_start: "stream_inv (start_state reg limits (newEmitter r g t))"
  by (simp add: stream_inv_def start_state_def newEmitter_ok) (simp add: newEmitter_def switches_accepted_def)

interpretation stream: exec_guarantee env request "\<lambda>_. True" stream_inv stream_inv for env request
proof
  fix c s g t primary k
  assume inv: "stream_inv s" and "turn_shape env request g t primary c s k"
  from this(2) show "leads_to stream_inv stream_inv k"
  proof (cases rule: turn_cases)
    case (attempted s1 s2 a p cp creds)
    then have "stream_inv s2" using inv by (blast intro: stream_inv_steps)
    then show ?thesis unfolding attempted(6)
      by (cases rule: after_attempt_cases [of env request p a s2]) (auto intro: stream_inv_kept)
  next
    case (stopped s1 s2)
    then have "stream_inv s2" using inv by (blast intro: stream_inv_steps)
    with stopped(3) show ?thesis by auto
  qed (use inv in \<open>auto simp: stream_inv_skip intro: stream_inv_steps\<close>)
qed (auto intro: stream_inv_settled)

subsection \<open>When and after what an adapter is called\<close>

definition moved_on :: "adapter_use \<Rightarrow> bool" where
  "moved_on u \<longleftrightarrow> (case use_err u of None \<Rightarrow> False | Some err \<Rightarrow> DeploymentAttributable err) \<and> \<not> use_cancelled u"

definition fresh_head :: "'d exec_state \<Rightarrow> bool" where
  "fresh_head s \<longleftrightarrow> stream_inv s \<and> (em_started (xs_emit s) \<longrightarrow> xs_abandoned s \<noteq> None) \<and>
     (xs_abandoned s = None \<longleftrightarrow> xs_calls s = []) \<and>
     list_all (\<lambda>u. \<not> use_committed u) (xs_calls s) \<and> list_all moved_on (xs_calls s)"

definition fresh_end :: "'d exec_state \<Rightarrow> bool" where
  "fresh_end s \<longleftrightarrow> list_all (\<lambda>u. \<not> use_committed u) (xs_calls s) \<and> list_all moved_on (butlast (xs_calls s))"

lemma prepared_uncommitted:
  assumes "prepared env primary r s0 s" and "emitter_ok (xs_emit s0)" and "\<not> em_started (xs_emit s0)"
  shows "\<not> em_started (xs_emit s)"
  using assms announced_emitter [of env primary r s0 None "xs_emit s"] by (auto simp: prepared_def)

lemma before_attempt_calls: "before_attempt env primary r s0 s \<Longrightarrow> xs_calls s = xs_calls s0"
  by (auto simp: before_attempt_def prepared_def admitted_def undisturbed_def)

lemma butlast_all: "list_all P xs \<Longrightarrow> list_all P (butlast xs)"
  by (auto simp: list_all_iff dest: in_set_butlastD)

lemma fresh_turn:
  assumes H: "fresh_head s" and "turn_shape env request g t primary c s k"
  shows "leads_to fresh_head fresh_end k"
  using assms(2)
proof (cases rule: turn_cases)
  case (skipped s1)
  then show ?thesis
    using H by (auto simp: fresh_head_def stream_inv_skip intro: stream_inv_steps) (auto simp: admitted_def undisturbed_def)
next
  case (stopped s1 s2)
  then have "xs_calls s2 = xs_calls s" by (simp add: settled_from_def before_attempt_calls)
  with stopped(3) H show ?thesis by (auto simp: fresh_end_def fresh_head_def butlast_all)
next
  case (attempted s1 s2 a p cp creds)
  have inv: "stream_inv s2" using attempted H by (auto simp: fresh_head_def intro: stream_inv_steps)
  have "\<not> em_started (xs_emit s)" using attempted(2) H by (auto simp: fresh_head_def)
  with prepared_uncommitted [OF attempted(1)] H have new: "\<not> em_started (xs_emit s1)"
    by (auto simp: fresh_head_def stream_inv_def)
  have s1: "xs_calls s1 = xs_calls s" using attempted(1) by (simp add: prepared_def undisturbed_def)
  obtain u where calls: "xs_calls s2 = xs_calls s @ [u]" and u: "\<not> use_committed u" "use_err u = att_err a"
      "use_cancelled u = att_cancelled a"
    using attempted(5) new s1 by (auto simp: attempt_done_def)
  have old: "list_all (\<lambda>u. \<not> use_committed u) (xs_calls s)" "list_all moved_on (xs_calls s)" using H by (simp_all add: fresh_head_def)
  show ?thesis unfolding attempted(6)
  proof (cases rule: after_attempt_cases [of env request p a s2])
    case (ends a' s')
    then show "leads_to fresh_head fresh_end (after_attempt env request p a s2)"
      using calls u old by (simp add: fresh_end_def attempt_kept_def)
  next
    case (moves err s')
    moreover have "stream_inv s'" using inv moves(2) by (rule stream_inv_kept)
    ultimately show "leads_to fresh_head fresh_end (after_attempt env request p a s2)"
      using calls u old by (simp add: fresh_head_def attempt_kept_def moved_on_def)
  next
    case (repeats err wait s')
    moreover have "stream_inv s'" using inv repeats(2) by (rule stream_inv_kept)
    ultimately show "leads_to fresh_head fresh_end (after_attempt env request p a s2)"
      using calls u old by (simp add: fresh_head_def attempt_kept_def moved_on_def)
  qed
qed

interpretation fresh: exec_guarantee env request "\<lambda>_. True" fresh_head fresh_end for env request
proof
  show "fresh_head s \<Longrightarrow> fresh_end s" for s by (simp add: fresh_head_def fresh_end_def butlast_all)
  show "fresh_end s \<Longrightarrow> settled_from (en_sink env) s s' \<Longrightarrow> fresh_end s'" for s s' by (simp add: fresh_end_def settled_from_def)
qed (rule fresh_turn)

lemma fresh_start: "fresh_head (start_state reg limits (newEmitter r g t))"
  by (simp add: fresh_head_def stream_inv_start) (simp add: start_state_def newEmitter_def)

subsection \<open>Credentials\<close>

definition uses_granted :: "('c, 'd) exec_env \<Rightarrow> (candidate \<Rightarrow> bool) \<Rightarrow> 'd exec_state \<Rightarrow> bool" where
  "uses_granted env C s \<longleftrightarrow>
     (\<forall>u \<in> set (xs_calls s). \<exists>c. C c \<and> use_route u = cn_route c \<and> granted env c (use_credentials u))"

text \<open>A turn adds at most the one use of its own candidate.\<close>

lemma leads_to_calls:
  assumes "turn_shape env request g t primary c s k"
    and same: "\<And>x. xs_calls x = xs_calls s \<Longrightarrow> H x \<and> F x"
    and more: "\<And>x u. xs_calls x = xs_calls s @ [u] \<Longrightarrow> use_route u = cn_route c \<Longrightarrow> granted env c (use_credentials u) \<Longrightarrow>
      F x \<and> (cm_APIFormat (rq_Client request) \<noteq> APIFormatDecisions \<longrightarrow> H x)"
  shows "leads_to H F k"
  using assms(1)
proof (cases rule: turn_cases)
  case (skipped s1)
  then show ?thesis using same [of "skip_route (cn_route c) s1"] by (simp add: admitted_def undisturbed_def)
next
  case (stopped s1 s2)
  then have "xs_calls s2 = xs_calls s" by (simp add: settled_from_def before_attempt_calls)
  with stopped(3) same show ?thesis by auto
next
  case (attempted s1 s2 a p cp creds)
  then obtain u where "xs_calls s2 = xs_calls s @ [u]" "use_route u = cn_route c" "use_credentials u = creds"
    by (auto simp: attempt_done_def prepared_def undisturbed_def)
  with more attempted(3) show ?thesis unfolding attempted(6)
    by (cases rule: after_attempt_cases [of env request p a s2]) (auto simp: attempt_kept_def)
qed

interpretation granted: exec_guarantee env request C "uses_granted env C" "uses_granted env C" for env request C
proof
  fix c s g t primary k
  assume "C c" and inv: "uses_granted env C s" and turn: "turn_shape env request g t primary c s k"
  from turn show "leads_to (uses_granted env C) (uses_granted env C) k"
    by (rule leads_to_calls) (use inv \<open>C c\<close> in \<open>auto simp: uses_granted_def\<close>)
qed (simp_all add: uses_granted_def settled_from_def)

subsection \<open>Decisions\<close>

definition decisions :: "request \<Rightarrow> bool" where
  "decisions request \<longleftrightarrow> cm_APIFormat (rq_Client request) = APIFormatDecisions"

interpretation single: exec_guarantee env request "\<lambda>_. True" "\<lambda>s. decisions request \<longrightarrow> xs_calls s = []"
  "\<lambda>s. decisions request \<longrightarrow> length (xs_calls s) \<le> 1" for env request
proof
  fix c s g t primary k
  assume inv: "decisions request \<longrightarrow> xs_calls s = []" and turn: "turn_shape env request g t primary c s k"
  from turn show "leads_to (\<lambda>s. decisions request \<longrightarrow> xs_calls s = []) (\<lambda>s. decisions request \<longrightarrow> length (xs_calls s) \<le> 1) k"
    by (rule leads_to_calls) (use inv in \<open>auto simp: decisions_def\<close>)
qed (auto simp: settled_from_def)

subsection \<open>Lanes\<close>

lemma turn_lanes:
  assumes "turn_shape env request g t primary c s k"
    and same: "\<And>x. lanes_kept (cn_route c) s x \<Longrightarrow> H x"
  shows "leads_to H H k"
  using assms(1)
proof (cases rule: turn_cases)
  case (skipped s1)
  then show ?thesis using same [of "skip_route (cn_route c) s1"] by (simp add: admitted_def lanes_kept_def)
next
  case (stopped s1 s2)
  then have "lanes_kept (cn_route c) s s2"
    by (auto simp: settled_from_def before_attempt_def prepared_def admitted_def lanes_kept_def)
  with stopped(3) same show ?thesis by auto
next
  case (attempted s1 s2 a p cp creds)
  then have "lanes_kept (cn_route c) s s2"
    by (auto simp: attempt_done_def prepared_def lanes_kept_def permits_fit_def)
  then have "attempt_kept p s2 s' \<Longrightarrow> lanes_kept (cn_route c) s s'" for s'
    using attempted(4) by (auto simp: attempt_kept_def lanes_kept_def permits_fit_def)
  with same show ?thesis unfolding attempted(6)
    by (cases rule: after_attempt_cases [of env request p a s2]) auto
qed

interpretation breakers: exec_guarantee env request "\<lambda>c. byok (cn_route c)" "\<lambda>s. xs_rotation s = reg" "\<lambda>s. xs_rotation s = reg"
  for env request reg
proof
  fix c s g t primary k
  assume "byok (cn_route c)" "xs_rotation s = reg" and turn: "turn_shape env request g t primary c s k"
  from turn show "leads_to (\<lambda>s. xs_rotation s = reg) (\<lambda>s. xs_rotation s = reg) k"
    by (rule turn_lanes) (use \<open>byok (cn_route c)\<close> \<open>xs_rotation s = reg\<close> in \<open>simp add: lanes_kept_def\<close>)
qed (simp_all add: settled_from_def)

interpretation customers: exec_guarantee env request "\<lambda>c. \<not> byok (cn_route c)" "\<lambda>s. xs_limits s = lim" "\<lambda>s. xs_limits s = lim"
  for env request lim
proof
  fix c s g t primary k
  assume "\<not> byok (cn_route c)" "xs_limits s = lim" and turn: "turn_shape env request g t primary c s k"
  from turn show "leads_to (\<lambda>s. xs_limits s = lim) (\<lambda>s. xs_limits s = lim) k"
    by (rule turn_lanes) (use \<open>\<not> byok (cn_route c)\<close> \<open>xs_limits s = lim\<close> in \<open>simp add: lanes_kept_def\<close>)
qed (simp_all add: settled_from_def)

subsection \<open>Rows of the cost record\<close>

definition rows_ok :: "'d exec_state \<Rightarrow> bool" where
  "rows_ok s \<longleftrightarrow>
     map au_AttemptIndex (xs_usage s) = map int [0..<length (xs_usage s)] \<and>
     subseq (map (\<lambda>u. ro_DeploymentID (use_route u)) (xs_calls s)) (map au_DeploymentID (xs_usage s))"

lemma row_of_fields:
  assumes "map row_of us = map row_of vs"
  shows "map au_AttemptIndex us = map au_AttemptIndex vs" "map au_DeploymentID us = map au_DeploymentID vs"
    "length us = length vs"
proof -
  have "map au_AttemptIndex us = map au_AttemptIndex (map row_of us)" for us by (simp add: row_of_def)
  then show "map au_AttemptIndex us = map au_AttemptIndex vs" using assms by metis
  have "map au_DeploymentID us = map au_DeploymentID (map row_of us)" for us by (simp add: row_of_def)
  then show "map au_DeploymentID us = map au_DeploymentID vs" using assms by metis
  show "length us = length vs" using assms by (metis length_map)
qed

lemma rows_ok_cong:
  "rows_ok s \<Longrightarrow> map row_of (xs_usage s') = map row_of (xs_usage s) \<Longrightarrow> xs_calls s' = xs_calls s \<Longrightarrow> rows_ok s'"
  using row_of_fields [of "xs_usage s'" "xs_usage s"] by (simp add: rows_ok_def)

lemma add_usage_rows:
  obtains hedged where
    "map au_AttemptIndex (add_usage env n r out tel us) = map au_AttemptIndex us @ map int [length us..<length us + Suc hedged]"
    "length (add_usage env n r out tel us) = length us + Suc hedged"
    "map au_DeploymentID (add_usage env n r out tel us) =
       map au_DeploymentID us @ replicate hedged (ro_DeploymentID r) @ [ro_DeploymentID r]"
proof
  let ?h = "if ou_Units out = [] then 0 else nat (ou_AbandonedExchanges out)"
  have shift: "map (\<lambda>i. int (length us + i)) [0..<h] = map int [length us..<length us + h]" for h
    by (induction h) simp_all
  show "length (add_usage env n r out tel us) = length us + Suc ?h" by (simp add: add_usage_def Let_def)
  show "map au_DeploymentID (add_usage env n r out tel us) =
      map au_DeploymentID us @ replicate ?h (ro_DeploymentID r) @ [ro_DeploymentID r]"
    by (simp add: add_usage_def Let_def usage_row_def comp_def map_replicate_const)
  show "map au_AttemptIndex (add_usage env n r out tel us) =
      map au_AttemptIndex us @ map int [length us..<length us + Suc ?h]"
    using shift [of ?h] by (simp add: add_usage_def Let_def usage_row_def comp_def)
qed

lemma rows_ok_done:
  assumes "rows_ok s0" and "attempt_done env r creds cp a s0 s"
  shows "rows_ok s"
proof -
  obtain tel where u: "xs_usage s = add_usage env (xs_turn s0) r (att_outcome a) tel (xs_usage s0)"
    and c: "map (\<lambda>u. ro_DeploymentID (use_route u)) (xs_calls s) =
      map (\<lambda>u. ro_DeploymentID (use_route u)) (xs_calls s0) @ [ro_DeploymentID r]"
    using assms(2) by (auto simp: attempt_done_def)
  obtain h where h: "map au_AttemptIndex (xs_usage s) = map au_AttemptIndex (xs_usage s0) @ map int [length (xs_usage s0)..<length (xs_usage s0) + Suc h]"
    "length (xs_usage s) = length (xs_usage s0) + Suc h"
    "map au_DeploymentID (xs_usage s) = map au_DeploymentID (xs_usage s0) @ replicate h (ro_DeploymentID r) @ [ro_DeploymentID r]"
    unfolding u by (rule add_usage_rows)
  have "map int [0..<length (xs_usage s0)] @ map int [length (xs_usage s0)..<length (xs_usage s0) + Suc h] = map int [0..<length (xs_usage s)]"
    unfolding h(2) map_append [symmetric] using upt_add_eq_append [of 0 "length (xs_usage s0)" "Suc h"] by simp
  moreover have "subseq (xs @ [d]) (ys @ replicate h d @ [d])" if "subseq xs ys" for xs ys and d :: deployment_id
    using list_emb_append_mono [OF that, of "[d]" "replicate h d @ [d]"] by (simp add: list_emb_append2)
  ultimately show ?thesis using assms(1) h(1,3) c by (simp add: rows_ok_def)
qed

interpretation rows: exec_guarantee env request "\<lambda>_. True" rows_ok rows_ok for env request
proof
  fix c s g t primary k
  assume inv: "rows_ok s" and "turn_shape env request g t primary c s k"
  from this(2) show "leads_to rows_ok rows_ok k"
  proof (cases rule: turn_cases)
    case (skipped s1)
    with rows_ok_cong [OF inv, of "skip_route (cn_route c) s1"] show ?thesis by (simp add: admitted_def undisturbed_def)
  next
    case (stopped s1 s2)
    have "map row_of (xs_usage s2) = map row_of (xs_usage s)" "xs_calls s2 = xs_calls s"
      using stopped(1,2) by (auto simp: settled_from_def before_attempt_def prepared_def admitted_def undisturbed_def)
    from rows_ok_cong [OF inv this] stopped(3) show ?thesis by auto
  next
    case (attempted s1 s2 a p cp creds)
    have "rows_ok s1" by (rule rows_ok_cong [OF inv]) (use attempted(1) in \<open>simp_all add: prepared_def undisturbed_def\<close>)
    from rows_ok_done [OF this attempted(5)] have s2: "rows_ok s2" .
    have "attempt_kept p s2 s' \<Longrightarrow> rows_ok s'" for s'
      by (rule rows_ok_cong [OF s2]) (simp_all add: attempt_kept_def)
    then show ?thesis unfolding attempted(6)
      by (cases rule: after_attempt_cases [of env request p a s2]) auto
  qed
qed (auto simp: settled_from_def intro: rows_ok_cong)

section \<open>Settlement\<close>

definition report_sound :: "int \<Rightarrow> 'd result \<Rightarrow> bool" where
  "report_sound switches r \<longleftrightarrow>
     (case re_Report r of
        Some rep \<Rightarrow> ur_RouteSwitches rep = switches \<and> (re_Embedding r = None \<longrightarrow> report_Validate rep = None)
      | None \<Rightarrow> (case re_Failure r of None \<Rightarrow> False | Some f \<Rightarrow> ce_Code f = CodeInternalError))"

definition settlement_ok :: "('c, 'd) exec_env \<Rightarrow> request \<Rightarrow> 'd result \<Rightarrow> 'd exec_state \<Rightarrow> bool" where
  "settlement_ok env request r s \<longleftrightarrow>
     (if xs_calls s = [] then re_Report r = None \<and> re_UpstreamCost r = no_cost \<and> re_Failure r \<noteq> None
      else report_sound (xs_switches s) r \<and>
        (\<exists>clock. re_UpstreamCost r = MeasureRequest (en_costs env) clock (at_RequestID (rq_Attribution request)) (xs_usage s)))"

lemma default_source_switches [simp]: "ur_RouteSwitches (default_source src report) = ur_RouteSwitches report"
  by (simp add: default_source_def)

lemma ce_Code_NewError [simp]: "ce_Code (NewError requestID code detail) = code"
  by (simp add: NewError_def)

lemma finalize_sound:
  "report_sound (ur_RouteSwitches report) (finalize env report failure err cost) \<and>
   re_UpstreamCost (finalize env report failure err cost) = cost"
  by (simp add: finalize_def report_sound_def failed_result_def not_settleable_def split: option.splits)

lemma decisions_result_sound:
  "report_sound (ur_RouteSwitches report) (decisions_result env request a report cost) \<and>
   re_UpstreamCost (decisions_result env request a report cost) = cost"
  using finalize_sound [of "report\<lparr>ur_Outcome := OutcomeFailed\<rparr>" env]
  by (auto simp: decisions_result_def Let_def report_sound_def failed_result_def split: option.splits)

lemma report_sound_language [simp]: "report_sound n (r\<lparr>re_DetectedLanguage := l\<rparr>) = report_sound n r"
  by (simp add: report_sound_def split: option.split)

lemma conclude_sound:
  assumes "conclude env requestID a report cost completedAt sinkErr failure e = (r, e')"
  shows "report_sound (ur_RouteSwitches report) r \<and> re_UpstreamCost r = cost"
  using assms by (auto simp: conclude_def Let_def finalize_sound split: option.splits if_splits prod.splits)

lemma settle_report_sound:
  assumes "settle_report env request completed completedAt a sinkErr failure report cost e = (r, e')"
  shows "report_sound (ur_RouteSwitches report) r \<and> re_UpstreamCost r = cost"
proof -
  let ?early = "completed \<and> cm_APIFormat (rq_Client request) = APIFormatDecisions"
  let ?embed = "att_err a = None \<and> ou_Embedding (att_outcome a) \<noteq> None"
  consider "?early" | "\<not> ?early" "?embed" | "\<not> ?early" "\<not> ?embed" by blast
  then show ?thesis
  proof cases
    case 1
    with assms decisions_result_sound [of report env request a cost] show ?thesis by (auto simp: settle_report_def)
  next
    case 2
    with assms show ?thesis by (auto simp: settle_report_def Let_def report_sound_def)
  next
    case 3
    let ?r1 = "if timeToFirstToken e > 0 then report\<lparr>ur_TimeToFirstTokenMs := Some (milliseconds (timeToFirstToken e))\<rparr> else report"
    let ?r2 = "(default_source UsageEstimated ?r1)\<lparr>ur_Outcome := final_outcome a sinkErr failure e\<rparr>"
    have same: "ur_RouteSwitches ?r2 = ur_RouteSwitches report" by simp
    show ?thesis
    proof (cases "report_Validate ?r2")
      case None
      with 3 assms have "conclude env (at_RequestID (rq_Attribution request)) a ?r2 cost completedAt sinkErr failure e = (r, e')"
        by (simp only: settle_report_def Let_def if_False option.case)
      from conclude_sound [OF this] show ?thesis unfolding same .
    next
      case (Some err)
      with 3 assms have "r = failed_result (not_settleable env (at_RequestID (rq_Attribution request)) err) cost"
        by (simp only: settle_report_def Let_def if_False option.case prod.inject)
      then show ?thesis by (simp add: report_sound_def failed_result_def not_settleable_def)
    qed
  qed
qed

lemma settle_sound:
  assumes "settle env request g t a sinkErr failure s = (r, s')" and "xs_calls s \<noteq> []"
  shows "settlement_ok env request r s'"
  using assms(1)
proof (rule settle_steps)
  fix a1 usage1 sinkErr1 e1 served e2 clock
  assume "s' = s\<lparr>xs_emit := e2, xs_usage := mark_served served usage1\<rparr>"
    and "settle_report env request (att_err a = None \<and> sinkErr = None \<and> failure = None) (en_now env (xs_turn s) 6) a1 sinkErr1 failure
       (report_of request g a1 (mark_served served usage1) (xs_switches s) t (en_now env (xs_turn s) 6))
       (MeasureRequest (en_costs env) clock (at_RequestID (rq_Attribution request)) (mark_served served usage1)) e1 = (r, e2)"
  from settle_report_sound [OF this(2)] this(1) assms(2) show ?thesis
    by (auto simp: settlement_ok_def report_of_def)
qed

lemma refused_accounted: "xs_calls s = [] \<Longrightarrow> settlement_ok env request (failed_result failure no_cost) s"
  by (simp add: settlement_ok_def failed_result_def)

text \<open>At the head of the loop there is an attempt to settle exactly when an adapter was called.\<close>

definition settleable :: "'d exec_state \<Rightarrow> bool" where
  "settleable s \<longleftrightarrow> (xs_abandoned s = None \<longleftrightarrow> xs_calls s = [])"

lemma preflight_accounted:
  assumes "settleable s" and "preflight_failure env request g t failure s = Return_result r s'"
  shows "settlement_ok env request r s'"
proof (cases "xs_abandoned s")
  case None
  with assms refused_accounted [of "s\<lparr>xs_emit := snd (finishWithError (en_sink env) failure (xs_emit s))\<rparr>"]
  show ?thesis by (auto simp: preflight_failure_def settleable_def)
next
  case (Some a)
  then have "settle env request g t a None (Some failure) s = (r, s')"
    using assms(2) by (auto simp: preflight_failure_def split: prod.splits)
  from settle_sound [OF this] Some assms(1) show ?thesis by (simp add: settleable_def)
qed

lemma settlement_ok_turn:
  assumes "settleable s" and "turn_shape env request g t primary c s k"
  shows "case k of Next_route s' \<Rightarrow> settleable s' | Same_route s' \<Rightarrow> settleable s'
    | Leave_loop a s' \<Rightarrow> xs_calls s' \<noteq> [] | Return_result r s' \<Rightarrow> settlement_ok env request r s'"
  using assms(2)
proof (cases rule: turn_shape.cases)
  case (Skipped s1)
  with assms(1) show ?thesis by (simp add: settleable_def admitted_def undisturbed_def)
next
  case (Refused s1 failure)
  have "settleable s1" using assms(1) Refused(2) by (simp add: settleable_def prepared_def undisturbed_def)
  moreover obtain r s' where "preflight_failure env request g t failure s1 = Return_result r s'" by (rule preflight_settled)
  ultimately show ?thesis using Refused(1) preflight_accounted by auto
next
  case (Stays s1 left e err)
  with assms(1) show ?thesis by (simp add: settleable_def admitted_def undisturbed_def)
next
  case (Undeliverable s1 left err e res s')
  then have "xs_calls (s1\<lparr>xs_emit := e\<rparr>) \<noteq> []" using assms(1) by (simp add: settleable_def admitted_def undisturbed_def)
  from settle_sound [OF Undeliverable(5) this] Undeliverable(1) show ?thesis by simp
next
  case (Attempted s1 p cp creds a call platform)
  obtain a' s2 where run: "run_attempt env request (cn_route c) a call platform creds p cp s1 = after_attempt env request p a' s2"
    and d: "attempt_done env (cn_route c) creds cp a' s1 s2" by (rule run_attempt_judged)
  from d have "xs_calls s2 \<noteq> []" by (auto simp: attempt_done_def)
  then show ?thesis unfolding Attempted(1) run
    by (cases rule: after_attempt_cases [of env request p a' s2]) (auto simp: attempt_kept_def settleable_def)
qed

lemma execute_accounted:
  assumes "execute env reg limits request = (r, s)"
  shows "settlement_ok env request r s"
proof -
  let ?g = "generationFor (en_generation env) (rq_Attribution request)"
  let ?s = "start_state reg limits (newEmitter request ?g (en_now env 0 0))"
  have start: "settleable ?s" "xs_calls ?s = []" by (simp_all add: settleable_def start_state_def)
  show ?thesis
  proof (cases "resolve (en_quoted env) (en_describeRequest env) (en_inventory env) (en_costs env) request (en_now env 0 0)")
    case (Inl failure)
    with assms refused_accounted [of "?s\<lparr>xs_emit := snd (finishWithError (en_sink env) failure (xs_emit ?s))\<rparr>"] start
    show ?thesis by (auto simp: execute_def Let_def)
  next
    case (Inr cs)
    let ?k = "exec_loop env request ?g (en_now env 0 0) (ModelID (ro_ModelReference (cn_route (hd cs)))) cs ?s"
    have "case ?k of Exhausted s' \<Rightarrow> settleable s' | Broken a s' \<Rightarrow> xs_calls s' \<noteq> [] | Returned r s' \<Rightarrow> settlement_ok env request r s'"
      by (rule exec_loop_rule [where I = "\<lambda>_. settleable" and L = "\<lambda>_ s. xs_calls s \<noteq> []" and R = "settlement_ok env request"])
        (use start settlement_ok_turn [OF _ exec_turn_shape] in auto)
    moreover have "after_loop env request ?g (en_now env 0 0) (length cs) ?k = (r, s)"
      using assms Inr by (simp add: execute_def Let_def)
    ultimately show ?thesis
      by (auto simp: after_loop_def Let_def settleable_def refused_accounted
          split: loop_end.splits option.splits dest: settle_sound)
  qed
qed

section \<open>The signed order\<close>

text \<open>The calls \<open>ns ! i\<close> times to candidate \<open>i\<close>, one candidate after the other.\<close>

definition plan :: "nat list \<Rightarrow> candidate list \<Rightarrow> route list" where
  "plan ns cs = concat (map2 (\<lambda>n c. replicate n (cn_route c)) ns cs)"

definition in_signed_order :: "int \<Rightarrow> candidate list \<Rightarrow> 'd exec_state \<Rightarrow> bool" where
  "in_signed_order m cs s \<longleftrightarrow>
     (\<exists>ns. length ns = length cs \<and> list_all (\<lambda>n. int n \<le> m + 1) ns \<and> map use_route (xs_calls s) = plan ns cs)"

definition order_head :: "int \<Rightarrow> candidate list \<Rightarrow> candidate list \<Rightarrow> 'd exec_state \<Rightarrow> bool" where
  "order_head m cs rest s \<longleftrightarrow> 0 \<le> retries_used s \<and> retries_used s \<le> m \<and> (rest = [] \<longrightarrow> retries_used s = 0) \<and>
     (\<exists>finished ns. cs = finished @ rest \<and> length ns = length finished \<and> list_all (\<lambda>n. int n \<le> m + 1) ns \<and>
        map use_route (xs_calls s) = plan ns finished @ replicate (nat (retries_used s)) (cn_route (hd rest)))"

lemma plan_snoc: "length ns = length cs \<Longrightarrow> plan (ns @ [n]) (cs @ [c]) = plan ns cs @ replicate n (cn_route c)"
  by (simp add: plan_def)

lemma plan_rest: "length ns = length cs \<Longrightarrow> plan (ns @ replicate (length ds) 0) (cs @ ds) = plan ns cs"
  by (simp add: plan_def zip_replicate1 comp_def)

lemma order_advance:
  assumes "order_head m cs (c # rest) s" and "map use_route (xs_calls s') = map use_route (xs_calls s) @ replicate i (cn_route c)"
    and "i \<le> 1" and "\<not> xs_retrySame s'" and "0 \<le> m"
  shows "order_head m cs rest s'"
proof -
  obtain finished ns where o: "cs = finished @ c # rest" "length ns = length finished" "list_all (\<lambda>n. int n \<le> m + 1) ns"
    "map use_route (xs_calls s) = plan ns finished @ replicate (nat (retries_used s)) (cn_route c)"
    and b: "0 \<le> retries_used s" "retries_used s \<le> m" using assms(1) by (auto simp: order_head_def)
  let ?n = "nat (retries_used s) + i"
  have "map use_route (xs_calls s') = plan (ns @ [?n]) (finished @ [c])"
    using assms(2) o by (simp add: plan_snoc replicate_add)
  moreover have "int ?n \<le> m + 1" using b assms(3) by simp
  ultimately show ?thesis
    using o assms(4,5) unfolding order_head_def
    by (intro conjI exI [of _ "finished @ [c]"] exI [of _ "ns @ [?n]"]) (simp_all add: retries_used_def)
qed

lemma order_end:
  assumes "order_head m cs rest s"
  shows "in_signed_order m cs s"
proof -
  obtain finished ns where o: "cs = finished @ rest" "length ns = length finished" "list_all (\<lambda>n. int n \<le> m + 1) ns"
    "map use_route (xs_calls s) = plan ns finished @ replicate (nat (retries_used s)) (cn_route (hd rest))"
    and b: "0 \<le> retries_used s" "retries_used s \<le> m" "rest = [] \<longrightarrow> retries_used s = 0" using assms by (auto simp: order_head_def)
  show ?thesis
  proof (cases rest)
    case Nil
    then show ?thesis using o b by (auto simp: in_signed_order_def)
  next
    case (Cons c ds)
    let ?ns = "(ns @ [nat (retries_used s)]) @ replicate (length ds) 0"
    have "plan ?ns ((finished @ [c]) @ ds) = map use_route (xs_calls s)"
      using o Cons by (simp only: plan_rest length_append list.size plan_snoc) simp
    then show ?thesis using o b Cons unfolding in_signed_order_def
      by (intro exI [of _ ?ns]) (auto simp: list_all_iff)
  qed
qed

lemma order_end_cong: "in_signed_order m cs s \<Longrightarrow> xs_calls s' = xs_calls s \<Longrightarrow> in_signed_order m cs s'"
  by (simp add: in_signed_order_def)

lemma order_turn:
  assumes "order_head m cs (c # rest) s" and "turn_shape env request g t primary c s k"
    and m: "rtp_MaxRetriesPerRoute (en_retry env) \<le> m" "0 \<le> m"
  shows "case k of Next_route s' \<Rightarrow> order_head m cs rest s' | Same_route s' \<Rightarrow> order_head m cs (c # rest) s'
    | Leave_loop a s' \<Rightarrow> in_signed_order m cs s' | Return_result r s' \<Rightarrow> in_signed_order m cs s'"
  using assms(2)
proof (cases rule: turn_cases)
  case (skipped s1)
  then show ?thesis using order_advance [OF assms(1), of "skip_route (cn_route c) s1" 0] m(2)
    by (simp add: admitted_def undisturbed_def)
next
  case (stopped s1 s2)
  then have "xs_calls s2 = xs_calls s" by (simp add: settled_from_def before_attempt_calls)
  with order_end_cong [OF order_end [OF assms(1)]] stopped(3) show ?thesis by auto
next
  case (attempted s1 s2 a p cp creds)
  have c2: "map use_route (xs_calls s2) = map use_route (xs_calls s) @ [cn_route c]"
    and r2: "\<not> xs_retrySame s2" "xs_routeRetries s2 = retries_used s"
    using attempted(1,5) by (auto simp: attempt_done_def prepared_def undisturbed_def)
  have adv: "order_head m cs rest x" if "xs_calls x = xs_calls s2" "\<not> xs_retrySame x" for x
    using order_advance [OF assms(1), of x 1] that c2 m(2) by simp
  have fin: "in_signed_order m cs x" if "xs_calls x = xs_calls s2" for x
    by (rule order_end_cong [OF order_end [OF adv [of s2]]]) (use r2 that in simp_all)
  show ?thesis unfolding attempted(6)
  proof (cases rule: after_attempt_cases [of env request p a s2])
    case (repeats err wait s')
    have "retries_used s < m" using retry_next_below [OF repeats(9)] r2 m by simp
    then have "order_head m cs (c # rest) s'"
      using assms(1) c2 r2 repeats(2,11,12)
      by (auto simp: order_head_def attempt_kept_def retries_used_def nat_add_distrib replicate_add replicate_append_same)
    then show "case after_attempt env request p a s2 of Next_route s' \<Rightarrow> order_head m cs rest s'
      | Same_route s' \<Rightarrow> order_head m cs (c # rest) s'
      | Leave_loop a s' \<Rightarrow> in_signed_order m cs s' | Return_result r s' \<Rightarrow> in_signed_order m cs s'"
      using repeats(1) by simp
  qed (use adv fin r2 in \<open>auto simp: attempt_kept_def\<close>)
qed

lemma execute_in_order:
  assumes "resolve (en_quoted env) (en_describeRequest env) (en_inventory env) (en_costs env) request (en_now env 0 0) = Inr cs"
  shows "in_signed_order (max 0 (rtp_MaxRetriesPerRoute (en_retry env))) cs (snd (execute env reg limits request))"
proof -
  let ?m = "max 0 (rtp_MaxRetriesPerRoute (en_retry env))"
  let ?g = "generationFor (en_generation env) (rq_Attribution request)"
  let ?s = "start_state reg limits (newEmitter request ?g (en_now env 0 0))"
  let ?k = "exec_loop env request ?g (en_now env 0 0) (ModelID (ro_ModelReference (cn_route (hd cs)))) cs ?s"
  have "order_head ?m cs cs ?s"
    by (auto simp: order_head_def retries_used_def start_state_def plan_def)
  then have "case ?k of Exhausted s' \<Rightarrow> order_head ?m cs [] s' | Broken a s' \<Rightarrow> in_signed_order ?m cs s'
      | Returned r s' \<Rightarrow> in_signed_order ?m cs s'"
    by (rule exec_loop_rule [where I = "order_head ?m cs" and L = "\<lambda>_. in_signed_order ?m cs" and R = "\<lambda>_. in_signed_order ?m cs", rotated])
      (rule order_turn [OF _ exec_turn_shape], auto)
  then have "case ?k of Exhausted s' \<Rightarrow> in_signed_order ?m cs s' | Broken a s' \<Rightarrow> in_signed_order ?m cs s'
      | Returned r s' \<Rightarrow> in_signed_order ?m cs s'"
    by (auto split: loop_end.splits intro: order_end)
  moreover have "xs_calls (snd (settle env request ?g (en_now env 0 0) a err failure s)) = xs_calls s" for a err failure s
    using settle_settled [of env request ?g "en_now env 0 0" a err failure s]
    by (cases "settle env request ?g (en_now env 0 0) a err failure s") (simp add: settled_from_def)
  ultimately show ?thesis
    using assms by (auto simp: execute_def Let_def after_loop_def in_signed_order_def split: loop_end.splits option.splits)
qed

lemma plan_length: "length ns = length cs \<Longrightarrow> list_all (\<lambda>n. int n \<le> m) ns \<Longrightarrow> int (length (plan ns cs)) \<le> m * int (length cs)"
proof (induction ns cs rule: list_induct2)
  case (Cons n ns c cs)
  then show ?case by (simp add: plan_def algebra_simps)
qed (simp add: plan_def)

lemma resolve_authorized:
  assumes "resolve quoted describe snapshot costs r t = Inr cs"
  obtains as where "subseq as (rq_AuthorizedRoutes r)" "list_all2 (authorized_by snapshot t) cs as"
  using assms
proof (cases rule: resolveE)
  case (1 ds)
  note ds = resolve_routes_authorized [OF 1(2) [unfolded resolveAuthorizedRoutes_def]]
  show ?thesis
  proof (cases "cm_APIFormat (rq_Client r) = APIFormatDecisions")
    case True
    with 1(3) ds price_candidates_authorized [of snapshot t ds "rq_AuthorizedRoutes r" costs] that show ?thesis by auto
  next
    case False
    with 1(3) ds that [of "rq_AuthorizedRoutes r"] show ?thesis by auto
  qed
qed

lemma resolve_routes_lanes:
  assumes "resolve quoted describe snapshot costs r t = Inr cs"
    and "list_all (\<lambda>a. P (ar_CustomerProviderCredential a)) (rq_AuthorizedRoutes r)"
  shows "list_all (\<lambda>c. P (ro_CustomerProviderCredential (cn_route c))) cs"
proof -
  obtain as where as: "subseq as (rq_AuthorizedRoutes r)" "list_all2 (authorized_by snapshot t) cs as"
    using assms(1) by (rule resolve_authorized)
  have "list_all (\<lambda>a. P (ar_CustomerProviderCredential a)) as"
    using as(1) assms(2) by (auto simp: list_all_iff dest: list_emb_set)
  with as(2) show ?thesis
    by (induction rule: list_all2_induct) (auto simp: authorized_by_def)
qed

section \<open>Retries\<close>

definition demo_failure :: "int \<Rightarrow> go_error" where
  "demo_failure retryAfterMs = ErrUpstream \<lparr>uf_Code = CodeProviderOverloaded, uf_Category = UpstreamOverloaded, uf_Detail = ''busy'',
     uf_RetryAfterMs = retryAfterMs, uf_Passthrough = None, uf_RecursOnThisRoute = False\<rparr>"

definition demo_binding :: customer_provider_credential where
  "demo_binding = \<lparr>cpc_CredentialHandle = ''h'', cpc_CredentialRevision = 1, cpc_OwnerAccountID = ''o'', cpc_ConnectionID = ''c'',
     cpc_Environment = EnvironmentProduction\<rparr>"

definition demo_byok_envelope :: request where
  "demo_byok_envelope = demo_request [user_message [text_part ''hi'']]
     [(demo_route ''e'' ''a/m@1'')\<lparr>ar_CustomerProviderCredential := Some demo_binding\<rparr>]"

lemma retry_jitter_bounds:
  assumes "0 \<le> (w :: int)" and "\<And>n. 0 < n \<Longrightarrow> 0 \<le> random n \<and> random n < n"
  shows "let half = w sdiv 2; v = (if half > 0 then half + random (w - half + 1) else w) in w div 2 \<le> v \<and> v \<le> w"
proof -
  have half: "w sdiv 2 = w div 2" using assms(1) by (cases "w = 0") (simp_all add: signed_divide_int_def)
  have "0 < w - w div 2 + 1" using assms(1) by linarith
  with assms(2) [OF this] show ?thesis unfolding half Let_def by (auto simp: assms(1))
qed

text \<open>
  The budget check adds durations as 64-bit integers. A \<open>Retry-After\<close> that is a far enough date
  makes the sum negative, and the wait is accepted: 292 years against a budget of 15 seconds.
\<close>

lemma retry_budget_overflows:
  "retry_next DefaultRetryPolicy (\<lambda>_. 0) (demo_failure 9223372036854) 1 second = Some 9223372036854000000"
  by code_simp

text \<open>An error no adapter classified is reported to the customer as retryable.\<close>

lemma unclassified_failure_retryable: "ce_Retryable (upstreamFailure errorText requestID slug (ErrOther msg))"
  by (simp add: upstreamFailure_def NewError_def WithUpstream_def Retryable_def nonRetryableErrorCodes_def Let_def)

section \<open>Properties\<close>

text \<open>
  C7: The stream of a whole execution, whatever the adapters emit and the sink does. The events
  offered to the sink are a run of the stream grammar with sequence numbers 0, 1, 2 and so on, and a
  usage report that settles the request counts exactly the route switches the sink accepted.
\<close>

theorem execution_stream_conforms:
  "case execute env reg limits request of (r, s) \<Rightarrow>
     let l = em_log (xs_emit s)
     in stream_run Routing (log_kinds l) = Some (phase_of (xs_emit s)) \<and>
        map (\<lambda>x. ev_Seq (fst x)) l = map int [0..<length l] \<and>
        (case re_Report r of None \<Rightarrow> True | Some rep \<Rightarrow> ur_RouteSwitches rep = int (switches_accepted l))"
proof -
  obtain r s where x: "execute env reg limits request = (r, s)" by fastforce
  have "stream_inv s" using stream.execution [OF stream_inv_start, of env request reg limits] x by (simp add: list_all_iff)
  moreover have "settlement_ok env request r s" by (rule execute_accounted [OF x])
  ultimately show ?thesis
    unfolding x by (auto simp: Let_def stream_inv_def emitter_ok_def framed_def settlement_ok_def report_sound_def
        split: option.splits if_splits)
qed

text \<open>
  C1: Nothing runs that was not signed, and nothing out of order. The adapters are called for the
  resolved candidates in their signed order: zero or more times for the first, then for the
  second, and so on, never again for an earlier one, and at most the retries of the policy beyond
  the first attempt for each. A request that does not resolve reaches no adapter.
\<close>

theorem attempts_follow_signed_order:
  "let s = snd (execute env reg limits request)
   in case resolve (en_quoted env) (en_describeRequest env) (en_inventory env) (en_costs env) request (en_now env 0 0) of
        Inl failure \<Rightarrow> xs_calls s = []
      | Inr cs \<Rightarrow> in_signed_order (max 0 (rtp_MaxRetriesPerRoute (en_retry env))) cs s"
proof (cases "resolve (en_quoted env) (en_describeRequest env) (en_inventory env) (en_costs env) request (en_now env 0 0)")
  case (Inr cs)
  with execute_in_order [OF Inr, of reg limits] show ?thesis by simp
qed (simp add: execute_def Let_def start_state_def)

text \<open>
  C5: Failover and retry happen only before the customer has received anything, and only for
  failures another deployment could survive. Every adapter call of an execution starts with an
  uncommitted stream, and every call but the last failed with an error attributed to the
  deployment while the customer was still there.
\<close>

theorem no_attempt_after_output:
  "let calls = xs_calls (snd (execute env reg limits request))
   in list_all (\<lambda>u. \<not> use_committed u) calls \<and>
      list_all (\<lambda>u. \<not> use_cancelled u \<and> (case use_err u of None \<Rightarrow> False | Some err \<Rightarrow> DeploymentAttributable err)) (butlast calls)"
  using fresh.execution [OF fresh_start, of env request reg limits]
  by (auto simp: Let_def fresh_end_def moved_on_def list_all_iff)

text \<open>
  C9: Every attempt spends a credential its route was granted. A customer route is attempted with a
  pool of exactly the customer's own key, resolved for its signed binding, and never with a
  platform key; a platform route with what the registry resolves for its deployment, narrowed to
  the funding ceiling when the signed route has one.
\<close>

theorem only_granted_credentials_spent:
  "let s = snd (execute env reg limits request)
   in case resolve (en_quoted env) (en_describeRequest env) (en_inventory env) (en_costs env) request (en_now env 0 0) of
        Inl failure \<Rightarrow> xs_calls s = []
      | Inr cs \<Rightarrow> uses_granted env (\<lambda>c. c \<in> set cs) s"
proof (cases "resolve (en_quoted env) (en_describeRequest env) (en_inventory env) (en_costs env) request (en_now env 0 0)")
  case (Inr cs)
  have "uses_granted env (\<lambda>c. c \<in> set cs) (snd (execute env reg limits request))"
    by (rule granted.execution) (use Inr in \<open>auto simp: uses_granted_def start_state_def list_all_iff\<close>)
  with Inr show ?thesis by simp
qed (simp add: execute_def Let_def start_state_def)

text \<open>
  C11: Nothing that ran goes unaccounted. When an adapter was called, the operator's cost record
  measures rows numbered without a gap among which every call appears with its deployment, and
  there is a usage report, valid unless it is an embedding's, or else an internal error that says
  why there is none. When no adapter was called there is a refusal, no report and no cost.
\<close>

theorem every_attempt_accounted:
  "case execute env reg limits request of (r, s) \<Rightarrow> settlement_ok env request r s \<and> rows_ok s"
proof -
  obtain r s where x: "execute env reg limits request = (r, s)" by fastforce
  have "rows_ok (snd (execute env reg limits request))"
    by (rule rows.execution) (simp_all add: rows_ok_def start_state_def list_all_iff)
  with execute_accounted [OF x] x show ?thesis by simp
qed

text \<open>
  The number of upstream calls of one request is bounded by its signed routes and the retry
  policy, and a decisions request, whose body an upstream may have billed before failing, makes at
  most one.
\<close>

theorem attempts_bounded:
  "int (length (xs_calls (snd (execute env reg limits request)))) \<le>
     (if cm_APIFormat (rq_Client request) = APIFormatDecisions then 1
      else (max 0 (rtp_MaxRetriesPerRoute (en_retry env)) + 1) * int (length (rq_AuthorizedRoutes request)))"
proof -
  let ?calls = "xs_calls (snd (execute env reg limits request))"
  let ?m = "max 0 (rtp_MaxRetriesPerRoute (en_retry env)) + 1"
  have "decisions request \<longrightarrow> length ?calls \<le> 1"
    by (rule single.execution) (simp_all add: start_state_def list_all_iff)
  moreover have "int (length ?calls) \<le> ?m * int (length (rq_AuthorizedRoutes request))"
  proof (cases "resolve (en_quoted env) (en_describeRequest env) (en_inventory env) (en_costs env) request (en_now env 0 0)")
    case (Inr cs)
    obtain as where "subseq as (rq_AuthorizedRoutes request)" "list_all2 (authorized_by (en_inventory env) (en_now env 0 0)) cs as"
      using Inr by (rule resolve_authorized)
    then have "length cs \<le> length (rq_AuthorizedRoutes request)" by (metis list_all2_lengthD list_emb_length)
    then have "?m * int (length cs) \<le> ?m * int (length (rq_AuthorizedRoutes request))" by (intro mult_left_mono) auto
    moreover have "int (length ?calls) \<le> ?m * int (length cs)"
      using execute_in_order [OF Inr, of reg limits] plan_length [of _ cs ?m]
      by (auto simp: in_signed_order_def) (metis length_map)
    ultimately show ?thesis by linarith
  qed (simp add: execute_def Let_def start_state_def)
  ultimately show ?thesis by (simp add: decisions_def)
qed

text \<open>
  C15: The platform's breakers and the customers' limits are separate lanes. A request all of whose
  signed routes carry a customer credential leaves every breaker as it was, whatever happens
  upstream, and a request without one leaves every customer's limits as they were.
\<close>

theorem execution_keeps_lanes_apart:
  "(list_all (\<lambda>a. ar_CustomerProviderCredential a \<noteq> None) (rq_AuthorizedRoutes request) \<longrightarrow>
      xs_rotation (snd (execute env reg limits request)) = reg) \<and>
   (list_all (\<lambda>a. ar_CustomerProviderCredential a = None) (rq_AuthorizedRoutes request) \<longrightarrow>
      xs_limits (snd (execute env reg limits request)) = limits)"
proof (intro conjI impI)
  assume all: "list_all (\<lambda>a. ar_CustomerProviderCredential a \<noteq> None) (rq_AuthorizedRoutes request)"
  show "xs_rotation (snd (execute env reg limits request)) = reg"
    by (rule breakers.execution) (use resolve_routes_lanes [OF _ all] in \<open>simp_all add: start_state_def byok_def\<close>)
next
  assume all: "list_all (\<lambda>a. ar_CustomerProviderCredential a = None) (rq_AuthorizedRoutes request)"
  show "xs_limits (snd (execute env reg limits request)) = limits"
    by (rule customers.execution) (use resolve_routes_lanes [OF _ all] in \<open>simp_all add: start_state_def byok_def\<close>)
qed

theorem execution_keeps_lanes_apart_witness:
  "(\<forall>(env :: (unit, unit) exec_env) reg limits. xs_rotation (snd (execute env reg limits demo_byok_envelope)) = reg) \<and>
   (\<forall>(env :: (unit, unit) exec_env) reg limits. xs_limits (snd (execute env reg limits demo_envelope)) = limits)"
proof -
  have "list_all (\<lambda>a. ar_CustomerProviderCredential a \<noteq> None) (rq_AuthorizedRoutes demo_byok_envelope)"
    "list_all (\<lambda>a. ar_CustomerProviderCredential a = None) (rq_AuthorizedRoutes demo_envelope)"
    by (simp_all add: demo_byok_envelope_def demo_envelope_def demo_request_def demo_route_def)
  then show ?thesis
    using execution_keeps_lanes_apart [of demo_byok_envelope] execution_keeps_lanes_apart [of demo_envelope] by blast
qed

text \<open>
  One wait before a retry. When no sum of durations leaves the 64-bit range, a retry is granted
  only below the retry limit, its wait is at least what the provider asked for and at least half
  the doubled backoff, and together with what the request has already waited it stays within the
  budget.
\<close>

theorem retry_wait_within_budget:
  assumes "retry_next p random err retried waited = Some wait" and "transientFailure err = Some hint"
    and "policy_nonnegative p" and "0 \<le> waited" and "waited \<le> rtp_Budget p"
    and "\<And>n. 0 < n \<Longrightarrow> 0 \<le> random n \<and> random n < n"
    and "rtp_Budget p + rtp_Backoff p * 2 ^ nat retried \<le> max_int64" and "rtp_Budget p + hint \<le> max_int64"
  shows "retried < rtp_MaxRetriesPerRoute p \<and> hint \<le> wait \<and> rtp_Backoff p * 2 ^ nat retried div 2 \<le> wait \<and>
    waited + wait \<le> rtp_Budget p"
proof -
  let ?w = "rtp_Backoff p * 2 ^ nat retried"
  have pos: "0 \<le> ?w" "0 \<le> rtp_Budget p" using assms(3) by (simp_all add: policy_nonnegative_def)
  then have w: "int64 ?w = ?w" using assms(7) by (intro int64_id) auto
  define v where "v = (if ?w sdiv 2 > 0 then ?w sdiv 2 + random (?w - ?w sdiv 2 + 1) else ?w)"
  have v: "?w div 2 \<le> v" "v \<le> ?w" using retry_jitter_bounds [OF pos(1) assms(6)] by (simp_all add: Let_def v_def)
  have "0 \<le> ?w div 2" using pos(1) by (simp add: div_int_pos_iff)
  with v(1) have "0 \<le> v" by linarith
  have wait: "wait = max v hint" "int64 (waited + max v hint) \<le> rtp_Budget p" "retried < rtp_MaxRetriesPerRoute p"
    using assms(1) unfolding retry_next_def Let_def w assms(2) v_def by (auto split: if_splits)
  have "int64 (waited + max v hint) = waited + max v hint"
    using assms(4,5,7,8) v(2) \<open>0 \<le> v\<close> pos(2) by (intro int64_id; cases "v \<le> hint"; simp add: max_def)
  with wait v(1) show ?thesis by auto
qed

theorem retry_wait_within_budget_witness:
  "retry_next DefaultRetryPolicy (\<lambda>_. 0) (demo_failure 2000) 1 second = Some (2 * second) \<and> second + 2 * second \<le> 15 * second"
proof -
  have a: "retry_next DefaultRetryPolicy (\<lambda>_. 0) (demo_failure 2000) 1 second = Some (2 * second)" by code_simp
  have b: "transientFailure (demo_failure 2000) = Some (2 * second)" by code_simp
  have c: "policy_nonnegative DefaultRetryPolicy" by code_simp
  from retry_wait_within_budget [OF a b c] show ?thesis
    using a by (simp add: DefaultRetryPolicy_def second_def)
qed

end
