(* ===== verification/Key_Walk.thy ===== *)
theory Key_Walk
  imports Key_Pool
begin

text \<open>
  The walk of \<open>WalkAttempts\<close> in \<open>internal/provider/credential.go\<close>: send a call with one leased key
  after another until one serves it or no rule moves it on. What is not this code is an input:
  the clock readings, the durable runtime's answer to a recovery claim, the upstream exchange
  itself, and the operations other requests perform on the shared pool between two critical
  sections of this walk. Each is given per turn of the loop. The database write of
  \<open>recordCredentialAttempt\<close> only logs its own failure, so the model keeps the attempts written.
\<close>

section \<open>A source of leases\<close>

locale lease_source =
  fixes lease_next :: "'a \<Rightarrow> 'p \<Rightarrow> ('k \<times> 'a) option"
    and position_of :: "'k \<Rightarrow> int"
    and positions :: "'p \<Rightarrow> int list"
    and tried :: "'a \<Rightarrow> int list"
  assumes lease_fresh: "lease_next a p = Some (k, a') \<Longrightarrow>
    position_of k \<in> set (positions p) \<and> position_of k \<notin> set (tried a) \<and> tried a' = position_of k # tried a"
begin

definition untried :: "'a \<Rightarrow> 'p \<Rightarrow> nat" where
  "untried a p = length (filter (\<lambda>i. i \<notin> set (tried a)) (positions p))"

lemma untried_decreases:
  assumes "lease_next a p = Some (k, a')" and "positions p = positions q" and "positions r = positions q"
    and "tried b = tried a'"
  shows "untried b r < untried a q"
proof -
  note f = lease_fresh [OF assms(1)]
  have "length (filter (\<lambda>i. i \<notin> set (tried b)) (positions q)) <
      length (filter (\<lambda>i. i \<notin> set (tried a)) (positions q))"
    by (rule length_filter_less [of "position_of k"]) (use f assms in auto)
  then show ?thesis unfolding untried_def using assms(3) by simp
qed

text \<open>Leases one after another, with the source changing in between but keeping its positions.\<close>

inductive lease_run :: "'a \<Rightarrow> 'p \<Rightarrow> 'k list \<Rightarrow> 'a \<Rightarrow> bool" where
  run_done: "lease_run a p [] a"
| run_lease: "lease_next a p = Some (k, a') \<Longrightarrow> positions q = positions p \<Longrightarrow> lease_run a' q ks a'' \<Longrightarrow>
    lease_run a p (k # ks) a''"

lemma lease_run_distinct:
  "lease_run a p ks a' \<Longrightarrow>
   distinct (map position_of ks) \<and> set (map position_of ks) \<subseteq> set (positions p) - set (tried a)"
proof (induction rule: lease_run.induct)
  case (run_lease a p k a' q ks a'')
  with lease_fresh [OF run_lease(1)] show ?case by auto
qed simp

lemma lease_run_length:
  assumes "lease_run a p ks a'"
  shows "length ks \<le> length (positions p)"
proof -
  note d = lease_run_distinct [OF assms]
  then have "length ks = card (set (map position_of ks))" by (metis distinct_card length_map)
  also have "\<dots> \<le> card (set (positions p))" using d by (intro card_mono) auto
  also have "\<dots> \<le> length (positions p)" by (rule card_length)
  finally show ?thesis .
qed

end

definition key_positions :: "key_pool \<Rightarrow> int list" where
  "key_positions p = map pk_position (po_keys p)"

interpretation pool_leases: lease_source
  "\<lambda>a p. attempt_next avoid a at_time allowRecovery p" lk_Position key_positions ka_tried
  for avoid at_time allowRecovery
proof
  fix a p k a'
  assume "attempt_next avoid a at_time allowRecovery p = Some (k, a')"
  then obtain x where x: "next_key avoid a at_time allowRecovery p = Some x" "k = lease p x"
    "a' = a\<lparr>ka_tried := pk_position x # ka_tried a\<rparr>"
    by (auto simp: attempt_next_def split: option.splits)
  from next_key_leasable [OF x(1)] show "lk_Position k \<in> set (key_positions p) \<and>
      lk_Position k \<notin> set (ka_tried a) \<and> ka_tried a' = lk_Position k # ka_tried a"
    by (auto simp: x lease_def leasable_def is_member_def key_positions_def)
qed

section \<open>Other requests on the shared pool\<close>

datatype pool_op =
    PoolRetire int key_reason instant instant
  | PoolUsable int string instant
  | PoolObserve int "http_header option" instant

fun apply_pool_op :: "pool_op \<Rightarrow> key_pool \<Rightarrow> key_pool" where
  "apply_pool_op (PoolRetire position reason at_time until) p = Retire position reason at_time until p"
| "apply_pool_op (PoolUsable position evidence at_time) p = markUsable position evidence at_time p"
| "apply_pool_op (PoolObserve position header at_time) p = snd (observe position header at_time p)"

definition apply_pool_ops :: "pool_op list \<Rightarrow> key_pool \<Rightarrow> key_pool" where
  "apply_pool_ops ops p = fold apply_pool_op ops p"

lemma apply_pool_ops_static [simp]: "pool_static (apply_pool_ops ops p) = pool_static p"
proof -
  have "pool_static (apply_pool_op x p) = pool_static p" for x p by (cases x) simp_all
  then show ?thesis unfolding apply_pool_ops_def by (induction ops arbitrary: p) simp_all
qed

section \<open>The walk\<close>

record attempt_sequence =
  sq_next :: nat
  sq_transient :: "string list"

definition new_sequence :: attempt_sequence where
  "new_sequence = \<lparr>sq_next = 0, sq_transient = []\<rparr>"

definition transientKey :: "provider_slug \<Rightarrow> string \<Rightarrow> string" where
  "transientKey slug keyID = slug @ [CHR 0x00] @ keyID"

definition markTransient :: "provider_slug \<Rightarrow> string \<Rightarrow> attempt_sequence \<Rightarrow> attempt_sequence" where
  "markTransient slug keyID s = s\<lparr>sq_transient := transientKey slug keyID # sq_transient s\<rparr>"

definition failedTransiently :: "attempt_sequence \<Rightarrow> provider_slug \<Rightarrow> string \<Rightarrow> bool" where
  "failedTransiently s slug keyID \<longleftrightarrow> is_member (transientKey slug keyID) (sq_transient s)"

definition Take :: "attempt_sequence \<Rightarrow> nat \<times> attempt_sequence" where
  "Take s = (sq_next s, s\<lparr>sq_next := sq_next s + 1\<rparr>)"

record credential_attempt =
  ca_RequestID :: request_id
  ca_DeploymentID :: deployment_id
  ca_Index :: nat
  ca_Provider :: provider_slug
  ca_KeyID :: string
  ca_Outcome :: string
  ca_Evidence :: string
  ca_OccurredAt :: instant
  ca_RetiredUntil :: instant

record walk_call =
  wc_RequestID :: request_id
  wc_DeploymentID :: deployment_id
  wc_Provider :: provider_slug

datatype recovery_decision =
  CredentialRecoveryClaimed | CredentialRecoveryBusy | CredentialRecoveryUsable | OtherDecision string

record 'v exchange =
  ex_Header :: "http_header option"
  ex_Accepted :: bool
  ex_Failure :: go_error
  ex_Transport :: bool
  ex_Value :: 'v

record 'v walk_env =
  we_now :: "nat \<Rightarrow> instant"
  we_observed :: "nat \<Rightarrow> instant"
  we_claim :: "nat \<Rightarrow> leased_key \<Rightarrow> go_error + recovery_decision"
  we_exchange :: "nat \<Rightarrow> leased_key \<Rightarrow> 'v exchange"
  we_others :: "nat \<Rightarrow> nat \<Rightarrow> pool_op list"

record walk_state =
  ws_pool :: key_pool
  ws_attempt :: key_attempt
  ws_sequence :: attempt_sequence
  ws_refused :: "(go_error \<times> leased_key) option"
  ws_records :: "credential_attempt list"
  ws_exchanges :: "(nat \<times> leased_key) list"
  ws_turn :: nat

datatype 'v walk_outcome = WalkAccepted 'v leased_key | WalkFailed "leased_key option" go_error

definition recordCredentialAttempt ::
  "walk_call \<Rightarrow> leased_key \<Rightarrow> nat \<Rightarrow> string \<Rightarrow> string \<Rightarrow> instant \<Rightarrow> instant \<Rightarrow> walk_state \<Rightarrow> walk_state" where
  "recordCredentialAttempt call key index outcome evidence at_time retiredUntil s =
     (if \<not> lk_runtime key \<or> wc_RequestID call = '''' then s
      else s\<lparr>ws_records := ws_records s @
        [\<lparr>ca_RequestID = wc_RequestID call, ca_DeploymentID = wc_DeploymentID call, ca_Index = index,
          ca_Provider = wc_Provider call, ca_KeyID = lk_ID key, ca_Outcome = outcome, ca_Evidence = evidence,
          ca_OccurredAt = at_time, ca_RetiredUntil = retiredUntil\<rparr>]\<rparr>)"

definition attemptOutcome :: "string \<Rightarrow> bool \<Rightarrow> instant \<Rightarrow> string \<times> instant" where
  "attemptOutcome fallback headerExhausted retiredUntil =
     (if headerExhausted then (''exhausted'', retiredUntil) else (fallback, zero_time))"

definition retire_and_move ::
  "walk_call \<Rightarrow> leased_key \<Rightarrow> nat \<Rightarrow> key_reason \<Rightarrow> string \<Rightarrow> instant \<Rightarrow> go_error \<Rightarrow> walk_state \<Rightarrow> walk_state" where
  "retire_and_move call key index reason outcome observedAt failure s =
     (let pool = Retire (lk_Position key) reason observedAt zero_time (ws_pool s);
          s = recordCredentialAttempt call key index outcome ''provider_error'' observedAt
                (observedAt + kp_Retirement (po_policy pool)) (s\<lparr>ws_pool := pool\<rparr>)
      in s\<lparr>ws_refused := Some (failure, key)\<rparr>)"

text \<open>
  What one answered exchange does: the quota headers are applied first, then acceptance or the
  verdict on the failure. \<open>None\<close> is the loop going on, \<open>Some\<close> the function returning.
\<close>

definition conclude_failure ::
  "walk_call \<Rightarrow> leased_key \<Rightarrow> nat \<Rightarrow> bool \<Rightarrow> instant \<Rightarrow> instant \<Rightarrow> go_error \<Rightarrow> walk_state \<Rightarrow>
   'v walk_outcome option \<times> walk_state" where
  "conclude_failure call key index headerExhausted headerRetiredUntil observedAt failure s =
     (let evidence = (if headerExhausted then ''quota_header'' else ''provider_error'')
      in case CredentialVerdictFor failure of
           CredentialExhausted \<Rightarrow>
             (None, retire_and_move call key index KeyExhausted ''exhausted'' observedAt failure s)
         | CredentialRejected \<Rightarrow>
             (None, retire_and_move call key index KeyRejected ''rejected'' observedAt failure s)
         | CredentialRequestFault \<Rightarrow>
             (let (outcome, until) = attemptOutcome ''request_fault'' headerExhausted headerRetiredUntil
              in (Some (WalkFailed (Some key) failure),
                  recordCredentialAttempt call key index outcome evidence observedAt until s))
         | CredentialHealthy \<Rightarrow>
             (let (outcome, until) = attemptOutcome ''healthy_failure'' headerExhausted headerRetiredUntil;
                  s = recordCredentialAttempt call key index outcome evidence observedAt until s;
                  s = (if po_customerOwned (ws_pool s) then s
                       else s\<lparr>ws_sequence := markTransient (po_provider (ws_pool s)) (lk_ID key) (ws_sequence s)\<rparr>);
                  (allowed, attempt) = AllowThrottleRotation (ws_pool s) (ws_attempt s)
              in if ThrottledFailure failure \<and> allowed
                 then (None, s\<lparr>ws_attempt := attempt, ws_refused := Some (failure, key)\<rparr>)
                 else (Some (WalkFailed (Some key) failure), s)))"

definition conclude_exchange ::
  "walk_call \<Rightarrow> leased_key \<Rightarrow> nat \<Rightarrow> instant \<Rightarrow> pool_op list \<Rightarrow> 'v exchange \<Rightarrow> walk_state \<Rightarrow>
   'v walk_outcome option \<times> walk_state" where
  "conclude_exchange call key index observedAt others result s =
     (let ((headerExhausted, headerRetiredUntil), pool) =
            observe (lk_Position key) (ex_Header result) observedAt (ws_pool s);
          s = s\<lparr>ws_pool := apply_pool_ops others pool\<rparr>
      in if ex_Accepted result then
           (let (outcome, until) = (if headerExhausted then (''exhausted'', headerRetiredUntil) else (''accepted'', zero_time));
                evidence = (if headerExhausted then ''quota_header'' else ''response_status'');
                s = recordCredentialAttempt call key index outcome evidence observedAt until s;
                s = (if headerExhausted then s
                     else s\<lparr>ws_pool := markUsable (lk_Position key) evidence observedAt (ws_pool s)\<rparr>)
            in (Some (WalkAccepted (ex_Value result) key), s))
         else conclude_failure call key index headerExhausted headerRetiredUntil observedAt (ex_Failure result) s)"

definition walk_exchange ::
  "'v walk_env \<Rightarrow> walk_call \<Rightarrow> leased_key \<Rightarrow> walk_state \<Rightarrow> 'v walk_outcome option \<times> walk_state" where
  "walk_exchange env call key s0 =
     (let i = ws_turn s0;
          (index, sequence) = Take (ws_sequence s0);
          result = we_exchange env i key;
          observedAt = we_observed env i;
          s = s0\<lparr>ws_sequence := sequence, ws_exchanges := (i, key) # ws_exchanges s0,
                 ws_turn := i + 1, ws_pool := apply_pool_ops (we_others env i 2) (ws_pool s0)\<rparr>
      in if ex_Transport result then
           (let s = recordCredentialAttempt call key index ''transport_failure'' ''transport'' observedAt zero_time s
            in (Some (WalkFailed (Some key) (ex_Failure result)),
                s\<lparr>ws_sequence := markTransient (po_provider (ws_pool s)) (lk_ID key) (ws_sequence s)\<rparr>))
         else conclude_exchange call key index observedAt (we_others env i 3) result s)"

text \<open>
  A leased key that was retired is exchanged only when the durable runtime says so. The turn
  counter counts the turns of the loop.
\<close>

definition walk_claim ::
  "'v walk_env \<Rightarrow> walk_call \<Rightarrow> leased_key \<Rightarrow> walk_state \<Rightarrow> 'v walk_outcome option \<times> walk_state" where
  "walk_claim env call key s =
     (if lk_recovery key \<and> lk_runtime key then
        (case we_claim env (ws_turn s) key of
           Inl err \<Rightarrow> (Some (WalkFailed (Some key) (ErrWrapped ''provider: claiming credential recovery'' err)), s)
         | Inr CredentialRecoveryClaimed \<Rightarrow> walk_exchange env call key s
         | Inr CredentialRecoveryUsable \<Rightarrow>
             walk_exchange env call (key\<lparr>lk_recovery := False\<rparr>)
               (s\<lparr>ws_pool := pool_recover (lk_Position key) (ws_pool s)\<rparr>)
         | Inr CredentialRecoveryBusy \<Rightarrow> (None, s\<lparr>ws_turn := ws_turn s + 1\<rparr>)
         | Inr (OtherDecision d) \<Rightarrow>
             (Some (WalkFailed (Some key) (ErrOther (''provider: credential recovery returned '' @ d))), s))
      else walk_exchange env call key s)"

text \<open>One turn of the loop.\<close>

definition walk_step ::
  "'v walk_env \<Rightarrow> walk_call \<Rightarrow> walk_state \<Rightarrow> 'v walk_outcome option \<times> walk_state" where
  "walk_step env call s =
     (let i = ws_turn s; now = we_now env i;
          pool = apply_pool_ops (we_others env i 0) (ws_pool s);
          avoid = failedTransiently (ws_sequence s) (po_provider pool)
      in case Next avoid (ws_attempt s) now pool of
           None \<Rightarrow>
             (Some (case ws_refused s of
                      Some (failure, key) \<Rightarrow> WalkFailed (Some key) failure
                    | None \<Rightarrow> WalkFailed None (ErrUpstream (NoUsableCredential pool (ka_view (ws_attempt s)) now))),
              s\<lparr>ws_pool := pool\<rparr>)
         | Some (key, attempt) \<Rightarrow>
             walk_claim env call key
               (s\<lparr>ws_pool := apply_pool_ops (we_others env i 1) pool, ws_attempt := attempt\<rparr>))"

section \<open>What one turn does\<close>

definition new_record :: "walk_call \<Rightarrow> leased_key \<Rightarrow> nat \<Rightarrow> walk_state \<Rightarrow> walk_state \<Rightarrow> bool" where
  "new_record call key index s s' \<longleftrightarrow>
     (if \<not> lk_runtime key \<or> wc_RequestID call = '''' then ws_records s' = ws_records s
      else \<exists>a. ws_records s' = ws_records s @ [a] \<and> ca_Index a = index \<and> ca_KeyID a = lk_ID key)"

text \<open>What every exchange changes of the walk's own state, and what it leaves alone.\<close>

definition exchange_effect ::
  "'v walk_env \<Rightarrow> walk_call \<Rightarrow> leased_key \<Rightarrow> walk_state \<Rightarrow> 'v walk_outcome option \<Rightarrow> walk_state \<Rightarrow> bool" where
  "exchange_effect env call key s out s' \<longleftrightarrow>
     pool_static (ws_pool s') = pool_static (ws_pool s) \<and>
     ka_tried (ws_attempt s') = ka_tried (ws_attempt s) \<and> ka_view (ws_attempt s') = ka_view (ws_attempt s) \<and>
     ws_exchanges s' = (ws_turn s, key) # ws_exchanges s \<and>
     sq_next (ws_sequence s') = sq_next (ws_sequence s) + 1 \<and>
     new_record call key (sq_next (ws_sequence s)) s s' \<and>
     (case out of
        None \<Rightarrow> ws_refused s' = Some (ex_Failure (we_exchange env (ws_turn s) key), key) \<and>
                \<not> ex_Accepted (we_exchange env (ws_turn s) key)
      | Some (WalkFailed k e) \<Rightarrow> k = Some key \<and> e = ex_Failure (we_exchange env (ws_turn s) key)
      | Some (WalkAccepted v k) \<Rightarrow>
          k = key \<and> v = ex_Value (we_exchange env (ws_turn s) key) \<and>
          ex_Accepted (we_exchange env (ws_turn s) key) \<and> \<not> ex_Transport (we_exchange env (ws_turn s) key))"

lemma recordCredentialAttempt_simps [simp]:
  "ws_pool (recordCredentialAttempt call key i out ev t u s) = ws_pool s"
  "ws_attempt (recordCredentialAttempt call key i out ev t u s) = ws_attempt s"
  "ws_sequence (recordCredentialAttempt call key i out ev t u s) = ws_sequence s"
  "ws_exchanges (recordCredentialAttempt call key i out ev t u s) = ws_exchanges s"
  "ws_refused (recordCredentialAttempt call key i out ev t u s) = ws_refused s"
  "ws_turn (recordCredentialAttempt call key i out ev t u s) = ws_turn s"
  by (simp_all add: recordCredentialAttempt_def)

lemma recordCredentialAttempt_records:
  "ws_records (recordCredentialAttempt call key i out ev t u s) =
     (if \<not> lk_runtime key \<or> wc_RequestID call = '''' then ws_records s
      else ws_records s @
        [\<lparr>ca_RequestID = wc_RequestID call, ca_DeploymentID = wc_DeploymentID call, ca_Index = i,
          ca_Provider = wc_Provider call, ca_KeyID = lk_ID key, ca_Outcome = out, ca_Evidence = ev,
          ca_OccurredAt = t, ca_RetiredUntil = u\<rparr>])"
  by (simp add: recordCredentialAttempt_def)

lemma observe_cases:
  obtains h u p where "observe position header t pool = ((h, u), p)" and "pool_static p = pool_static pool"
  using observe_static [of position header t pool] by (cases "observe position header t pool") auto

lemma markTransient_next [simp]: "sq_next (markTransient slug k s) = sq_next s"
  by (simp add: markTransient_def)

lemma new_record_recorded:
  "ws_records s' = ws_records (recordCredentialAttempt call key i out ev t u s0) \<Longrightarrow> ws_records s0 = ws_records s \<Longrightarrow>
   new_record call key i s s'"
  by (simp add: new_record_def recordCredentialAttempt_records)

lemma conclude_failure_effect:
  assumes "conclude_failure call key index h u t failure s = (out, s')"
  shows "pool_static (ws_pool s') = pool_static (ws_pool s) \<and>
    ka_tried (ws_attempt s') = ka_tried (ws_attempt s) \<and> ka_view (ws_attempt s') = ka_view (ws_attempt s) \<and>
    ws_exchanges s' = ws_exchanges s \<and> sq_next (ws_sequence s') = sq_next (ws_sequence s) \<and>
    new_record call key index s s' \<and> ws_turn s' = ws_turn s \<and>
    (case out of None \<Rightarrow> ws_refused s' = Some (failure, key)
     | Some r \<Rightarrow> r = WalkFailed (Some key) failure)"
proof (cases "CredentialVerdictFor failure")
  case CredentialHealthy
  obtain outcome until where o: "attemptOutcome ''healthy_failure'' h u = (outcome, until)" by fastforce
  obtain allowed attempt where al: "AllowThrottleRotation (ws_pool s) (ws_attempt s) = (allowed, attempt)" by fastforce
  have "ka_tried attempt = ka_tried (ws_attempt s) \<and> ka_view attempt = ka_view (ws_attempt s)"
    using al by (auto simp: AllowThrottleRotation_def split: if_splits)
  with assms CredentialHealthy o al show ?thesis
    by (cases "ThrottledFailure failure \<and> allowed"; cases "po_customerOwned (ws_pool s)")
      (auto simp: conclude_failure_def Let_def intro: new_record_recorded)
qed (use assms in \<open>auto simp: conclude_failure_def retire_and_move_def Let_def attemptOutcome_def
      intro: new_record_recorded split: if_splits\<close>)

lemma conclude_exchange_effect:
  assumes "conclude_exchange call key index t others result s = (out, s')"
  shows "pool_static (ws_pool s') = pool_static (ws_pool s) \<and>
    ka_tried (ws_attempt s') = ka_tried (ws_attempt s) \<and> ka_view (ws_attempt s') = ka_view (ws_attempt s) \<and>
    ws_exchanges s' = ws_exchanges s \<and> sq_next (ws_sequence s') = sq_next (ws_sequence s) \<and>
    new_record call key index s s' \<and> ws_turn s' = ws_turn s \<and>
    (case out of None \<Rightarrow> ws_refused s' = Some (ex_Failure result, key) \<and> \<not> ex_Accepted result
     | Some (WalkFailed k e) \<Rightarrow> k = Some key \<and> e = ex_Failure result
     | Some (WalkAccepted v k) \<Rightarrow> k = key \<and> v = ex_Value result \<and> ex_Accepted result)"
proof -
  obtain h u p where o: "observe (lk_Position key) (ex_Header result) t (ws_pool s) = ((h, u), p)"
    and p: "pool_static p = pool_static (ws_pool s)" by (rule observe_cases)
  show ?thesis
  proof (cases "ex_Accepted result")
    case True
    with assms p show ?thesis
      by (cases h) (auto simp: conclude_exchange_def o Let_def new_record_def recordCredentialAttempt_records)
  next
    case False
    with assms have "conclude_failure call key index h u t (ex_Failure result)
        (s\<lparr>ws_pool := apply_pool_ops others p\<rparr>) = (out, s')"
      by (simp add: conclude_exchange_def o Let_def)
    from conclude_failure_effect [OF this] False p show ?thesis
      by (auto simp: new_record_def split: option.splits)
  qed
qed

lemma walk_exchange_effect:
  assumes "walk_exchange env call key s = (out, s')"
  shows "exchange_effect env call key s out s'"
proof (cases "ex_Transport (we_exchange env (ws_turn s) key)")
  case True
  with assms show ?thesis
    by (auto simp: walk_exchange_def exchange_effect_def Take_def Let_def new_record_def
        recordCredentialAttempt_records)
next
  case False
  let ?s = "s\<lparr>ws_sequence := snd (Take (ws_sequence s)), ws_exchanges := (ws_turn s, key) # ws_exchanges s,
      ws_turn := ws_turn s + 1, ws_pool := apply_pool_ops (we_others env (ws_turn s) 2) (ws_pool s)\<rparr>"
  have "conclude_exchange call key (sq_next (ws_sequence s)) (we_observed env (ws_turn s))
      (we_others env (ws_turn s) 3) (we_exchange env (ws_turn s) key) ?s = (out, s')"
    using assms False by (simp add: walk_exchange_def Let_def Take_def)
  from conclude_exchange_effect [OF this] False show ?thesis
    by (auto simp: exchange_effect_def Take_def new_record_def split: option.splits walk_outcome.splits)
qed

lemma Next_SomeD:
  assumes "Next avoid a t p = Some (k, a')"
  shows "\<exists>x \<in> set (po_keys p). k = lease p x \<and> in_view (ka_view a) x \<and> pk_position x \<notin> set (ka_tried a) \<and>
    ka_tried a' = pk_position x # ka_tried a \<and> ka_view a' = ka_view a \<and>
    ka_throttleRotations a' = ka_throttleRotations a"
proof -
  from assms obtain x where "next_key avoid a t True p = Some x" "k = lease p x"
    "a' = a\<lparr>ka_tried := pk_position x # ka_tried a\<rparr>"
    by (auto simp: Next_def attempt_next_def split: option.splits)
  with next_key_leasable [OF this(1)] show ?thesis by (auto simp: leasable_def is_member_def)
qed

text \<open>A claimed turn ends in a refusal of the claim, in a busy key passed over, or in an exchange.\<close>

definition same_key :: "leased_key \<Rightarrow> leased_key \<Rightarrow> bool" where
  "same_key k k' \<longleftrightarrow> k' = k \<or> k' = k\<lparr>lk_recovery := False\<rparr>"

lemma same_key_fields:
  "same_key k k' \<Longrightarrow> lk_Position k' = lk_Position k \<and> lk_ID k' = lk_ID k \<and> lk_Funding k' = lk_Funding k \<and>
     lk_runtime k' = lk_runtime k"
  by (auto simp: same_key_def)

definition claim_refused :: "'v walk_env \<Rightarrow> leased_key \<Rightarrow> go_error \<Rightarrow> bool" where
  "claim_refused env k e \<longleftrightarrow>
     lk_runtime k \<and> lk_recovery k \<and>
     (\<exists>i. (\<exists>err. we_claim env i k = Inl err \<and> e = ErrWrapped ''provider: claiming credential recovery'' err) \<or>
          (\<exists>d. we_claim env i k = Inr (OtherDecision d) \<and>
               e = ErrOther (''provider: credential recovery returned '' @ d)))"

lemma walk_claim_cases:
  assumes "walk_claim env call key s = (out, s')"
  obtains
    (refused) e where "out = Some (WalkFailed (Some key) e)" "s' = s" "claim_refused env key e"
  | (busy) "out = None" "s' = s\<lparr>ws_turn := ws_turn s + 1\<rparr>"
  | (exchanged) key' pool where "same_key key key'" "pool_static pool = pool_static (ws_pool s)"
      "exchange_effect env call key' (s\<lparr>ws_pool := pool\<rparr>) out s'"
proof (cases "lk_recovery key \<and> lk_runtime key")
  case False
  with assms have "walk_exchange env call key s = (out, s')" by (auto simp: walk_claim_def)
  from walk_exchange_effect [OF this] show thesis
    by (intro exchanged [of key "ws_pool s"]) (simp_all add: same_key_def)
next
  case True
  note d = assms [unfolded walk_claim_def, simplified True]
  show thesis
  proof (cases "we_claim env (ws_turn s) key")
    case (Inl err)
    with d True show thesis by (intro refused) (auto simp: claim_refused_def)
  next
    case (Inr decision)
    show thesis
    proof (cases decision)
      case CredentialRecoveryClaimed
      with d Inr have "walk_exchange env call key s = (out, s')" by simp
      from walk_exchange_effect [OF this] show thesis
        by (intro exchanged [of key "ws_pool s"]) (simp_all add: same_key_def)
    next
      case CredentialRecoveryUsable
      with d Inr have "walk_exchange env call (key\<lparr>lk_recovery := False\<rparr>)
          (s\<lparr>ws_pool := pool_recover (lk_Position key) (ws_pool s)\<rparr>) = (out, s')" by simp
      from walk_exchange_effect [OF this] show thesis
        by (intro exchanged [of "key\<lparr>lk_recovery := False\<rparr>"]) (simp_all add: same_key_def)
    qed (use d Inr True busy refused in \<open>auto simp: claim_refused_def\<close>)
  qed
qed

definition untried_keys :: "walk_state \<Rightarrow> nat" where
  "untried_keys s = pool_leases.untried (ws_attempt s) (ws_pool s)"

lemma walk_step_decreases:
  assumes "walk_step env call s = (None, s')"
  shows "untried_keys s' < untried_keys s"
proof -
  let ?pool = "apply_pool_ops (we_others env (ws_turn s) 0) (ws_pool s)"
  let ?pool1 = "apply_pool_ops (we_others env (ws_turn s) 1) ?pool"
  from assms obtain key attempt where n: "Next (failedTransiently (ws_sequence s) (po_provider ?pool))
      (ws_attempt s) (we_now env (ws_turn s)) ?pool = Some (key, attempt)"
    and c: "walk_claim env call key (s\<lparr>ws_pool := ?pool1, ws_attempt := attempt\<rparr>) = (None, s')"
    by (auto simp: walk_step_def Let_def split: option.splits)
  from c have "pool_static (ws_pool s') = pool_static (ws_pool s)" "ka_tried (ws_attempt s') = ka_tried attempt"
    by (cases rule: walk_claim_cases; simp add: exchange_effect_def)+
  then show ?thesis
    using pool_leases.untried_decreases [OF n [unfolded Next_def], of "ws_pool s" "ws_pool s'" "ws_attempt s'"]
      static_maps(1) [of ?pool "ws_pool s"] static_maps(1) [of "ws_pool s'" "ws_pool s"]
    by (simp add: untried_keys_def key_positions_def)
qed

text \<open>
  The loop. Every turn that goes on has leased a key the request had not used, so the loop ends
  after at most as many turns as the pool has keys.
\<close>

function walk_loop ::
  "'v walk_env \<Rightarrow> walk_call \<Rightarrow> walk_state \<Rightarrow> 'v walk_outcome \<times> walk_state" where
  "walk_loop env call s =
     (case walk_step env call s of
        (Some out, s') \<Rightarrow> (out, s')
      | (None, s') \<Rightarrow> walk_loop env call s')"
  by pat_completeness auto
termination
  by (relation "measure (\<lambda>(env, call, s). untried_keys s)") (auto intro: walk_step_decreases [OF sym])

declare walk_loop.simps [simp del]

definition walk_start :: "key_pool \<Rightarrow> key_view \<Rightarrow> attempt_sequence \<Rightarrow> walk_state" where
  "walk_start pool view sequence =
     \<lparr>ws_pool = pool, ws_attempt = Begin view, ws_sequence = sequence, ws_refused = None,
      ws_records = [], ws_exchanges = [], ws_turn = 0\<rparr>"

definition WalkAttempts ::
  "'v walk_env \<Rightarrow> walk_call \<Rightarrow> key_pool \<Rightarrow> key_view \<Rightarrow> attempt_sequence \<Rightarrow> 'v walk_outcome \<times> walk_state" where
  "WalkAttempts env call pool view sequence = walk_loop env call (walk_start pool view sequence)"

section \<open>Invariants of the walk\<close>

definition lease_in_view :: "key_view \<Rightarrow> leased_key \<Rightarrow> bool" where
  "lease_in_view view k \<longleftrightarrow>
     (kv_onlyKeyID view = '''' \<or> lk_ID k = kv_onlyKeyID view) \<and> Admits (kv_ceiling view) (lk_Funding k)"

definition used_positions :: "walk_state \<Rightarrow> int list" where
  "used_positions s = map (\<lambda>(_, k). lk_Position k) (ws_exchanges s)"

definition walk_log :: "key_pool \<Rightarrow> key_view \<Rightarrow> nat \<Rightarrow> walk_state \<Rightarrow> bool" where
  "walk_log p0 view n0 s \<longleftrightarrow>
     pool_static (ws_pool s) = pool_static p0 \<and> ka_view (ws_attempt s) = view \<and>
     distinct (used_positions s) \<and> set (used_positions s) \<subseteq> set (ka_tried (ws_attempt s)) \<and>
     set (used_positions s) \<subseteq> set (key_positions p0) \<and>
     (\<forall>(_, k) \<in> set (ws_exchanges s). lease_in_view view k) \<and>
     sq_next (ws_sequence s) = n0 + length (ws_exchanges s) \<and>
     sorted_wrt (<) (map ca_Index (ws_records s)) \<and>
     (\<forall>a \<in> set (ws_records s). n0 \<le> ca_Index a \<and> ca_Index a < sq_next (ws_sequence s))"

definition refused_last :: "'v walk_env \<Rightarrow> walk_state \<Rightarrow> bool" where
  "refused_last env s \<longleftrightarrow>
     (case ws_refused s of
        None \<Rightarrow> ws_exchanges s = []
      | Some (e, k) \<Rightarrow> \<exists>j rest. ws_exchanges s = (j, k) # rest \<and> e = ex_Failure (we_exchange env j k))"

text \<open>How the outcome of the walk is determined by its last exchange.\<close>

fun outcome_ok :: "'v walk_env \<Rightarrow> walk_state \<Rightarrow> 'v walk_outcome \<Rightarrow> bool" where
  "outcome_ok env s (WalkAccepted v k) \<longleftrightarrow>
     (\<exists>j rest. ws_exchanges s = (j, k) # rest \<and> v = ex_Value (we_exchange env j k) \<and>
        ex_Accepted (we_exchange env j k) \<and> \<not> ex_Transport (we_exchange env j k))"
| "outcome_ok env s (WalkFailed None e) \<longleftrightarrow>
     ws_exchanges s = [] \<and> (\<exists>t. e = ErrUpstream (NoUsableCredential (ws_pool s) (ka_view (ws_attempt s)) t))"
| "outcome_ok env s (WalkFailed (Some k) e) \<longleftrightarrow>
     (\<exists>j rest. ws_exchanges s = (j, k) # rest \<and> e = ex_Failure (we_exchange env j k)) \<or>
     claim_refused env k e \<and> lk_Position k \<notin> set (used_positions s)"

lemma refused_last_updates [simp]:
  "refused_last env (s\<lparr>ws_pool := p\<rparr>) = refused_last env s"
  "refused_last env (s\<lparr>ws_attempt := a\<rparr>) = refused_last env s"
  "refused_last env (s\<lparr>ws_turn := i\<rparr>) = refused_last env s"
  by (simp_all add: refused_last_def split: option.split)

lemma walk_log_start: "walk_log pool view (sq_next q) (walk_start pool view q)"
  by (simp add: walk_log_def walk_start_def Begin_def used_positions_def)

lemma exchange_log:
  assumes "walk_log p0 view n0 s" and "exchange_effect env call key s out s'"
    and "lk_Position key \<notin> set (used_positions s)" and "lk_Position key \<in> set (ka_tried (ws_attempt s))"
    and "lk_Position key \<in> set (key_positions p0)" and "lease_in_view view key"
  shows "walk_log p0 view n0 s'"
  using assms unfolding walk_log_def exchange_effect_def new_record_def
  by (auto simp: used_positions_def sorted_wrt_append less_Suc_eq split: if_splits)

lemma exchange_outcome:
  assumes "exchange_effect env call key s out s'"
  shows "(case out of None \<Rightarrow> refused_last env s' | Some r \<Rightarrow> outcome_ok env s' r)"
  using assms unfolding exchange_effect_def refused_last_def
  by (cases out) (auto split: walk_outcome.splits)

lemma walk_claim_log:
  assumes "walk_claim env call key s = (out, s')" and "walk_log p0 view n0 s"
    and "lk_Position key \<notin> set (used_positions s)" and "lk_Position key \<in> set (ka_tried (ws_attempt s))"
    and "lk_Position key \<in> set (key_positions p0)" and "lease_in_view view key"
    and "refused_last env s"
  shows "walk_log p0 view n0 s' \<and> (case out of None \<Rightarrow> refused_last env s' | Some r \<Rightarrow> outcome_ok env s' r)"
  using assms(1)
proof (cases rule: walk_claim_cases)
  case (refused e)
  with assms(2,3) show ?thesis by simp
next
  case busy
  have "walk_log p0 view n0 s' = walk_log p0 view n0 s" "refused_last env s' = refused_last env s"
    by (simp_all add: busy walk_log_def used_positions_def)
  with assms(2,7) busy show ?thesis by simp
next
  case (exchanged key' pool)
  have "walk_log p0 view n0 (s\<lparr>ws_pool := pool\<rparr>)"
    using assms(2) exchanged(2) by (auto simp: walk_log_def used_positions_def)
  from exchange_log [OF this exchanged(3)] assms(3-6) same_key_fields [OF exchanged(1)]
  have "walk_log p0 view n0 s'" by (simp add: used_positions_def lease_in_view_def)
  with exchange_outcome [OF exchanged(3)] show ?thesis by simp
qed

lemma walk_step_log:
  assumes "walk_step env call s = (out, s')" and "walk_log p0 view n0 s" and "refused_last env s"
  shows "walk_log p0 view n0 s' \<and> (case out of None \<Rightarrow> refused_last env s' | Some r \<Rightarrow> outcome_ok env s' r)"
proof -
  let ?pool = "apply_pool_ops (we_others env (ws_turn s) 0) (ws_pool s)"
  let ?next = "Next (failedTransiently (ws_sequence s) (po_provider ?pool)) (ws_attempt s)
    (we_now env (ws_turn s)) ?pool"
  show ?thesis
  proof (cases ?next)
    case None
    then have s': "s' = s\<lparr>ws_pool := ?pool\<rparr>" using assms(1) by (simp add: walk_step_def Let_def)
    then have "walk_log p0 view n0 s'" using assms(2) by (auto simp: walk_log_def used_positions_def)
    moreover have "case out of None \<Rightarrow> refused_last env s' | Some r \<Rightarrow> outcome_ok env s' r"
      using None assms(1,3) s'
      by (cases "ws_refused s") (auto simp: walk_step_def Let_def refused_last_def)
    ultimately show ?thesis ..
  next
    case (Some ka)
    obtain key attempt where ka: "ka = (key, attempt)" by (cases ka)
    let ?s = "s\<lparr>ws_pool := apply_pool_ops (we_others env (ws_turn s) 1) ?pool, ws_attempt := attempt\<rparr>"
    from Some assms(1) have c: "walk_claim env call key ?s = (out, s')" by (simp add: walk_step_def Let_def ka)
    from Next_SomeD [OF Some [unfolded ka]] obtain x where x: "x \<in> set (po_keys ?pool)" "key = lease ?pool x"
      "in_view (ka_view (ws_attempt s)) x" "pk_position x \<notin> set (ka_tried (ws_attempt s))"
      "ka_tried attempt = pk_position x # ka_tried (ws_attempt s)" "ka_view attempt = ka_view (ws_attempt s)" by blast
    have "pool_static ?pool = pool_static p0" using assms(2) by (simp add: walk_log_def)
    from static_maps(1) [OF this] x(1) have "pk_position x \<in> set (key_positions p0)"
      unfolding key_positions_def by (metis image_eqI list.set_map)
    with x assms(2,3) show ?thesis
      by (intro walk_claim_log [OF c])
        (auto simp: walk_log_def lease_def used_positions_def lease_in_view_def in_view_def in_pin_def)
  qed
qed

lemma walk_loop_log:
  "walk_log p0 view n0 s \<Longrightarrow> refused_last env s \<Longrightarrow> walk_loop env call s = (out, s') \<Longrightarrow>
   walk_log p0 view n0 s' \<and> outcome_ok env s' out"
proof (induction env call s rule: walk_loop.induct)
  case (1 env call s)
  obtain o1 s1 where st: "walk_step env call s = (o1, s1)" by force
  note step = walk_step_log [OF st "1.prems"(1,2)]
  show ?case
  proof (cases o1)
    case None
    with "1.prems"(3) st have "walk_loop env call s1 = (out, s')" by (simp add: walk_loop.simps [of env call s])
    with "1.IH" [OF st [symmetric] None] step None show ?thesis by auto
  next
    case (Some r)
    with "1.prems"(3) st step show ?thesis by (simp add: walk_loop.simps [of env call s])
  qed
qed

lemma WalkAttempts_log:
  assumes "WalkAttempts env call pool view q = (out, s)"
  shows "walk_log pool view (sq_next q) s \<and> outcome_ok env s out"
  using assms unfolding WalkAttempts_def
  by (rule walk_loop_log [OF walk_log_start, rotated]) (simp add: refused_last_def walk_start_def)

section \<open>What takes a key out of rotation\<close>

text \<open>
  The keys an exchange reported spent or refused: by a quota header, or by a failure with such a
  verdict.
\<close>

definition reports_spent :: "'v walk_env \<Rightarrow> quota_headers \<Rightarrow> nat \<times> leased_key \<Rightarrow> bool" where
  "reports_spent env signals x \<longleftrightarrow>
     (let r = we_exchange env (fst x) (snd x)
      in \<not> ex_Transport r \<and>
         (qo_State (quota_Read signals (ex_Header r)) = QuotaExhausted \<or>
          \<not> ex_Accepted r \<and> CredentialVerdictFor (ex_Failure r) \<in> {CredentialExhausted, CredentialRejected}))"

definition reported_positions :: "'v walk_env \<Rightarrow> quota_headers \<Rightarrow> walk_state \<Rightarrow> int set" where
  "reported_positions env signals s = (\<lambda>x. lk_Position (snd x)) ` {x \<in> set (ws_exchanges s). reports_spent env signals x}"

text \<open>A key outside those positions is as it was before, or marked usable.\<close>

definition retirement_kept :: "int set \<Rightarrow> pooled_key \<Rightarrow> pooled_key \<Rightarrow> bool" where
  "retirement_kept R x y \<longleftrightarrow>
     pk_position y = pk_position x \<and>
     (pk_position x \<in> R \<or> pk_reason y = NoReason \<and> pk_retiredUntil y = zero_time \<or>
      pk_reason y = pk_reason x \<and> pk_retiredUntil y = pk_retiredUntil x)"

definition pool_kept :: "int set \<Rightarrow> key_pool \<Rightarrow> key_pool \<Rightarrow> bool" where
  "pool_kept R p0 p \<longleftrightarrow> list_all2 (retirement_kept R) (po_keys p0) (po_keys p)"

lemma list_all2_update_key:
  "list_all2 P xs ys \<Longrightarrow> (\<And>x y. P x y \<Longrightarrow> pk_position y = i \<Longrightarrow> P x (f y)) \<Longrightarrow>
   list_all2 P xs (update_key i f ys)"
  by (induction xs ys rule: list_all2_induct) auto

lemma pool_kept_refl: "pool_kept R p p"
  by (simp add: pool_kept_def retirement_kept_def list_all2_same)

lemma pool_kept_mono: "pool_kept R p0 p \<Longrightarrow> R \<subseteq> S \<Longrightarrow> pool_kept S p0 p"
  unfolding pool_kept_def by (erule list_all2_mono) (auto simp: retirement_kept_def)

lemma pool_kept_ops:
  "pool_kept R p0 p \<Longrightarrow> pool_kept R p0 (markUsable i ev t p)"
  "pool_kept R p0 p \<Longrightarrow> pool_kept R p0 (pool_recover i p)"
  "pool_kept R p0 p \<Longrightarrow> pool_kept R p0 (set_evidence i ev p)"
  "pool_kept R p0 p \<Longrightarrow> i \<in> R \<Longrightarrow> pool_kept R p0 (Retire i reason t u p)"
  unfolding pool_kept_def pool_recover_def markUsable_def set_evidence_def Retire_def
  by (auto intro!: list_all2_update_key simp: retirement_kept_def)

lemma pool_kept_observe:
  "pool_kept R p0 p \<Longrightarrow> (qo_State (quota_Read (po_signals p) h) = QuotaExhausted \<Longrightarrow> i \<in> R) \<Longrightarrow>
   pool_kept R p0 (snd (observe i h t p))"
  by (simp add: observe_def Let_def pool_kept_ops)

lemma conclude_failure_kept:
  assumes "conclude_failure call key index h u t failure s = (out, s')" and "pool_kept R p0 (ws_pool s)"
    and "CredentialVerdictFor failure \<in> {CredentialExhausted, CredentialRejected} \<Longrightarrow> lk_Position key \<in> R"
  shows "pool_kept R p0 (ws_pool s')"
  using assms
  by (cases "CredentialVerdictFor failure")
    (auto simp: conclude_failure_def retire_and_move_def Let_def attemptOutcome_def AllowThrottleRotation_def
      pool_kept_ops split: if_splits)

lemma conclude_exchange_kept:
  assumes "conclude_exchange call key index t [] result s = (out, s')" and "pool_kept R p0 (ws_pool s)"
    and "qo_State (quota_Read (po_signals (ws_pool s)) (ex_Header result)) = QuotaExhausted \<Longrightarrow> lk_Position key \<in> R"
    and "\<not> ex_Accepted result \<Longrightarrow> CredentialVerdictFor (ex_Failure result) \<in> {CredentialExhausted, CredentialRejected} \<Longrightarrow>
      lk_Position key \<in> R"
  shows "pool_kept R p0 (ws_pool s')"
proof -
  obtain h u p where o: "observe (lk_Position key) (ex_Header result) t (ws_pool s) = ((h, u), p)" by (metis surj_pair)
  have "pool_kept R p0 (snd (observe (lk_Position key) (ex_Header result) t (ws_pool s)))"
    by (rule pool_kept_observe [OF assms(2)]) (rule assms(3))
  then have p: "pool_kept R p0 p" by (simp add: o)
  show ?thesis
  proof (cases "ex_Accepted result")
    case True
    with assms(1) p show ?thesis
      by (cases h) (auto simp: conclude_exchange_def o Let_def apply_pool_ops_def pool_kept_ops)
  next
    case False
    with assms(1) have "conclude_failure call key index h u t (ex_Failure result) (s\<lparr>ws_pool := p\<rparr>) = (out, s')"
      by (simp add: conclude_exchange_def o Let_def apply_pool_ops_def)
    then show ?thesis by (rule conclude_failure_kept) (use p False assms(4) in auto)
  qed
qed

lemma walk_exchange_kept:
  assumes "walk_exchange env call key s = (out, s')" and "we_others env = (\<lambda>i j. [])"
    and "pool_kept (reported_positions env (po_signals (ws_pool s)) s) p0 (ws_pool s)"
  shows "pool_kept (reported_positions env (po_signals (ws_pool s)) s') p0 (ws_pool s')"
proof -
  let ?R = "reported_positions env (po_signals (ws_pool s)) s'"
  have ex: "ws_exchanges s' = (ws_turn s, key) # ws_exchanges s"
    using walk_exchange_effect [OF assms(1)] by (simp add: exchange_effect_def)
  then have kept: "pool_kept ?R p0 (ws_pool s)"
    by (intro pool_kept_mono [OF assms(3)]) (auto simp: reported_positions_def)
  have R: "reports_spent env (po_signals (ws_pool s)) (ws_turn s, key) \<Longrightarrow> lk_Position key \<in> ?R"
    by (force simp: reported_positions_def ex)
  show ?thesis
  proof (cases "ex_Transport (we_exchange env (ws_turn s) key)")
    case True
    with assms(1) kept show ?thesis
      by (auto simp: walk_exchange_def Let_def Take_def assms(2) apply_pool_ops_def)
  next
    case False
    let ?s = "s\<lparr>ws_sequence := snd (Take (ws_sequence s)), ws_exchanges := (ws_turn s, key) # ws_exchanges s,
        ws_turn := ws_turn s + 1\<rparr>"
    have "conclude_exchange call key (sq_next (ws_sequence s)) (we_observed env (ws_turn s)) []
        (we_exchange env (ws_turn s) key) ?s = (out, s')"
      using assms(1,2) False by (simp add: walk_exchange_def Let_def Take_def apply_pool_ops_def)
    then show ?thesis
      by (rule conclude_exchange_kept) (use kept R False in \<open>auto simp: reports_spent_def Let_def\<close>)
  qed
qed

lemma walk_claim_kept:
  assumes "walk_claim env call key s = (out, s')" and "we_others env = (\<lambda>i j. [])"
    and "pool_kept (reported_positions env (po_signals (ws_pool s)) s) p0 (ws_pool s)"
  shows "pool_kept (reported_positions env (po_signals (ws_pool s)) s') p0 (ws_pool s')"
proof -
  have usable: "pool_kept (reported_positions env (po_signals (ws_pool s)) s') p0 (ws_pool s')"
    if "walk_exchange env call k (s\<lparr>ws_pool := pool_recover (lk_Position key) (ws_pool s)\<rparr>) = (out, s')" for k
    using walk_exchange_kept [OF that assms(2), of p0] assms(3)
      static_fields [OF pool_ops_static(4), of "lk_Position key" "ws_pool s"]
    by (simp add: pool_kept_ops reported_positions_def)
  show ?thesis
    using assms walk_exchange_kept [OF _ assms(2,3), of call key out s'] usable
    by (auto simp: walk_claim_def reported_positions_def split: if_splits sum.splits recovery_decision.splits)
qed

lemma walk_step_static:
  assumes "walk_step env call s = (out, s')"
  shows "pool_static (ws_pool s') = pool_static (ws_pool s)"
proof -
  let ?pool = "apply_pool_ops (we_others env (ws_turn s) 0) (ws_pool s)"
  have "walk_claim env call key (s\<lparr>ws_pool := apply_pool_ops ops ?pool, ws_attempt := a\<rparr>) = (out, s') \<Longrightarrow>
      pool_static (ws_pool s') = pool_static (ws_pool s)" for key ops a
    by (erule walk_claim_cases) (auto simp: exchange_effect_def)
  with assms show ?thesis by (auto simp: walk_step_def Let_def split: option.splits)
qed

lemma walk_step_kept:
  assumes "walk_step env call s = (out, s')" and "we_others env = (\<lambda>i j. [])"
    and "pool_kept (reported_positions env (po_signals (ws_pool s)) s) p0 (ws_pool s)"
  shows "pool_kept (reported_positions env (po_signals (ws_pool s)) s') p0 (ws_pool s')"
  using assms walk_claim_kept [of env call _ "s\<lparr>ws_attempt := _\<rparr>" out s' p0]
  by (auto simp: walk_step_def Let_def apply_pool_ops_def reported_positions_def split: option.splits)

lemma walk_loop_kept:
  assumes "walk_loop env call s = (out, s')" and "we_others env = (\<lambda>i j. [])"
    and "pool_kept (reported_positions env signals s) p0 (ws_pool s)" and "po_signals (ws_pool s) = signals"
  shows "pool_kept (reported_positions env signals s') p0 (ws_pool s')"
  using assms
proof (induction env call s rule: walk_loop.induct)
  case (1 env call s)
  obtain o1 s1 where st: "walk_step env call s = (o1, s1)" by force
  have sig: "po_signals (ws_pool s1) = signals"
    using static_fields [OF walk_step_static [OF st]] "1.prems"(4) by simp
  have kept: "pool_kept (reported_positions env signals s1) p0 (ws_pool s1)"
    using walk_step_kept [OF st "1.prems"(2)] "1.prems"(3,4) by simp
  show ?case
  proof (cases o1)
    case None
    with "1.prems"(1) st have "walk_loop env call s1 = (out, s')" by (simp add: walk_loop.simps [of env call s])
    with "1.IH" [OF st [symmetric] None] "1.prems"(2) sig kept show ?thesis by auto
  next
    case (Some r)
    with "1.prems"(1) st kept show ?thesis by (simp add: walk_loop.simps [of env call s])
  qed
qed

section \<open>Properties\<close>

text \<open>
  C2: Whatever the upstream answers, the runtime decides and other requests do to the shared pool
  meanwhile, a walk returns after at most as many upstream exchanges as the pool has keys; it
  uses no key twice, and every key it uses is within the operator's pin and the route's funding
  ceiling.
\<close>

theorem walk_uses_each_key_once_within_view:
  assumes "WalkAttempts env call pool view q = (out, s)"
  shows "distinct (used_positions s) \<and> set (used_positions s) \<subseteq> set (key_positions pool) \<and>
    length (ws_exchanges s) \<le> length (po_keys pool) \<and>
    (\<forall>(_, k) \<in> set (ws_exchanges s). lease_in_view view k)"
proof -
  have log: "walk_log pool view (sq_next q) s" using WalkAttempts_log [OF assms] ..
  then have d: "distinct (used_positions s)" and sub: "set (used_positions s) \<subseteq> set (key_positions pool)"
    by (simp_all add: walk_log_def)
  have "length (ws_exchanges s) = card (set (used_positions s))"
    using distinct_card [OF d] by (simp add: used_positions_def)
  also have "\<dots> \<le> card (set (key_positions pool))" using sub by (intro card_mono) auto
  also have "\<dots> \<le> length (po_keys pool)" using card_length by (metis key_positions_def length_map)
  finally show ?thesis using log d sub by (simp add: walk_log_def)
qed

definition billing_refused :: go_error where
  "billing_refused = ErrUpstream \<lparr>uf_Code = CodeProviderBillingRefused, uf_Category = UpstreamQuota,
     uf_Detail = ''billing'', uf_RetryAfterMs = 0, uf_Passthrough = None, uf_RecursOnThisRoute = False\<rparr>"

definition refusing_env :: "http_header option \<Rightarrow> unit walk_env" where
  "refusing_env header =
     \<lparr>we_now = (\<lambda>i. 1000000), we_observed = (\<lambda>i. 2000000), we_claim = (\<lambda>i k. Inr CredentialRecoveryBusy),
      we_exchange = (\<lambda>i k. \<lparr>ex_Header = header, ex_Accepted = False, ex_Failure = billing_refused,
                           ex_Transport = False, ex_Value = ()\<rparr>),
      we_others = (\<lambda>i j. [])\<rparr>"

definition demo_call :: walk_call where
  "demo_call = \<lparr>wc_RequestID = ''r'', wc_DeploymentID = ''d'', wc_Provider = ''acme''\<rparr>"

theorem walk_uses_each_key_once_within_view_witness:
  "\<exists>out s. WalkAttempts (refusing_env None) demo_call two_key_pool root_view new_sequence = (out, s) \<and>
     distinct (used_positions s) \<and> used_positions s = [1, 2]"
proof -
  obtain out s where w: "WalkAttempts (refusing_env None) demo_call two_key_pool root_view new_sequence = (out, s)"
    by force
  have "used_positions (snd (WalkAttempts (refusing_env None) demo_call two_key_pool root_view new_sequence)) = [1, 2]"
    by code_simp
  with w walk_uses_each_key_once_within_view [OF w] show ?thesis by auto
qed



text \<open>
  The attempts a walk records carry strictly increasing indexes taken from the request's
  sequence, which advances by exactly one per upstream exchange: no two exchanges of one request
  share an index.
\<close>

theorem walk_indexes_strictly_increase:
  assumes "WalkAttempts env call pool view q = (out, s)"
  shows "sorted_wrt (<) (map ca_Index (ws_records s)) \<and>
    (\<forall>a \<in> set (ws_records s). sq_next q \<le> ca_Index a \<and> ca_Index a < sq_next (ws_sequence s)) \<and>
    sq_next (ws_sequence s) = sq_next q + length (ws_exchanges s)"
  using WalkAttempts_log [OF assms] by (auto simp: walk_log_def)

theorem walk_indexes_strictly_increase_witness:
  "sq_next (ws_sequence (snd (WalkAttempts (refusing_env None) demo_call two_key_pool root_view
     \<lparr>sq_next = 3, sq_transient = []\<rparr>))) = 5"
proof -
  let ?w = "WalkAttempts (refusing_env None) demo_call two_key_pool root_view \<lparr>sq_next = 3, sq_transient = []\<rparr>"
  have "length (ws_exchanges (snd ?w)) = 2" by code_simp
  moreover obtain out s where w: "?w = (out, s)" by force
  ultimately show ?thesis using walk_indexes_strictly_increase [OF w] by simp
qed

text \<open>
  When a refusal that reports the account spent also carries the provider's own reset time,
  the key returns after the default window and not at that time: the retirement on the refusal
  overwrites the retirement the quota header had just made.
\<close>

theorem refusal_overwrites_reset_time:
  "let header = (\<lambda>name. if name = ''x-credits'' then ''0'' else if name = ''x-reset'' then ''4102444800'' else '''');
       reset = qo_ResetAt (quota_Read (po_signals two_key_pool) (Some header));
       (out, s) = WalkAttempts (refusing_env (Some header)) demo_call two_key_pool root_view new_sequence
   in map pk_retiredUntil (po_keys (ws_pool s)) = [2000000 + DefaultKeyRetirement, 2000000 + DefaultKeyRetirement] \<and>
      2000000 + DefaultKeyRetirement < reset"
  by code_simp

text \<open>
  C4: Absent other requests, a walk takes a key out of rotation only when an exchange with that
  key reported it: the provider's declared quota header read zero, or the adapter classified the
  failure as a billing refusal or a rejected credential. Throttles, timeouts, server errors,
  request faults and transport failures leave every key's retirement as it was.
\<close>

theorem walk_retires_only_reported_keys:
  assumes "WalkAttempts env call pool view q = (out, s)" and "we_others env = (\<lambda>i j. [])"
    and "n < length (po_keys pool)"
    and "pk_position (po_keys pool ! n) \<notin> reported_positions env (po_signals pool) s"
  shows "pk_reason (po_keys (ws_pool s) ! n) = NoReason \<and> pk_retiredUntil (po_keys (ws_pool s) ! n) = zero_time \<or>
    pk_reason (po_keys (ws_pool s) ! n) = pk_reason (po_keys pool ! n) \<and>
    pk_retiredUntil (po_keys (ws_pool s) ! n) = pk_retiredUntil (po_keys pool ! n)"
proof -
  have "pool_kept (reported_positions env (po_signals pool) s) pool (ws_pool s)"
    using assms(1) unfolding WalkAttempts_def
    by (rule walk_loop_kept [OF _ assms(2)]) (simp_all add: walk_start_def pool_kept_refl)
  then show ?thesis using assms(3,4) list_all2_nthD
    by (fastforce simp: pool_kept_def retirement_kept_def)
qed

definition throttling_env :: "unit walk_env" where
  "throttling_env =
     \<lparr>we_now = (\<lambda>i. 1000000), we_observed = (\<lambda>i. 2000000), we_claim = (\<lambda>i k. Inr CredentialRecoveryBusy),
      we_exchange = (\<lambda>i k. \<lparr>ex_Header = None, ex_Accepted = False,
         ex_Failure = ErrUpstream \<lparr>uf_Code = CodeRateLimited, uf_Category = UpstreamRateLimit, uf_Detail = ''slow'',
           uf_RetryAfterMs = 0, uf_Passthrough = None, uf_RecursOnThisRoute = False\<rparr>,
         ex_Transport = False, ex_Value = ()\<rparr>),
      we_others = (\<lambda>i j. [])\<rparr>"

theorem walk_retires_only_reported_keys_witness:
  "pk_retiredUntil (po_keys (ws_pool (snd (WalkAttempts throttling_env demo_call two_key_pool root_view
     new_sequence))) ! 0) = zero_time"
proof -
  let ?w = "WalkAttempts throttling_env demo_call two_key_pool root_view new_sequence"
  obtain out s where w: "?w = (out, s)" by force
  have "reported_positions throttling_env (po_signals two_key_pool) s = {}"
  proof -
    have "\<not> reports_spent throttling_env m x" for m x
      by (simp add: reports_spent_def throttling_env_def quota_Read_def CredentialVerdictFor_def)
    then show ?thesis by (simp add: reported_positions_def)
  qed
  moreover have "0 < length (po_keys two_key_pool)" "pk_retiredUntil (po_keys two_key_pool ! 0) = 0" by code_simp+
  moreover have "we_others throttling_env = (\<lambda>i j. [])" by (simp add: throttling_env_def)
  ultimately show ?thesis using walk_retires_only_reported_keys [OF w, of 0] by (auto simp: w)
qed

end
