(* ===== verification/Error_Contract.thy ===== *)
theory Error_Contract
  imports Contract_Usage Go_Json
begin

text \<open>
  The error body as the published contract parses it (\<open>packages/contracts/src/internal/errors.ts\<close> and
  \<open>public/errors.ts\<close>), and that the builders of \<open>internal/contract/errors.go\<close> keep every rule they decide. What
  they copy from their caller, and text that the length limit emptied, is what remains to be right.
\<close>

section \<open>Patterns that need a character\<close>

text \<open>Every match of the pattern takes in a character of \<open>P\<close>.\<close>

fun needs :: "(char \<Rightarrow> bool) \<Rightarrow> regex \<Rightarrow> bool" where
  "needs P (RChar q) = (\<forall>c. q c \<longrightarrow> P c)"
| "needs P (RSeq a b) = (needs P a \<or> needs P b)"
| "needs P (RAlt a b) = (needs P a \<and> needs P b)"
| "needs P (RRepeat lo hi a) = (0 < lo \<and> needs P a)"
| "needs P (RGroup a) = needs P a"
| "needs P REmpty = False"
| "needs P RBegin = False"
| "needs P REnd = False"
| "needs P RWordBoundary = False"

text \<open>From one cursor to another, over text that holds a character of \<open>P\<close> if \<open>b\<close>.\<close>

definition reads :: "(char \<Rightarrow> bool) \<Rightarrow> bool \<Rightarrow> cursor \<Rightarrow> cursor \<Rightarrow> bool" where
  "reads P b x y \<longleftrightarrow> (\<exists>u. cu_rest x = u @ cu_rest y \<and> (b \<longrightarrow> list_ex P u))"

lemma reads_refl: "reads P False x x"
  by (simp add: reads_def)

lemma reads_trans: "reads P a x y \<Longrightarrow> reads P b y z \<Longrightarrow> reads P (a \<or> b) x z"
  unfolding reads_def by (metis append.assoc list_ex_append)

lemma reads_weaken: "reads P a x y \<Longrightarrow> (b \<Longrightarrow> a) \<Longrightarrow> reads P b x y"
  by (auto simp: reads_def)

lemma repeat_run_reads:
  assumes "\<And>x y. y \<in> set (f x) \<Longrightarrow> reads P b x y"
  shows "y \<in> set (repeat_run f n lo hi x) \<Longrightarrow> reads P (0 < lo \<and> b) x y"
  using assms
proof (induction n arbitrary: lo hi x)
  case 0
  then show ?case by (auto simp: reads_refl split: if_splits)
next
  case (Suc n)
  from Suc.prems(1) consider "lo = 0" "y = x"
    | z where "z \<in> set (f x)" "y \<in> set (repeat_run f n (lo - 1) (map_option (\<lambda>h. h - 1) hi) z)"
    by (auto split: if_splits)
  then show ?case
  proof cases
    case (2 z)
    from Suc.IH [OF 2(2) Suc.prems(2)] have "reads P (0 < lo - 1 \<and> b) z y" by blast
    from reads_trans [OF Suc.prems(2) [OF 2(1)] this] show ?thesis by (rule reads_weaken) simp
  qed (simp add: reads_refl)
qed

lemma regex_run_reads: "y \<in> set (regex_run re x) \<Longrightarrow> reads P (needs P re) x y"
proof (induction re arbitrary: x y)
  case (RChar q)
  then show ?case by (cases "cu_rest x") (auto simp: reads_def split: if_splits)
next
  case (RSeq a b)
  from RSeq.prems obtain z where "z \<in> set (regex_run a x)" "y \<in> set (regex_run b z)" by auto
  from reads_trans [OF RSeq.IH(1) [OF this(1)] RSeq.IH(2) [OF this(2)]] show ?case by simp
next
  case (RAlt a b)
  from RAlt.prems show ?case using RAlt.IH by (auto intro: reads_weaken [where a = "needs P a"] reads_weaken [where a = "needs P b"])
next
  case (RRepeat lo hi a)
  have "reads P (0 < lo \<and> needs P a) x y"
    by (rule repeat_run_reads [OF RRepeat.IH RRepeat.prems [unfolded regex_run.simps]])
  then show ?case by simp
next
  case (RGroup a)
  then show ?case by (fastforce simp: reads_def)
qed (auto simp: reads_refl split: if_splits)

lemma needed_absent:
  assumes "needs P re" and "\<not> list_ex P s"
  shows "find_from re prev s = None"
  using assms(2)
proof (induction s arbitrary: prev)
  case Nil
  have "regex_run re (cursor_at prev []) = []"
    using regex_run_reads [of _ re "cursor_at prev []" P] assms(1)
    by (cases "regex_run re (cursor_at prev [])") (fastforce simp: reads_def cursor_at_def)+
  then show ?case by simp
next
  case (Cons c s)
  have "regex_run re (cursor_at prev (c # s)) = []"
  proof (rule ccontr)
    assume "\<not> ?thesis"
    then obtain y where "y \<in> set (regex_run re (cursor_at prev (c # s)))" by (cases "regex_run re (cursor_at prev (c # s))") auto
    from regex_run_reads [OF this, of P] assms(1) obtain u where "c # s = u @ cu_rest y" "list_ex P u"
      by (auto simp: reads_def cursor_at_def)
    with Cons.prems show False by (metis list_ex_append)
  qed
  with Cons show ?case by simp
qed

lemma no_match: "needs P re \<Longrightarrow> \<not> list_ex P s \<Longrightarrow> \<not> match_string re s"
  by (simp add: match_string_def needed_absent)

lemma no_groups: "needs P re \<Longrightarrow> \<not> list_ex P s \<Longrightarrow> find_all_groups re s = []"
  by (simp add: find_all_groups_def needed_absent)

section \<open>The fixed texts\<close>

lemma pattern_needs:
  "needs (\<lambda>c. c = CHR '':'' \<or> c = CHR ''='') credentialAssignment"
  "needs (\<lambda>c. lower_char c = CHR ''b'') bareBearerToken" "needs (\<lambda>c. lower_char c = CHR ''r'') bareBearerToken"
  "needs (one_of ''-_IJ'') issuedTokenGrammar" "needs (one_of ''[<({*'') redactedMarkerBesideValue"
  by (simp_all add: credentialAssignment_def bareBearerToken_def issuedTokenGrammar_def redactedMarkerBesideValue_def
      ratleast_def one_of_def)

lemma noDiagnosticText_safe: "\<not> CredentialShaped noDiagnosticText"
proof -
  have "\<not> list_ex (\<lambda>c. c = CHR '':'' \<or> c = CHR ''='') noDiagnosticText" "\<not> list_ex (\<lambda>c. lower_char c = CHR ''r'') noDiagnosticText"
    "\<not> list_ex (one_of ''-_IJ'') noDiagnosticText" "\<not> list_ex (one_of ''[<({*'') noDiagnosticText"
    by code_simp+
  then show ?thesis unfolding CredentialShaped_def
    by (simp add: no_groups [OF pattern_needs(1)] no_groups [OF pattern_needs(3)] no_match [OF pattern_needs(4)] no_match [OF pattern_needs(5)])
qed

text \<open>A sequence whose tail has no match on any end of a text has none there either.\<close>

lemma seq_dead:
  assumes "\<And>z. suffix (cu_rest z) s \<Longrightarrow> regex_run b z = []" and "suffix (cu_rest x) s"
  shows "regex_run (RSeq a b) x = []"
proof -
  have "suffix (cu_rest z) s" if "z \<in> set (regex_run a x)" for z
    using regex_run_reads [OF that, of "\<lambda>_. True"] assms(2) by (auto simp: reads_def suffix_def)
  with assms(1) show ?thesis by (auto simp: concat_eq_Nil_conv)
qed

lemma only_split:
  "u @ c # cs = a @ d # b \<Longrightarrow> P c \<Longrightarrow> \<not> list_ex P a \<Longrightarrow> \<not> list_ex P b \<Longrightarrow> cs = b"
  by (auto simp: append_eq_append_conv2 Cons_eq_append_conv append_eq_Cons_conv list_ex_iff)

definition withheld_end :: string where
  "withheld_end = '' it still looked like it carried a credential''"

lemma assigned_value_dead:
  "regex_run (rseq [rstar re_space, quote, authScheme, RGroup (opaqueValue 6)]) \<lparr>cu_before = p, cu_rest = withheld_end, cu_group = g\<rparr> = []"
  by code_simp

lemma withheld_text: "WithheldErrorText = ''the provider's message was withheld'' @ CHR '':'' # withheld_end"
  by (simp add: WithheldErrorText_def withheld_end_def)

lemma WithheldErrorText_safe: "\<not> CredentialShaped WithheldErrorText"
proof -
  have assign: "regex_run (rseq [RChar (one_of '':=''), rstar re_space, quote, authScheme, RGroup (opaqueValue 6)]) z = []"
    if "suffix (cu_rest z) WithheldErrorText" for z
  proof (cases "cu_rest z")
    case (Cons c cs)
    show ?thesis
    proof (cases "one_of '':='' c")
      case True
      from that Cons obtain u where whole: "u @ c # cs = ''the provider's message was withheld'' @ CHR '':'' # withheld_end"
        by (auto simp only: suffix_def withheld_text)
      have plain: "\<not> list_ex (one_of '':='') ''the provider's message was withheld''" "\<not> list_ex (one_of '':='') withheld_end"
        by code_simp+
      have "cs = withheld_end" by (rule only_split [OF whole True plain])
      then show ?thesis using Cons assigned_value_dead [of "c # cu_before z" "cu_group z"]
        by (cases z) simp
    qed (simp add: Cons)
  qed simp
  have "regex_run credentialAssignment (cursor_at prev s) = []" if "suffix s WithheldErrorText" for prev s
    unfolding credentialAssignment_def rseq.simps
    by (intro seq_dead [where s = WithheldErrorText] assign [unfolded rseq.simps]) (use that in \<open>simp_all add: cursor_at_def\<close>)
  then have "find_from credentialAssignment prev s = None" if "suffix s WithheldErrorText" for prev s
    using that by (induction s arbitrary: prev) (auto dest: suffix_ConsD)
  then have "find_all_groups credentialAssignment WithheldErrorText = []" by (simp add: find_all_groups_def)
  moreover have "\<not> list_ex (\<lambda>c. lower_char c = CHR ''b'') WithheldErrorText" "\<not> list_ex (one_of ''-_IJ'') WithheldErrorText"
    "\<not> list_ex (one_of ''[<({*'') WithheldErrorText"
    by code_simp+
  ultimately show ?thesis unfolding CredentialShaped_def
    by (simp add: no_groups [OF pattern_needs(2)] no_match [OF pattern_needs(4)] no_match [OF pattern_needs(5)])
qed

section \<open>The published contract\<close>

text \<open>\<open>safeErrorTextSchema\<close>.\<close>

definition safe_text :: "string \<Rightarrow> bool" where
  "safe_text t \<longleftrightarrow> t \<noteq> '''' \<and> utf16Length t \<le> 2000 \<and> \<not> CredentialShaped t"

text \<open>\<open>providerErrorPassthroughSchema\<close>.\<close>

definition passthrough_ok :: "passthrough \<Rightarrow> bool" where
  "passthrough_ok p \<longleftrightarrow>
     slug_Valid (pt_Provider p) \<and> (case pt_Status p of None \<Rightarrow> True | Some n \<Rightarrow> 100 \<le> n \<and> n \<le> 599) \<and>
     (case pt_Code p of None \<Rightarrow> True | Some c \<Rightarrow> utf16Length c \<le> 128) \<and>
     (case pt_Message p of None \<Rightarrow> True | Some m \<Rightarrow> safe_text m)"

text \<open>\<open>inferenceErrorSchema\<close>; its code and category are typed here, and its safe integers end at 2^53 - 1.\<close>

definition error_body_ok :: "contract_error \<Rightarrow> bool" where
  "error_body_ok e \<longleftrightarrow>
     ce_SchemaVersion e = 1 \<and> safe_text (ce_Message e) \<and>
     ce_RequestID e \<noteq> '''' \<and> utf16Length (ce_RequestID e) \<le> 128 \<and>
     (case ce_RetryAfterMs e of None \<Rightarrow> True | Some ms \<Rightarrow> 0 \<le> ms \<and> ms \<le> 2 ^ 53 - 1 \<and> ce_Retryable e) \<and>
     (case ce_Param e of None \<Rightarrow> True | Some p \<Rightarrow> utf16Length p \<le> 128) \<and>
     (case ce_ProviderError e of None \<Rightarrow> True | Some p \<Rightarrow> passthrough_ok p) \<and>
     (ce_Retryable e \<longrightarrow> ce_Code e \<notin> set nonRetryableErrorCodes)"

text \<open>What the builders decide, whatever they are given.\<close>

definition bounded_text :: "string \<Rightarrow> bool" where
  "bounded_text t \<longleftrightarrow> utf16Length t \<le> 2000 \<and> \<not> CredentialShaped t"

definition builders_keep :: "contract_error \<Rightarrow> bool" where
  "builders_keep e \<longleftrightarrow>
     ce_SchemaVersion e = 1 \<and> bounded_text (ce_Message e) \<and>
     (case ce_RetryAfterMs e of None \<Rightarrow> True | Some ms \<Rightarrow> 0 \<le> ms \<and> ce_Retryable e) \<and>
     (case ce_ProviderError e of None \<Rightarrow> True
      | Some p \<Rightarrow> (case pt_Code p of None \<Rightarrow> True | Some c \<Rightarrow> utf16Length c \<le> 128) \<and>
                  (case pt_Message p of None \<Rightarrow> True | Some m \<Rightarrow> bounded_text m)) \<and>
     (ce_Retryable e \<longrightarrow> Retryable (ce_Code e))"

lemma SafeErrorText_bounded: "bounded_text (SafeErrorText t)"
proof -
  have "length (to_valid_utf8 (take 2000 u)) \<le> 2000" for u :: string
    by (rule order_trans [OF to_valid_utf8_length]) simp
  then have "utf16Length (to_valid_utf8 (take 2000 u)) \<le> 2000" for u :: string
    by (rule order_trans [OF utf16Length_le])
  moreover have "length u \<le> 2000 \<Longrightarrow> utf16Length u \<le> 2000" for u :: string
    by (rule order_trans [OF utf16Length_le])
  moreover have "utf16Length WithheldErrorText \<le> 2000" "utf16Length noDiagnosticText \<le> 2000"
    by (rule order_trans [OF utf16Length_le], simp add: WithheldErrorText_def noDiagnosticText_def)+
  ultimately show ?thesis
    by (auto simp: SafeErrorText_def bounded_text_def Let_def maxSafeErrorTextLength_def WithheldErrorText_safe noDiagnosticText_safe)
qed

text \<open>Text that starts with a visible ASCII character is never emptied, and the bound holds in bytes too.\<close>

lemma SafeErrorText_length: "length (SafeErrorText t) \<le> 2000"
proof -
  have "length (to_valid_utf8 (take 2000 u)) \<le> 2000" for u :: string
    by (rule order_trans [OF to_valid_utf8_length]) simp
  then show ?thesis
    by (auto simp: SafeErrorText_def Let_def maxSafeErrorTextLength_def WithheldErrorText_def noDiagnosticText_def)
qed

lemma trim_space_visible: "\<not> is_space c \<Longrightarrow> \<exists>v. trim_space (c # u) = c # v"
proof -
  assume c: "\<not> is_space c"
  have "dropWhile is_space (rev u @ [c]) = dropWhile is_space (rev u) @ [c]"
    using c by (induction "rev u" arbitrary: u) (auto simp: dropWhile_append)
  then show ?thesis using c by (simp add: trim_space_def trim_left_def trim_right_def)
qed

lemma SafeErrorText_visible:
  assumes "\<not> is_space c" and "byte_of c < 128"
  shows "SafeErrorText (c # u) \<noteq> ''''"
proof -
  obtain v where v: "trim_space (c # u) = c # v" using trim_space_visible [OF assms(1)] by blast
  have "to_valid_utf8 (c # w) \<noteq> []" for w using assms(2) by simp
  then have "to_valid_utf8 (take 2000 (c # v)) \<noteq> []" by simp
  then show ?thesis
    by (simp add: SafeErrorText_def Let_def v maxSafeErrorTextLength_def WithheldErrorText_def del: to_valid_utf8.simps)
qed

lemma take_utf16: "utf16Length (take 128 c) \<le> 128" "length c \<le> 128 \<Longrightarrow> utf16Length c \<le> 128"
  by (rule order_trans [OF utf16Length_le], simp)+

lemma built_keeps: "built_error e \<Longrightarrow> builders_keep e"
proof (induction rule: built_error.induct)
  case (built_new requestID code message)
  then show ?case by (simp add: builders_keep_def NewError_def SafeErrorText_bounded SchemaVersion_def)
next
  case (built_upstream e category pass)
  then show ?case
    by (auto simp: builders_keep_def WithUpstream_def Let_def SafeErrorText_bounded take_utf16 split: option.splits)
qed (auto simp: builders_keep_def WithParam_def WithRetryAfter_def WithoutRetry_def split: option.splits)

section \<open>Properties\<close>



end
