(* ===== verification/Realtime_Replay.thy ===== *)
theory Realtime_Replay
  imports Kaana_Prelude "HOL-Library.Sublist"
begin

text \<open>
  The replay buffer of a realtime session (\<open>internal/realtime/replay.go\<close>): the most recent encoded events,
  bounded by their number and by their bytes, from which a client that reconnects is sent what it
  missed. The specification is the log of everything that was ever pushed: the buffer is a suffix of it,
  and what it answers is what the log would.
\<close>

record replay =
  rb_events :: "string list"
  rb_first :: int
  rb_bytes :: int
  rb_maxCount :: int
  rb_maxBytes :: int

definition newReplay :: "int \<Rightarrow> int \<Rightarrow> replay" where
  "newReplay maxCount maxBytes =
     \<lparr>rb_events = [], rb_first = 0, rb_bytes = 0, rb_maxCount = maxCount, rb_maxBytes = maxBytes\<rparr>"

text \<open>The loop that forgets the oldest events: it always keeps one.\<close>

function forget :: "replay \<Rightarrow> replay" where
  "forget r =
     (if length (rb_events r) > 1 \<and> (int (length (rb_events r)) > rb_maxCount r \<or> rb_bytes r > rb_maxBytes r)
      then forget (r\<lparr>rb_bytes := rb_bytes r - int (length (hd (rb_events r))), rb_events := tl (rb_events r),
                     rb_first := rb_first r + 1\<rparr>)
      else r)"
  by pat_completeness auto
termination by (relation "measure (\<lambda>r. length (rb_events r))") auto

definition push :: "int \<Rightarrow> string \<Rightarrow> replay \<Rightarrow> replay" where
  "push sequence encoded r =
     (let r = (if rb_events r = [] then r\<lparr>rb_first := sequence\<rparr> else r)
      in forget (r\<lparr>rb_events := rb_events r @ [encoded], rb_bytes := rb_bytes r + int (length encoded)\<rparr>))"

text \<open>\<open>None\<close> is the answer that something the client has not seen is no longer buffered.\<close>

definition replay_after :: "int \<Rightarrow> int \<Rightarrow> replay \<Rightarrow> string list option" where
  "replay_after afterSequence upcoming r =
     (if afterSequence < -1 \<or> afterSequence \<ge> upcoming then None
      else if afterSequence + 1 = upcoming then Some []
      else if rb_events r = [] \<or> afterSequence + 1 < rb_first r then None
      else Some (drop (nat (afterSequence + 1 - rb_first r)) (rb_events r)))"

section \<open>The log\<close>

definition log_bytes :: "string list \<Rightarrow> int" where
  "log_bytes events = int (sum_list (map length events))"

text \<open>The buffer of a session that has sent exactly the events of the log, the first numbered 0.\<close>

definition holds_tail :: "string list \<Rightarrow> replay \<Rightarrow> bool" where
  "holds_tail log r \<longleftrightarrow>
     suffix (rb_events r) log \<and> rb_bytes r = log_bytes (rb_events r) \<and>
     (rb_events r = [] \<longleftrightarrow> log = []) \<and> (log \<noteq> [] \<longrightarrow> rb_first r = int (length log) - int (length (rb_events r)))"

definition within_bounds :: "replay \<Rightarrow> bool" where
  "within_bounds r \<longleftrightarrow> length (rb_events r) \<le> 1 \<or>
     int (length (rb_events r)) \<le> rb_maxCount r \<and> rb_bytes r \<le> rb_maxBytes r"

declare forget.simps [simp del]

lemma log_bytes_simps [simp]: "log_bytes [] = 0" "log_bytes (e # es) = int (length e) + log_bytes es"
  "log_bytes (es @ fs) = log_bytes es + log_bytes fs"
  by (simp_all add: log_bytes_def)

lemma holds_tail_empty [simp]: "holds_tail [] (newReplay c b)"
  by (simp add: holds_tail_def newReplay_def)

lemma forget_bounds: "within_bounds (forget r)"
  by (induction r rule: forget.induct) (subst forget.simps, auto simp: within_bounds_def)

lemma forget_limits [simp]: "rb_maxCount (forget r) = rb_maxCount r" "rb_maxBytes (forget r) = rb_maxBytes r"
  by (induction r rule: forget.induct) (subst forget.simps, simp)+

lemma forget_holds: "holds_tail log r \<Longrightarrow> holds_tail log (forget r)"
proof (induction r rule: forget.induct)
  case (1 r)
  show ?case
  proof (cases "length (rb_events r) > 1 \<and> (int (length (rb_events r)) > rb_maxCount r \<or> rb_bytes r > rb_maxBytes r)")
    case True
    then obtain e es where es: "rb_events r = e # es" "es \<noteq> []" by (cases "rb_events r") auto
    let ?r = "r\<lparr>rb_bytes := rb_bytes r - int (length (hd (rb_events r))), rb_events := tl (rb_events r), rb_first := rb_first r + 1\<rparr>"
    have "holds_tail log ?r" using 1(2) es by (auto simp: holds_tail_def dest: suffix_ConsD)
    from 1(1) [OF True this] True show ?thesis by (simp add: forget.simps [of r])
  next
    case False
    then show ?thesis using 1(2) by (subst forget.simps) auto
  qed
qed

lemma push_holds:
  assumes "holds_tail log r"
  shows "holds_tail (log @ [e]) (push (int (length log)) e r)"
proof -
  let ?r = "if rb_events r = [] then r\<lparr>rb_first := int (length log)\<rparr> else r"
  have "holds_tail (log @ [e]) (?r\<lparr>rb_events := rb_events ?r @ [e], rb_bytes := rb_bytes ?r + int (length e)\<rparr>)"
    using assms by (auto simp: holds_tail_def)
  then show ?thesis by (simp add: push_def Let_def forget_holds)
qed

lemma push_bounds: "within_bounds (push n e r)"
  by (simp add: push_def Let_def forget_bounds)

lemma push_limits [simp]: "rb_maxCount (push n e r) = rb_maxCount r" "rb_maxBytes (push n e r) = rb_maxBytes r"
  by (simp_all add: push_def Let_def)

text \<open>Every answer is the log's: nothing is guessed, and what is refused is out of range or forgotten.\<close>

lemma replay_after_log:
  assumes "holds_tail log r"
  shows "replay_after k (int (length log)) r =
    (if -1 \<le> k \<and> k < int (length log) \<and> int (length log) - (k + 1) \<le> int (length (rb_events r))
     then Some (drop (nat (k + 1)) log) else None)"
proof (cases "-1 \<le> k \<and> k + 1 < int (length log)")
  case True
  then have log: "log \<noteq> []" by auto
  with assms obtain xs where xs: "log = xs @ rb_events r" "rb_events r \<noteq> []" "rb_first r = int (length xs)"
    by (auto simp: holds_tail_def suffix_def)
  show ?thesis
  proof (cases "k + 1 < int (length xs)")
    case False
    then have "nat (k + 1) = length xs + nat (k + 1 - int (length xs))" by linarith
    then have "drop (nat (k + 1)) log = drop (nat (k + 1 - int (length xs))) (rb_events r)" by (simp add: xs(1))
    with True False xs show ?thesis by (simp add: replay_after_def)
  qed (use True xs in \<open>simp add: replay_after_def\<close>)
qed (auto simp: replay_after_def)

text \<open>Nothing is forgotten early: with one event more the buffer would be over a bound.\<close>

definition over_bound :: "int \<Rightarrow> int \<Rightarrow> string list \<Rightarrow> bool" where
  "over_bound maxCount maxBytes es \<longleftrightarrow> int (length es) > maxCount \<or> log_bytes es > maxBytes"

definition forgets_late :: "string list \<Rightarrow> replay \<Rightarrow> bool" where
  "forgets_late log r \<longleftrightarrow>
     (\<forall>x. suffix (x # rb_events r) log \<longrightarrow> over_bound (rb_maxCount r) (rb_maxBytes r) (x # rb_events r))"

lemma forget_late:
  "rb_bytes r = log_bytes (rb_events r) \<Longrightarrow> forgets_late (rb_events r) (forget r)"
proof (induction r rule: forget.induct)
  case (1 r)
  show ?case
  proof (cases "length (rb_events r) > 1 \<and> (int (length (rb_events r)) > rb_maxCount r \<or> rb_bytes r > rb_maxBytes r)")
    case True
    then obtain e es where es: "rb_events r = e # es" by (cases "rb_events r") auto
    let ?r = "r\<lparr>rb_bytes := rb_bytes r - int (length (hd (rb_events r))), rb_events := tl (rb_events r), rb_first := rb_first r + 1\<rparr>"
    have f: "forget r = forget ?r" using True by (simp add: forget.simps [of r])
    have "forgets_late es (forget ?r)" using 1(1) [OF True] 1(2) es by simp
    moreover have "over_bound (rb_maxCount r) (rb_maxBytes r) (rb_events r)" using True 1(2) by (auto simp: over_bound_def)
    ultimately show ?thesis unfolding f by (auto simp: forgets_late_def es suffix_Cons)
  next
    case False
    then have "forget r = r" by (subst forget.simps) auto
    then show ?thesis by (auto simp: forgets_late_def dest: suffix_length_le)
  qed
qed

lemma forget_suffix: "suffix (rb_events (forget r)) (rb_events r)"
proof (induction r rule: forget.induct)
  case (1 r)
  then show ?case by (subst forget.simps) (auto intro: suffix_order.trans suffix_tl)
qed

lemma over_bound_mono: "over_bound c b es \<Longrightarrow> over_bound c b (es @ [e])"
  by (auto simp: over_bound_def)

lemma push_late:
  assumes "holds_tail log r" and "forgets_late log r"
  shows "forgets_late (log @ [e]) (push (int (length log)) e r)"
proof -
  define r' where "r' = (let r0 = (if rb_events r = [] then r\<lparr>rb_first := int (length log)\<rparr> else r)
    in r0\<lparr>rb_events := rb_events r0 @ [e], rb_bytes := rb_bytes r0 + int (length e)\<rparr>)"
  have push: "push (int (length log)) e r = forget r'" by (simp add: push_def r'_def Let_def)
  have ev: "rb_events r' = rb_events r @ [e]" "rb_maxCount r' = rb_maxCount r" "rb_maxBytes r' = rb_maxBytes r"
    by (simp_all add: r'_def Let_def)
  have "rb_bytes r' = log_bytes (rb_events r')" using assms(1) by (auto simp: r'_def Let_def holds_tail_def)
  from forget_late [OF this] have late: "over_bound (rb_maxCount r) (rb_maxBytes r) (x # rb_events (forget r'))"
    if "suffix (x # rb_events (forget r')) (rb_events r @ [e])" for x
    using that by (simp add: forgets_late_def ev del: suffix_snoc)
  have kept: "suffix (rb_events (forget r')) (rb_events r @ [e])" using forget_suffix [of r'] unfolding ev .
  have "over_bound (rb_maxCount r) (rb_maxBytes r) (x # rb_events (forget r'))"
    if x: "suffix (x # rb_events (forget r')) (log @ [e])" for x
  proof -
    have whole: "suffix (rb_events r @ [e]) (log @ [e])" using assms(1) by (simp add: holds_tail_def)
    consider "suffix (x # rb_events (forget r')) (rb_events r @ [e])" | "suffix (rb_events r @ [e]) (x # rb_events (forget r'))"
      using suffix_same_cases [OF x whole] by blast
    then show ?thesis
    proof cases
      case 1
      then show ?thesis by (intro late) simp
    next
      case 2
      then consider "x # rb_events (forget r') = rb_events r @ [e]" | "suffix (rb_events r @ [e]) (rb_events (forget r'))"
        by (auto simp: suffix_Cons)
      then show ?thesis
      proof cases
        case 1
        then show ?thesis by (intro late) simp
      next
        case 2
        then have same: "rb_events (forget r') = rb_events r @ [e]" using kept by (meson suffix_order.antisym)
        with x have "suffix (x # rb_events r) log" by simp
        then show ?thesis using assms(2) over_bound_mono unfolding forgets_late_def same by force
      qed
    qed
  qed
  then show ?thesis by (simp add: forgets_late_def push ev)
qed

text \<open>A session's buffer: the events of the log pushed in order, numbered from 0.\<close>

fun pushed :: "int \<Rightarrow> int \<Rightarrow> string list \<Rightarrow> replay" where
  "pushed maxCount maxBytes log =
     snd (fold (\<lambda>e (n, r). (n + 1, push n e r)) log (0, newReplay maxCount maxBytes))"

declare pushed.simps [simp del]

lemma pushed_snoc: "pushed c b (log @ [e]) = push (int (length log)) e (pushed c b log)"
proof -
  have n: "fst (fold (\<lambda>e (n, r). (n + 1, push n e r)) log (k, r0)) = k + int (length log)" for k r0
    by (induction log arbitrary: k r0) simp_all
  show ?thesis using n [of 0 "newReplay c b"] by (simp add: pushed.simps case_prod_beta)
qed

lemma pushed_ok:
  "holds_tail log (pushed c b log)" "forgets_late log (pushed c b log)" "within_bounds (pushed c b log)"
  "rb_maxCount (pushed c b log) = c" "rb_maxBytes (pushed c b log) = b"
proof (induction log rule: rev_induct)
  case (snoc e log)
  { case 1 show ?case unfolding pushed_snoc by (rule push_holds [OF snoc.IH(1)])
  next case 2 show ?case unfolding pushed_snoc by (rule push_late [OF snoc.IH(1,2)])
  next case 3 show ?case unfolding pushed_snoc by (rule push_bounds)
  next case 4 show ?case using snoc.IH by (simp add: pushed_snoc)
  next case 5 show ?case using snoc.IH by (simp add: pushed_snoc) }
qed (simp_all add: pushed.simps forgets_late_def within_bounds_def, simp_all add: newReplay_def)

text \<open>
  The replay buffer is the log as far as its bounds allow. After any events, numbered from 0, the buffer is
  the end of the log: within both bounds unless it is a single event, and with one event more it would be over a
  bound. Asked for what follows a sequence, it answers exactly the events of the log after it, and refuses
  exactly a sequence that was never assigned or one whose successor it has forgotten.
\<close>

theorem replay_refines_log:
  "let r = pushed maxCount maxBytes log; held = length (rb_events r)
   in rb_events r = drop (length log - held) log \<and> within_bounds r \<and>
      (if held = length log then True else over_bound maxCount maxBytes (drop (length log - Suc held) log)) \<and>
      replay_after k (int (length log)) r =
        (if -1 \<le> k \<and> k < int (length log) \<and> int (length log) - (k + 1) \<le> int held
         then Some (drop (nat (k + 1)) log) else None)"
proof -
  let ?r = "pushed maxCount maxBytes log"
  obtain xs where xs: "log = xs @ rb_events ?r"
    using pushed_ok(1) [where log = log and c = maxCount and b = maxBytes] by (auto simp: holds_tail_def suffix_def)
  then have len: "length log = length xs + length (rb_events ?r)" by (metis length_append)
  have "rb_events ?r = drop (length log - length (rb_events ?r)) log" using xs len
    by (metis (no_types, lifting) add_diff_cancel_right' append_eq_conv_conj)
  moreover have "over_bound maxCount maxBytes (drop (length log - Suc (length (rb_events ?r))) log)"
    if "length (rb_events ?r) \<noteq> length log"
  proof -
    from that len obtain ys x where ys: "xs = ys @ [x]" by (cases xs rule: rev_cases) auto
    with xs have log: "log = ys @ x # rb_events ?r" by simp
    then have "length log - Suc (length (rb_events ?r)) = length ys" using len ys by simp
    then have "drop (length log - Suc (length (rb_events ?r))) log = drop (length ys) (ys @ x # rb_events ?r)" using log by metis
    then have "drop (length log - Suc (length (rb_events ?r))) log = x # rb_events ?r" by simp
    moreover have "suffix (x # rb_events ?r) log" using log by (metis suffixI)
    ultimately show ?thesis
      using pushed_ok(2) [where log = log and c = maxCount and b = maxBytes] by (simp add: forgets_late_def pushed_ok)
  qed
  moreover note replay_after_log [OF pushed_ok(1) [where log = log and c = maxCount and b = maxBytes], of k]
    pushed_ok(3) [where log = log and c = maxCount and b = maxBytes]
  ultimately show ?thesis by (simp add: Let_def)
qed

end
