(* ===== verification/Go_Base64_Stream.thy ===== *)
theory Go_Base64_Stream
  imports Go_Base64
begin

text \<open>
  \<open>base64.NewDecoder(base64.StdEncoding, strings.NewReader(data))\<close>, read to its end into a buffer
  larger than the decoder's own. The decoder drops carriage returns and line feeds, fills a buffer of
  1024 bytes and decodes the whole groups of four it holds; what is left of a group waits for the
  next fill. Padding ends a group and may stand only in the last group \<^emph>\<open>of one fill\<close>: the decoder does not
  remember it across fills.
\<close>

definition base64_value :: "char \<Rightarrow> nat" where
  "base64_value c =
     (if is_upper c then byte_of c - 65
      else if is_lower c then byte_of c - 71
      else if is_digit c then byte_of c + 4
      else if c = CHR ''+'' then 62 else 63)"

definition quantum_bytes :: "char \<Rightarrow> char \<Rightarrow> char \<Rightarrow> char \<Rightarrow> string" where
  "quantum_bytes a b c d =
     [char_of (base64_value a * 4 + base64_value b div 16),
      char_of (base64_value b mod 16 * 16 + base64_value c div 4),
      char_of (base64_value c mod 4 * 64 + base64_value d)]"

text \<open>\<open>StdEncoding.Decode\<close> on a buffer of whole groups without line breaks.\<close>

fun decode_groups :: "string \<Rightarrow> string option" where
  "decode_groups [] = Some []"
| "decode_groups (a # b # c # d # rest) =
     (if \<not> base64_char a \<or> \<not> base64_char b then None
      else if c = CHR ''='' then
        (if d = CHR ''='' \<and> rest = [] then Some (take 1 (quantum_bytes a b CHR ''A'' CHR ''A'')) else None)
      else if \<not> base64_char c then None
      else if d = CHR ''='' then (if rest = [] then Some (take 2 (quantum_bytes a b c CHR ''A'')) else None)
      else if \<not> base64_char d then None
      else map_option ((@) (quantum_bytes a b c d)) (decode_groups rest))"
| "decode_groups _ = None"

definition line_break :: "char \<Rightarrow> bool" where
  "line_break c \<longleftrightarrow> c = CHR 10 \<or> c = CHR 13"

definition decoder_buffer :: nat where
  "decoder_buffer = 1024"

function decoder_run :: "string \<Rightarrow> string \<Rightarrow> string option" where
  "decoder_run buf rest =
     (if length buf < 4
      then if rest = [] then (if buf = [] then Some [] else None)
           else let n = decoder_buffer - length buf
                in decoder_run (buf @ filter (\<lambda>c. \<not> line_break c) (take n rest)) (drop n rest)
      else let nr = length buf div 4 * 4
           in case decode_groups (take nr buf) of
                None \<Rightarrow> None
              | Some bytes \<Rightarrow> map_option ((@) bytes) (decoder_run (drop nr buf) rest))"
  by pat_completeness auto
termination
proof (relation "measures [\<lambda>(buf, rest). length buf + length rest, \<lambda>(buf, rest). length rest]", goal_cases)
  case 1
  show ?case by simp
next
  case (2 buf rest n)
  let ?kept = "filter (\<lambda>c. \<not> line_break c) (take n rest)"
  have "0 < n" using 2 by (simp add: decoder_buffer_def)
  have "length ?kept \<le> length (take n rest)" by (rule length_filter_le)
  moreover have "length (take n rest) + length (drop n rest) = length rest" by simp
  ultimately have "length (buf @ ?kept) + length (drop n rest) \<le> length buf + length rest"
    by (simp only: length_append)
  moreover have "length (drop n rest) < length rest" using 2 \<open>0 < n\<close> by (cases rest) simp_all
  ultimately show ?case by (auto simp only: measures_less measures_lesseq in_measures case_prod_conv le_less)
next
  case (3 buf rest nr bytes)
  have "0 < nr" using 3 by simp
  then show ?case using 3 by auto
qed

definition stream_decode :: "string \<Rightarrow> string option" where
  "stream_decode data = decoder_run [] data"

section \<open>Lemmas\<close>

declare decoder_run.simps [simp del]

definition tail_pads :: "string \<Rightarrow> nat" where
  "tail_pads s = length (filter (\<lambda>c. c = CHR ''='') (drop (length s - 2) s))"

lemma tail_pads_le: "tail_pads s \<le> 2"
proof -
  have "tail_pads s \<le> length (drop (length s - 2) s)" unfolding tail_pads_def by (rule length_filter_le)
  then show ?thesis by simp
qed

lemma tail_pads_append [simp]: "2 \<le> length y \<Longrightarrow> tail_pads (x @ y) = tail_pads y"
  by (simp add: tail_pads_def)

lemma base64_char_not_pad: "base64_char c \<Longrightarrow> c \<noteq> CHR ''=''"
  by (auto simp: base64_char_def char_class_defs)

lemma decode_groups_measure:
  "decode_groups s = Some bytes \<Longrightarrow>
     4 dvd length s \<and> length bytes + tail_pads s = 3 * (length s div 4)"
proof (induction s arbitrary: bytes rule: decode_groups.induct)
  case (2 a b c d rest)
  show ?case
  proof (cases "rest = []")
    case True
    have four: "length (a # b # c # d # []) = 4" by simp
    show ?thesis unfolding True four using 2(2) True
      by (auto simp: tail_pads_def quantum_bytes_def dest: base64_char_not_pad split: if_splits)
  next
    case False
    with 2(2) obtain y where y: "decode_groups rest = Some y" "bytes = quantum_bytes a b c d @ y"
      and chars: "base64_char a" "base64_char b" "c \<noteq> CHR ''=''" "base64_char c" "d \<noteq> CHR ''=''" "base64_char d"
      by (auto split: if_splits)
    from chars have "4 dvd length rest \<and> length y + tail_pads rest = 3 * (length rest div 4)"
      using 2(1) [OF _ _ _ _ _ y(1)] by simp
    moreover from this False have "4 \<le> length rest" by (auto dest: dvd_imp_le)
    moreover have "tail_pads (a # b # c # d # rest) = tail_pads rest"
      using tail_pads_append [of rest "[a, b, c, d]"] \<open>4 \<le> length rest\<close> by simp
    moreover have "length (a # b # c # d # rest) = length rest + 4" by simp
    ultimately show ?thesis by (simp only: y) (simp add: quantum_bytes_def)
  qed
qed (simp_all add: tail_pads_def)

abbreviation unbroken :: "string \<Rightarrow> string" where
  "unbroken s \<equiv> filter (\<lambda>c. \<not> line_break c) s"

lemma unbroken_split: "unbroken (take n s) @ unbroken (drop n s) = unbroken s"
  by (simp flip: filter_append)

lemma groups_split:
  fixes buf :: string
  assumes "4 \<le> length buf"
  obtains g r where "buf = g @ r" and "g = take (length buf div 4 * 4) buf"
    and "r = drop (length buf div 4 * 4) buf" and "4 dvd length g" and "g \<noteq> []" and "length r < 4"
proof
  let ?n = "length buf div 4 * 4"
  show "buf = take ?n buf @ drop ?n buf" by simp
  show "take ?n buf \<noteq> []" using assms by (cases buf) auto
  show "4 dvd length (take ?n buf)" by (simp add: min_absorb2)
  show "length (drop ?n buf) < 4" by simp
qed simp_all

lemma decoder_run_measure:
  "decoder_run buf rest = Some bytes \<Longrightarrow>
     4 dvd length (buf @ unbroken rest) \<and>
     length bytes + tail_pads (buf @ unbroken rest) \<le> 3 * (length (buf @ unbroken rest) div 4)"
proof (induction buf rest arbitrary: bytes rule: decoder_run.induct)
  case (1 buf rest)
  show ?case
  proof (cases "length buf < 4")
    case True
    show ?thesis
    proof (cases "rest = []")
      case True
      with \<open>length buf < 4\<close> 1(3) show ?thesis
        by (auto simp: decoder_run.simps [of buf] tail_pads_def split: if_splits)
    next
      case False
      with True 1(3) have "decoder_run (buf @ unbroken (take (decoder_buffer - length buf) rest))
          (drop (decoder_buffer - length buf) rest) = Some bytes"
        by (simp add: decoder_run.simps [of buf] Let_def)
      from 1(1) [OF True False refl this] show ?thesis
        by (simp only: append_assoc unbroken_split)
    qed
  next
    case False
    then obtain g r where s: "buf = g @ r" "g = take (length buf div 4 * 4) buf" "r = drop (length buf div 4 * 4) buf"
      and g: "4 dvd length g" by (meson groups_split leI)
    from False 1(3) obtain x y where x: "decode_groups g = Some x" and y: "decoder_run r rest = Some y"
      and bytes: "bytes = x @ y"
      by (auto simp: decoder_run.simps [of buf] Let_def s(2,3) [symmetric] split: option.splits)
    from 1(2) [OF False refl, folded s(2,3), OF x y] have
      IH: "4 dvd length (r @ unbroken rest)"
        "length y + tail_pads (r @ unbroken rest) \<le> 3 * (length (r @ unbroken rest) div 4)" by auto
    have gx: "length x + tail_pads g = 3 * (length g div 4)" using decode_groups_measure [OF x] by simp
    have div: "length (g @ r @ unbroken rest) div 4 = length g div 4 + length (r @ unbroken rest) div 4"
      using g by (simp only: length_append [of g] div_plus_div_distrib_dvd_left)
    have tail: "tail_pads (g @ r @ unbroken rest) =
        (if r @ unbroken rest = [] then tail_pads g else tail_pads (r @ unbroken rest))"
      using IH(1) by (auto dest: dvd_imp_le)
    have "4 dvd length (g @ r @ unbroken rest)"
      using g IH(1) by (simp only: length_append [of g] dvd_add)
    moreover have "length bytes + tail_pads (g @ r @ unbroken rest) \<le> 3 * (length (g @ r @ unbroken rest) div 4)"
    proof (cases "r @ unbroken rest = []")
      case True
      then show ?thesis using IH gx by (simp add: bytes)
    next
      case False
      have "length x + (length y + tail_pads (r @ unbroken rest)) \<le>
          3 * (length g div 4) + 3 * (length (r @ unbroken rest) div 4)"
        using IH(2) gx by (intro add_mono) simp_all
      then show ?thesis unfolding tail div bytes if_not_P [OF False] by (simp only: length_append [of x] algebra_simps)
    qed
    ultimately show ?thesis by (simp only: s(1) append_assoc)
  qed
qed

text \<open>No frame holds more bytes than its length and its last two characters say.\<close>

lemma stream_decode_measure:
  assumes "stream_decode data = Some bytes" and "4 dvd length data"
  shows "length bytes + tail_pads data \<le> 3 * (length data div 4)"
proof -
  have m: "4 dvd length (unbroken data)"
    "length bytes + tail_pads (unbroken data) \<le> 3 * (length (unbroken data) div 4)"
    using decoder_run_measure [of "[]" data bytes] assms(1) by (simp_all add: stream_decode_def)
  show ?thesis
  proof (cases "unbroken data = data")
    case True
    then show ?thesis using m by simp
  next
    case False
    then obtain c where "c \<in> set data" "line_break c" by (auto simp: filter_id_conv)
    from \<open>c \<in> set data\<close> have "length (unbroken data) < length data"
      by (rule List.length_filter_less) (simp add: \<open>line_break c\<close>)
    then have "length (unbroken data) div 4 < length data div 4" using m(1) assms(2)
      by (elim dvdE) simp
    then show ?thesis using m(2) tail_pads_le [of data] by linarith
  qed
qed

text \<open>Text whose padding, if any, is in its last group decodes as one buffer would.\<close>

lemma decode_groups_append:
  "4 dvd length x \<Longrightarrow> list_all base64_char x \<Longrightarrow>
     decode_groups (x @ y) = (case decode_groups x of None \<Rightarrow> None | Some b \<Rightarrow> map_option ((@) b) (decode_groups y))"
proof (induction x rule: decode_groups.induct)
  case (2 a b c d rest)
  have "length (a # b # c # d # rest) = length rest + 4" by simp
  with 2(2) have "4 dvd length rest" by (simp only: dvd_add_left_iff dvd_refl)
  moreover have "map_option (\<lambda>x. quantum_bytes a b c d @ b' @ x) z = map_option ((@) (quantum_bytes a b c d @ b')) z" for b' z
    by (cases z) simp_all
  ultimately show ?case using 2
    by (auto dest: base64_char_not_pad split: option.splits simp: option.map_comp comp_def)
qed (auto simp: dest: dvd_imp_le split: option.splits intro: option.map_ident_strong [symmetric])

lemma decoder_run_groups:
  "\<lbrakk>list_all (\<lambda>c. \<not> line_break c) rest; 4 dvd length (buf @ rest);
    list_all base64_char (take (length (buf @ rest) - 4) (buf @ rest))\<rbrakk> \<Longrightarrow>
     decoder_run buf rest = decode_groups (buf @ rest)"
proof (induction buf rest rule: decoder_run.induct)
  case (1 buf rest)
  show ?case
  proof (cases "length buf < 4")
    case True
    show ?thesis
    proof (cases "rest = []")
      case True
      with \<open>length buf < 4\<close> 1(4) show ?thesis
        by (auto simp: decoder_run.simps [of buf] dest: dvd_imp_le)
    next
      case False
      let ?n = "decoder_buffer - length buf"
      have kept: "unbroken (take ?n rest) = take ?n rest"
        using 1(3) by (auto simp: filter_id_conv list_all_iff dest: in_set_takeD)
      from 1(1) [OF True False refl] 1(3-5)
      have "decoder_run (buf @ take ?n rest) (drop ?n rest) = decode_groups (buf @ rest)"
        unfolding kept by (simp add: list_all_iff) (meson in_set_dropD)
      with True False show ?thesis by (simp add: decoder_run.simps [of buf] Let_def kept)
    qed
  next
    case False
    then obtain g r where s: "buf = g @ r" "g = take (length buf div 4 * 4) buf" "r = drop (length buf div 4 * 4) buf"
      and g: "4 dvd length g" by (meson groups_split leI)
    have run: "decoder_run buf rest =
        (case decode_groups g of None \<Rightarrow> None | Some b \<Rightarrow> map_option ((@) b) (decoder_run r rest))"
      using False by (simp add: decoder_run.simps [of buf] Let_def) (simp only: s(2,3) [symmetric])
    have r4: "4 dvd length (r @ rest)" using 1(4) g
      by (simp only: s(1) append_assoc length_append [of g] dvd_add_right_iff)
    show ?thesis
    proof (cases "r @ rest = []")
      case True
      then show ?thesis using run by (auto simp: decoder_run.simps [of "[]"] s(1) split: option.splits)
    next
      case False
      then have "4 \<le> length (r @ rest)" using r4 by (auto dest: dvd_imp_le)
      then have split: "take (length (buf @ rest) - 4) (buf @ rest) =
          g @ take (length (r @ rest) - 4) (r @ rest)" by (simp add: s(1))
      have "decoder_run r rest = decode_groups (r @ rest)" if "decode_groups g = Some b" for b
        using 1(2) [OF \<open>\<not> length buf < 4\<close> refl, folded s(2,3), OF that] 1(3,5) r4 unfolding split by simp
      moreover have "decode_groups (g @ r @ rest) =
          (case decode_groups g of None \<Rightarrow> None | Some b \<Rightarrow> map_option ((@) b) (decode_groups (r @ rest)))"
        using 1(5) unfolding split by (intro decode_groups_append g) simp
      ultimately show ?thesis unfolding run by (simp only: s(1) append_assoc) (auto split: option.splits)
    qed
  qed
qed

lemma base64_value_digit: "n < 64 \<Longrightarrow> base64_value (base64_digit n) = n"
  by (auto simp: base64_value_def base64_digit_def char_class_defs)

lemma byte_of_bound: "byte_of c < 256"
  by (simp add: byte_of_def)

lemma char_of_byte_of [simp]: "char_of (byte_of c) = c"
  by (simp add: byte_of_def)


lemma carry_16: "y < 256 \<Longrightarrow> (x * 16 + y div 16) div 16 = x \<and> (x * 16 + y div 16) mod 16 = y div (16::nat)"
  by auto

lemma carry_4: "y < 256 \<Longrightarrow> (x * 4 + y div 64) div 4 = x \<and> (x * 4 + y div 64) mod 4 = y div (64::nat)"
  by auto

lemma decode_groups_encode: "decode_groups (base64_encode bytes) = Some bytes"
proof (induction bytes rule: base64_encode.induct)
  case (2 a)
  have "byte_of a div 4 * 4 + byte_of a mod 4 * 16 div 16 = byte_of a" by simp
  then show ?case using byte_of_bound [of a]
    by (simp add: base64_digit_ok quantum_bytes_def base64_value_digit)
next
  case (3 a b)
  have "byte_of a div 4 * 4 + (byte_of a mod 4 * 16 + byte_of b div 16) div 16 = byte_of a"
    "(byte_of a mod 4 * 16 + byte_of b div 16) mod 16 * 16 + byte_of b mod 16 * 4 div 4 = byte_of b"
    using byte_of_bound [of b] by (simp_all add: carry_16)
  then show ?case using byte_of_bound [of a] byte_of_bound [of b]
    by (simp add: base64_digit_ok base64_digit_not_pad quantum_bytes_def base64_value_digit)
next
  case (4 a b c cs)
  have "byte_of a div 4 * 4 + (byte_of a mod 4 * 16 + byte_of b div 16) div 16 = byte_of a"
    "(byte_of a mod 4 * 16 + byte_of b div 16) mod 16 * 16 + (byte_of b mod 16 * 4 + byte_of c div 64) div 4 = byte_of b"
    "(byte_of b mod 16 * 4 + byte_of c div 64) mod 4 * 64 + byte_of c mod 64 = byte_of c"
    using byte_of_bound [of b] byte_of_bound [of c] by (simp_all add: carry_16 carry_4)
  then show ?case using byte_of_bound [of a] byte_of_bound [of b] byte_of_bound [of c] 4
    by (simp add: base64_digit_ok base64_digit_not_pad quantum_bytes_def base64_value_digit)
qed simp

end
