(* ===== verification/Realtime_Contract.thy ===== *)
theory Realtime_Contract
  imports Realtime_Parameters Go_Base64_Stream
begin

text \<open>
  Realtime sessions on the wire (\<open>internal/contract/realtime.go\<close>, the commands of
  \<open>internal/contract/realtime_wire.go\<close>): the session request Oxy signs and its validation, the audio
  frames and the size they are counted with, conversation items, and the closed set of client
  commands with their validation. A struct is a record; a nil slice is \<open>None\<close> where the code tells it
  from an empty one.
\<close>

definition RealtimeSchemaVersion :: int where "RealtimeSchemaVersion = 1"

definition MaxRealtimeAudioFrameBase64Length :: nat where "MaxRealtimeAudioFrameBase64Length = 65536"

definition MaxRealtimeSessionDurationMs :: int where "MaxRealtimeSessionDurationMs = 3600000"

definition MaxRealtimeSessionAudioBytes :: int where "MaxRealtimeSessionAudioBytes = 172800000"

definition MaxRealtimeResumeWindowMs :: int where "MaxRealtimeResumeWindowMs = 60000"

definition MaxRealtimeItemTextChars :: int where "MaxRealtimeItemTextChars = 1048576"

definition maxRealtimeInstructions :: int where "maxRealtimeInstructions = 32768"

abbreviation RealtimeConversation :: string where "RealtimeConversation \<equiv> ''conversation''"
abbreviation RealtimeTranscription :: string where "RealtimeTranscription \<equiv> ''transcription''"
abbreviation RealtimeTranslation :: string where "RealtimeTranslation \<equiv> ''translation''"

abbreviation RealtimeOutputAudio :: string where "RealtimeOutputAudio \<equiv> ''audio''"

abbreviation RealtimeInputTextPart :: string where "RealtimeInputTextPart \<equiv> ''input_text''"
abbreviation RealtimeInputAudioPart :: string where "RealtimeInputAudioPart \<equiv> ''input_audio''"
abbreviation RealtimeOutputTextPart :: string where "RealtimeOutputTextPart \<equiv> ''output_text''"
abbreviation RealtimeOutputAudioPart :: string where "RealtimeOutputAudioPart \<equiv> ''output_audio''"

abbreviation RealtimeMessageItem :: string where "RealtimeMessageItem \<equiv> ''message''"
abbreviation RealtimeFunctionCallItem :: string where "RealtimeFunctionCallItem \<equiv> ''function_call''"
abbreviation RealtimeFunctionCallOutputItem :: string where "RealtimeFunctionCallOutputItem \<equiv> ''function_call_output''"

definition realtimeItemRoleValues :: "string list" where
  "realtimeItemRoleValues = [''system'', ''user'', ''assistant'']"

section \<open>Session configuration\<close>

record realtime_input_transcription =
  rit_Language :: "string option"
  rit_Prompt :: "string option"
  rit_InterimResults :: "bool option"

record realtime_tool_definition =
  rtt_Type :: string
  rtt_Name :: string
  rtt_Description :: "string option"
  rtt_Parameters :: json

record realtime_session_config =
  rsc_Instructions :: "string option"
  rsc_OutputModalities :: "string list option"
  rsc_Voice :: "string option"
  rsc_InputAudioFormat :: string
  rsc_OutputAudioFormat :: "string option"
  rsc_TurnDetection :: realtime_turn_detection
  rsc_InputAudioTranscription :: "realtime_input_transcription option"
  rsc_Translation :: "string option"
  rsc_Tools :: "realtime_tool_definition list option"
  rsc_ToolChoice :: "tool_choice option"
  rsc_MaxOutputTokens :: "int option"

record realtime_session_config_update =
  rsu_Instructions :: "string option"
  rsu_OutputModalities :: "string list option"
  rsu_TurnDetection :: "realtime_turn_detection option"
  rsu_InputAudioTranscription :: "realtime_input_transcription option"
  rsu_Tools :: "realtime_tool_definition list option"
  rsu_ToolChoice :: "tool_choice option"
  rsu_MaxOutputTokens :: "int option"

record realtime_session_limits =
  rsl_MaxDurationMs :: int
  rsl_IdleTimeoutMs :: int
  rsl_MaxInputAudioBytes :: int
  rsl_MaxOutputAudioBytes :: int
  rsl_MaxResponses :: int

record realtime_client_metadata =
  rcm_Endpoint :: string
  rcm_ClientSessionID :: "string option"
  rcm_ReceivedAt :: string
  rcm_Labels :: "(string \<times> string) list"

record realtime_session_request =
  rsr_SchemaVersion :: int
  rsr_Attribution :: attribution
  rsr_ModelReference :: model_reference
  rsr_Kind :: string
  rsr_Transport :: string
  rsr_Config :: realtime_session_config
  rsr_Limits :: realtime_session_limits
  rsr_Client :: realtime_client_metadata
  rsr_RoutingPolicy :: routing_policy_reference
  rsr_AuthorizedRoutes :: "authorized_route list"

record realtime_response_parameters =
  rrp_Instructions :: "string option"
  rrp_OutputModalities :: "string list option"
  rrp_MaxOutputTokens :: "int option"
  rrp_ToolChoice :: "tool_choice option"

section \<open>Conversation items and commands\<close>

record realtime_content_part =
  rcp_Type :: string
  rcp_Text :: "string option"
  rcp_Format :: "string option"
  rcp_Data :: "string option"
  rcp_Transcript :: "string option"

record realtime_conversation_item =
  rci_Type :: string
  rci_ItemID :: "string option"
  rci_Role :: "string option"
  rci_Content :: "realtime_content_part list option"
  rci_CallID :: "string option"
  rci_Name :: "string option"
  rci_Arguments :: "string option"
  rci_Output :: "string option"

text \<open>What a command carries besides the fields every command has.\<close>

datatype realtime_command_body =
    SessionUpdate realtime_session_config_update
  | ItemCreate "string option" realtime_conversation_item
  | ItemDelete string
  | ItemTruncate string int int
  | InputAudioAppend string
  | InputAudioCommit
  | InputAudioClear
  | ResponseCreate "realtime_response_parameters option"
  | ResponseCancel "string option"
  | SessionResume int
  | SessionClose

record realtime_command =
  rc_SchemaVersion :: int
  rc_RequestID :: request_id
  rc_CommandID :: string
  rc_Body :: realtime_command_body

definition Identity :: "realtime_command \<Rightarrow> request_id \<times> string" where
  "Identity c = (rc_RequestID c, rc_CommandID c)"

fun CommandType :: "realtime_command_body \<Rightarrow> string" where
  "CommandType (SessionUpdate _) = ''session.update''"
| "CommandType (ItemCreate _ _) = ''conversation.item.create''"
| "CommandType (ItemDelete _) = ''conversation.item.delete''"
| "CommandType (ItemTruncate _ _ _) = ''conversation.item.truncate''"
| "CommandType (InputAudioAppend _) = ''input_audio.append''"
| "CommandType InputAudioCommit = ''input_audio.commit''"
| "CommandType InputAudioClear = ''input_audio.clear''"
| "CommandType (ResponseCreate _) = ''response.create''"
| "CommandType (ResponseCancel _) = ''response.cancel''"
| "CommandType (SessionResume _) = ''session.resume''"
| "CommandType SessionClose = ''session.close''"

section \<open>Refusals\<close>

datatype realtime_error =
    AuthorityRefusedSession | SessionVersion | SessionAttribution | SessionModelReference
  | SessionKindOrTransport | LimitsOutOfRange | IdleOutlastsSession | ClientIncomplete
  | InterimOnlyTranscription | ConversationNamesOutput | SpokenNeedsVoice | OnlyTranslationTranslates
  | TranscriptionTranscribes | TranscriptionNeverResponds | TranscriptionNoTurns
  | TranslationNamesTarget | TranslationNoTools
  | InstructionsTooLong | ModalitiesCount | ModalitiesRepeated | VoiceLength | AudioFormats
  | TurnDetectionRefused turn_detection_error | TranscriptionLanguage | TranscriptionPrompt
  | TranslationLanguage | TooManyTools | MaxOutputTokensNotPositive | ToolDeclarations
  | RoutesRefused request_error | RouteOtherModel nat | RouteOtherRevision nat
  | OtherSession | CommandIDLength | EmptyUpdate | PreviousItemIDLength | ItemIDLength
  | TruncationRefused | FrameSize | FrameNotBase64 | ResponseIDLength | AfterSequenceRange | CommandVersion
  | MessageShape | FunctionCallShape | FunctionCallOutputShape | NotAnItem string
  | PartRefused nat realtime_error
  | PartForRole string string | SystemIsText | TextPartShape | InputTextTooLong | AudioPartFormat
  | OutputAudioInline | NotAPart string

section \<open>Validation\<close>

definition boundedID :: "string \<Rightarrow> bool" where
  "boundedID s \<longleftrightarrow> s \<noteq> '''' \<and> utf16Length s \<le> 128"

definition boundedText :: "string option \<Rightarrow> int \<Rightarrow> int \<Rightarrow> bool" where
  "boundedText s lo hi \<longleftrightarrow>
     (case s of None \<Rightarrow> True | Some s \<Rightarrow> let n = int (utf16Length s) in n \<ge> lo \<and> n \<le> hi)"

definition ValidateRealtimeAudioFrame :: "string \<Rightarrow> realtime_error option" where
  "ValidateRealtimeAudioFrame data =
     (if length data < 4 \<or> length data > MaxRealtimeAudioFrameBase64Length \<or> length data mod 4 \<noteq> 0 then Some FrameSize
      else if stream_decode data = None then Some FrameNotBase64 else None)"

text \<open>\<open>DecodedLen\<close> of the padded encoding, less the padding among the last two characters.\<close>

definition DecodedRealtimeAudioBytes :: "string \<Rightarrow> int" where
  "DecodedRealtimeAudioBytes data =
     int (length data div 4 * 3) - int (length (filter (\<lambda>c. c = CHR ''='') (drop (length data - 2) data)))"

definition WantsInterim :: "realtime_input_transcription option \<Rightarrow> bool" where
  "WantsInterim t \<longleftrightarrow> (case t of None \<Rightarrow> False | Some t \<Rightarrow> rit_InterimResults t = Some True)"

definition input_transcription_validate :: "realtime_input_transcription \<Rightarrow> realtime_error option" where
  "input_transcription_validate t =
     (if \<not> boundedText (rit_Language t) 2 35 then Some TranscriptionLanguage
      else if \<not> boundedText (rit_Prompt t) 0 4096 then Some TranscriptionPrompt else None)"

fun modalities_repeat :: "string list \<Rightarrow> string list \<Rightarrow> bool" where
  "modalities_repeat seen [] \<longleftrightarrow> False"
| "modalities_repeat seen (m # ms) \<longleftrightarrow>
     \<not> is_member m realtimeOutputModalityValues \<or> is_member m seen \<or> modalities_repeat (m # seen) ms"

definition validateOutputModalities :: "string list option \<Rightarrow> realtime_error option" where
  "validateOutputModalities modalities =
     (case modalities of
        None \<Rightarrow> None
      | Some ms \<Rightarrow>
          if length ms < 1 \<or> length ms > 2 then Some ModalitiesCount
          else if modalities_repeat [] ms then Some ModalitiesRepeated else None)"

definition validateTuning :: "realtime_tool_definition list option \<Rightarrow> int option \<Rightarrow> realtime_error option" where
  "validateTuning tools maxOutputTokens =
     (if length (slice tools) > 128 then Some TooManyTools
      else if (case maxOutputTokens of Some n \<Rightarrow> n \<le> 0 | None \<Rightarrow> False) then Some MaxOutputTokensNotPositive
      else None)"

definition validateSharedConfig ::
  "realtime_tool_definition list option \<Rightarrow> tool_choice option \<Rightarrow> int option \<Rightarrow> realtime_error option" where
  "validateSharedConfig tools choice maxOutputTokens = first_error
     [validateTuning tools maxOutputTokens,
      refuse (\<not> validateToolDeclarations (map rtt_Name (slice tools)) choice) ToolDeclarations]"

definition config_validate :: "realtime_session_config \<Rightarrow> realtime_error option" where
  "config_validate c = first_error
     [refuse (\<not> boundedText (rsc_Instructions c) 0 maxRealtimeInstructions) InstructionsTooLong,
      validateOutputModalities (rsc_OutputModalities c),
      refuse (\<not> boundedText (rsc_Voice c) 1 64) VoiceLength,
      refuse (\<not> is_member (rsc_InputAudioFormat c) realtimeAudioFormatValues \<or>
              (case rsc_OutputAudioFormat c of Some f \<Rightarrow> \<not> is_member f realtimeAudioFormatValues | None \<Rightarrow> False)) AudioFormats,
      map_option TurnDetectionRefused (turn_detection_validate (rsc_TurnDetection c)),
      (case rsc_InputAudioTranscription c of None \<Rightarrow> None | Some t \<Rightarrow> input_transcription_validate t),
      refuse (\<not> boundedText (rsc_Translation c) 2 35) TranslationLanguage,
      validateSharedConfig (rsc_Tools c) (rsc_ToolChoice c) (rsc_MaxOutputTokens c)]"

definition limits_out_of_range :: "realtime_session_limits \<Rightarrow> bool" where
  "limits_out_of_range l \<longleftrightarrow>
     rsl_MaxDurationMs l < 1000 \<or> rsl_MaxDurationMs l > MaxRealtimeSessionDurationMs \<or>
     rsl_IdleTimeoutMs l < 1000 \<or> rsl_IdleTimeoutMs l > MaxRealtimeSessionDurationMs \<or>
     rsl_MaxInputAudioBytes l < 1 \<or> rsl_MaxInputAudioBytes l > MaxRealtimeSessionAudioBytes \<or>
     rsl_MaxOutputAudioBytes l < 1 \<or> rsl_MaxOutputAudioBytes l > MaxRealtimeSessionAudioBytes \<or>
     rsl_MaxResponses l < 1 \<or> rsl_MaxResponses l > 10000"

text \<open>The rules each kind of session has for its configuration.\<close>

definition kind_rules :: "string \<Rightarrow> realtime_session_config \<Rightarrow> realtime_error option" where
  "kind_rules kind c =
     (if kind = RealtimeConversation then
        (if rsc_OutputModalities c = None then Some ConversationNamesOutput
         else if is_member RealtimeOutputAudio (slice (rsc_OutputModalities c)) \<and>
                 (rsc_Voice c = None \<or> rsc_OutputAudioFormat c = None) then Some SpokenNeedsVoice
         else if rsc_Translation c \<noteq> None then Some OnlyTranslationTranslates else None)
      else if kind = RealtimeTranscription then
        (if rsc_InputAudioTranscription c = None then Some TranscriptionTranscribes
         else if rsc_OutputModalities c \<noteq> None \<or> rsc_Voice c \<noteq> None \<or> rsc_OutputAudioFormat c \<noteq> None \<or>
                 rsc_Translation c \<noteq> None \<or> rsc_Tools c \<noteq> None \<or> rsc_ToolChoice c \<noteq> None \<or>
                 rsc_MaxOutputTokens c \<noteq> None then Some TranscriptionNeverResponds
         else if createsOrInterrupts (rsc_TurnDetection c) then Some TranscriptionNoTurns else None)
      else if kind = RealtimeTranslation then
        (if rsc_Translation c = None \<or> rsc_OutputAudioFormat c = None then Some TranslationNamesTarget
         else if rsc_Tools c \<noteq> None \<or> rsc_ToolChoice c \<noteq> None then Some TranslationNoTools else None)
      else None)"

definition ValidateSession :: "realtime_session_request \<Rightarrow> realtime_error option" where
  "ValidateSession r =
     (let p = at_Principal (rsr_Attribution r); l = rsr_Limits r; c = rsr_Config r
      in first_error
       [refuse (validateAuthority (ap_Authority p) (ap_InferenceScopes p) \<noteq> None) AuthorityRefusedSession,
        refuse (rsr_SchemaVersion r \<noteq> 1) SessionVersion,
        refuse (at_RequestID (rsr_Attribution r) = '''' \<or> ap_BillingAccountID p = '''') SessionAttribution,
        refuse (\<not> reference_Valid (rsr_ModelReference r)) SessionModelReference,
        refuse (\<not> is_member (rsr_Kind r) realtimeSessionKindValues \<or>
                \<not> is_member (rsr_Transport r) realtimeSessionTransportValues) SessionKindOrTransport,
        config_validate c,
        refuse (limits_out_of_range l) LimitsOutOfRange,
        refuse (rsl_IdleTimeoutMs l > rsl_MaxDurationMs l) IdleOutlastsSession,
        refuse (rcm_Endpoint (rsr_Client r) = '''' \<or> length (rcm_Endpoint (rsr_Client r)) > 256 \<or>
                rcm_ReceivedAt (rsr_Client r) = '''') ClientIncomplete,
        refuse (rsr_Kind r \<noteq> RealtimeTranscription \<and> WantsInterim (rsc_InputAudioTranscription c)) InterimOnlyTranscription,
        kind_rules (rsr_Kind r) c])"

definition validateRoutes :: "realtime_session_request \<Rightarrow> realtime_error option" where
  "validateRoutes r =
     (case validateRouteList (rsr_AuthorizedRoutes r) of
        Some e \<Rightarrow> Some (RoutesRefused e)
      | None \<Rightarrow> first_error (indexed (\<lambda>i route.
          if ar_Substitution route \<noteq> SubstitutionSameModel \<or>
             ModelID (ar_ModelReference route) \<noteq> ModelID (rsr_ModelReference r) then Some (RouteOtherModel i)
          else if Pinned (rsr_ModelReference r) \<and> ar_ModelReference route \<noteq> rsr_ModelReference r
          then Some (RouteOtherRevision i) else None) (rsr_AuthorizedRoutes r)))"

definition session_Validate :: "realtime_session_request \<Rightarrow> realtime_error option" where
  "session_Validate r = first_error [ValidateSession r, validateRoutes r]"

definition part_validate :: "string \<Rightarrow> realtime_content_part \<Rightarrow> realtime_error option" where
  "part_validate role p =
     (let input = (rcp_Type p = RealtimeInputTextPart \<or> rcp_Type p = RealtimeInputAudioPart)
      in if (role = ''assistant'') = input then Some (PartForRole role (rcp_Type p))
         else if role = ''system'' \<and> rcp_Type p \<noteq> RealtimeInputTextPart then Some SystemIsText
         else if rcp_Type p = RealtimeInputTextPart \<or> rcp_Type p = RealtimeOutputTextPart then
           (case rcp_Text p of
              None \<Rightarrow> Some TextPartShape
            | Some t \<Rightarrow>
                if rcp_Format p \<noteq> None \<or> rcp_Data p \<noteq> None \<or> rcp_Transcript p \<noteq> None then Some TextPartShape
                else if rcp_Type p = RealtimeInputTextPart \<and> int (utf16Length t) > MaxRealtimeItemTextChars
                then Some InputTextTooLong else None)
         else if rcp_Type p = RealtimeInputAudioPart \<or> rcp_Type p = RealtimeOutputAudioPart then
           (if rcp_Text p \<noteq> None \<or> (case rcp_Format p of None \<Rightarrow> True | Some f \<Rightarrow> \<not> is_member f realtimeAudioFormatValues)
            then Some AudioPartFormat
            else if rcp_Type p = RealtimeOutputAudioPart \<and> rcp_Data p \<noteq> None then Some OutputAudioInline
            else (case rcp_Data p of None \<Rightarrow> None | Some d \<Rightarrow> ValidateRealtimeAudioFrame d))
         else Some (NotAPart (rcp_Type p)))"

definition item_Validate :: "realtime_conversation_item \<Rightarrow> realtime_error option" where
  "item_Validate i =
     (if (case rci_ItemID i of Some x \<Rightarrow> \<not> boundedID x | None \<Rightarrow> False) then Some ItemIDLength
      else if rci_Type i = RealtimeMessageItem then
        (case rci_Role i of
           None \<Rightarrow> Some MessageShape
         | Some role \<Rightarrow>
             let parts = slice (rci_Content i)
             in if \<not> is_member role realtimeItemRoleValues \<or> length parts = 0 \<or> length parts > 64 \<or>
                   rci_CallID i \<noteq> None \<or> rci_Name i \<noteq> None \<or> rci_Arguments i \<noteq> None \<or> rci_Output i \<noteq> None
                then Some MessageShape
                else first_error (indexed (\<lambda>n p. map_option (PartRefused n) (part_validate role p)) parts))
      else if rci_Type i = RealtimeFunctionCallItem then
        refuse (rci_Role i \<noteq> None \<or> rci_Content i \<noteq> None \<or> rci_Output i \<noteq> None \<or>
                (case rci_CallID i of None \<Rightarrow> True | Some x \<Rightarrow> \<not> boundedID x) \<or>
                (case rci_Name i of None \<Rightarrow> True | Some x \<Rightarrow> \<not> boundedID x) \<or> rci_Arguments i = None) FunctionCallShape
      else if rci_Type i = RealtimeFunctionCallOutputItem then
        refuse (rci_Role i \<noteq> None \<or> rci_Content i \<noteq> None \<or> rci_Name i \<noteq> None \<or> rci_Arguments i \<noteq> None \<or>
                (case rci_CallID i of None \<Rightarrow> True | Some x \<Rightarrow> \<not> boundedID x) \<or>
                (case rci_Output i of None \<Rightarrow> True | Some x \<Rightarrow> int (utf16Length x) > MaxRealtimeItemTextChars)) FunctionCallOutputShape
      else Some (NotAnItem (rci_Type i)))"

definition update_validate :: "realtime_session_config_update \<Rightarrow> realtime_error option" where
  "update_validate u = first_error
     [refuse (rsu_Instructions u = None \<and> rsu_OutputModalities u = None \<and> rsu_TurnDetection u = None \<and>
              rsu_InputAudioTranscription u = None \<and> rsu_Tools u = None \<and> rsu_ToolChoice u = None \<and>
              rsu_MaxOutputTokens u = None) EmptyUpdate,
      refuse (\<not> boundedText (rsu_Instructions u) 0 maxRealtimeInstructions) InstructionsTooLong,
      validateOutputModalities (rsu_OutputModalities u),
      (case rsu_TurnDetection u of None \<Rightarrow> None | Some t \<Rightarrow> map_option TurnDetectionRefused (turn_detection_validate t)),
      (case rsu_InputAudioTranscription u of None \<Rightarrow> None | Some t \<Rightarrow> input_transcription_validate t),
      validateTuning (rsu_Tools u) (rsu_MaxOutputTokens u)]"

fun body_validate :: "realtime_command_body \<Rightarrow> realtime_error option" where
  "body_validate (SessionUpdate u) = update_validate u"
| "body_validate (ItemCreate previous i) =
     first_error [refuse (case previous of Some x \<Rightarrow> \<not> boundedID x | None \<Rightarrow> False) PreviousItemIDLength, item_Validate i]"
| "body_validate (ItemDelete i) = refuse (\<not> boundedID i) ItemIDLength"
| "body_validate (ItemTruncate i contentIndex audioEndMs) =
     refuse (\<not> boundedID i \<or> contentIndex < 0 \<or> audioEndMs < 0) TruncationRefused"
| "body_validate (InputAudioAppend data) = ValidateRealtimeAudioFrame data"
| "body_validate InputAudioCommit = None"
| "body_validate InputAudioClear = None"
| "body_validate (ResponseCreate response) =
     (case response of
        None \<Rightarrow> None
      | Some r \<Rightarrow> first_error
          [refuse (\<not> boundedText (rrp_Instructions r) 0 maxRealtimeInstructions) InstructionsTooLong,
           validateOutputModalities (rrp_OutputModalities r),
           refuse (case rrp_MaxOutputTokens r of Some n \<Rightarrow> n \<le> 0 | None \<Rightarrow> False) MaxOutputTokensNotPositive])"
| "body_validate (ResponseCancel r) = refuse (case r of Some x \<Rightarrow> \<not> boundedID x | None \<Rightarrow> False) ResponseIDLength"
| "body_validate (SessionResume afterSequence) = refuse (afterSequence < -1) AfterSequenceRange"
| "body_validate SessionClose = None"

definition validateRealtimeCommand :: "realtime_command \<Rightarrow> request_id \<Rightarrow> realtime_error option" where
  "validateRealtimeCommand c session = first_error
     [refuse (fst (Identity c) \<noteq> session) OtherSession,
      refuse (\<not> boundedID (snd (Identity c))) CommandIDLength,
      body_validate (rc_Body c),
      refuse (rc_SchemaVersion c \<noteq> 1) CommandVersion]"

text \<open>The audio a command brings into a session (\<open>internal/realtime/session.go\<close>).\<close>

definition commandInputAudio :: "realtime_command_body \<Rightarrow> int" where
  "commandInputAudio c =
     (case c of
        InputAudioAppend data \<Rightarrow> DecodedRealtimeAudioBytes data
      | ItemCreate _ i \<Rightarrow>
          sum_list (map (\<lambda>p. case rcp_Data p of
              Some d \<Rightarrow> if rcp_Type p = RealtimeInputAudioPart then DecodedRealtimeAudioBytes d else 0
            | None \<Rightarrow> 0) (slice (rci_Content i)))
      | _ \<Rightarrow> 0)"

section \<open>Lemmas\<close>

lemma DecodedRealtimeAudioBytes_pads:
  "DecodedRealtimeAudioBytes data = int (3 * (length data div 4)) - int (tail_pads data)"
  by (simp add: DecodedRealtimeAudioBytes_def tail_pads_def)

lemma frame_accepted:
  "ValidateRealtimeAudioFrame data = None \<longleftrightarrow>
     4 \<le> length data \<and> length data \<le> 65536 \<and> 4 dvd length data \<and> stream_decode data \<noteq> None"
  by (auto simp: ValidateRealtimeAudioFrame_def MaxRealtimeAudioFrameBase64Length_def dvd_eq_mod_eq_0)

lemma frame_count_bounds:
  assumes "ValidateRealtimeAudioFrame data = None"
  shows "0 < DecodedRealtimeAudioBytes data" and "DecodedRealtimeAudioBytes data \<le> 49152"
proof -
  have n: "4 \<le> length data" "length data \<le> 65536" using assms by (simp_all add: frame_accepted)
  then have "1 \<le> length data div 4" "length data div 4 \<le> 16384" by linarith+
  then show "0 < DecodedRealtimeAudioBytes data" "DecodedRealtimeAudioBytes data \<le> 49152"
    using tail_pads_le [of data] by (simp_all add: DecodedRealtimeAudioBytes_pads)
qed

text \<open>An encoded clip: its groups, its padding, and what the decoder makes of it.\<close>

lemma encode_length: "length (base64_encode bytes) = 4 * ((length bytes + 2) div 3)"
  using base64_encode_shape [of bytes] by auto

lemma encode_no_breaks: "list_all (\<lambda>c. \<not> line_break c) (base64_encode bytes)"
proof -
  obtain d where d: "base64_encode bytes = d @ replicate (base64_pads bytes) (CHR ''='')" "list_all base64_char d"
    using base64_encode_shape [of bytes] by blast
  have "\<not> base64_char c" if "line_break c" for c
    using that unfolding line_break_def by (elim disjE) (simp_all add: base64_char_def char_class_defs)
  moreover have "\<not> line_break (CHR ''='')" by (simp add: line_break_def)
  ultimately show ?thesis using d(2) unfolding d(1) list_all_iff by auto
qed

lemma encode_head: "list_all base64_char (take (length (base64_encode bytes) - 4) (base64_encode bytes))"
proof -
  obtain d where d: "base64_encode bytes = d @ replicate (base64_pads bytes) (CHR ''='')" "list_all base64_char d"
    using base64_encode_shape [of bytes] by blast
  have "base64_pads bytes < 3" by (simp add: base64_pads_def)
  then have "take (length (base64_encode bytes) - 4) (base64_encode bytes) = take (length d + base64_pads bytes - 4) d"
    by (simp add: d(1))
  with d(2) show ?thesis by (auto simp: list_all_iff dest: in_set_takeD)
qed

lemma stream_decode_encode: "stream_decode (base64_encode bytes) = Some bytes"
  using decoder_run_groups [of "base64_encode bytes" "[]"] encode_no_breaks [of bytes] encode_head [of bytes]
  by (simp add: stream_decode_def encode_length decode_groups_encode)

lemma DecodedRealtimeAudioBytes_encode: "DecodedRealtimeAudioBytes (base64_encode bytes) = int (length bytes)"
proof -
  have "length bytes + tail_pads (base64_encode bytes) = 3 * (length (base64_encode bytes) div 4)"
    using decode_groups_measure [OF decode_groups_encode [of bytes]] by simp
  then show ?thesis by (simp add: DecodedRealtimeAudioBytes_pads)
qed

text \<open>What a valid command brings is a sum of valid frames.\<close>

lemma part_audio_nonneg:
  assumes "part_validate role p = None" and "rcp_Data p = Some d" and "rcp_Type p = RealtimeInputAudioPart"
  shows "0 \<le> DecodedRealtimeAudioBytes d \<and> DecodedRealtimeAudioBytes d \<le> 49152"
proof -
  have "ValidateRealtimeAudioFrame d = None"
    using assms by (auto simp: part_validate_def Let_def split: if_splits option.splits)
  then show ?thesis using frame_count_bounds [of d] by simp
qed

lemma sum_list_bounds:
  fixes f :: "'a \<Rightarrow> int"
  assumes "\<And>x. x \<in> set xs \<Longrightarrow> 0 \<le> f x \<and> f x \<le> b"
  shows "0 \<le> sum_list (map f xs) \<and> sum_list (map f xs) \<le> b * int (length xs)"
  using assms
proof (induction xs)
  case (Cons x xs)
  then have "0 \<le> f x \<and> f x \<le> b" "0 \<le> sum_list (map f xs) \<and> sum_list (map f xs) \<le> b * int (length xs)" by auto
  then show ?case by (simp add: algebra_simps)
qed simp

lemma item_audio_bounds:
  assumes "item_Validate i = None"
  shows "0 \<le> commandInputAudio (ItemCreate previous i) \<and> commandInputAudio (ItemCreate previous i) \<le> 64 * 49152"
proof (cases "rci_Type i = RealtimeMessageItem")
  case True
  let ?f = "\<lambda>p. case rcp_Data p of
      Some d \<Rightarrow> if rcp_Type p = RealtimeInputAudioPart then DecodedRealtimeAudioBytes d else 0 | None \<Rightarrow> 0"
  obtain role where parts: "\<And>n. n < length (slice (rci_Content i)) \<Longrightarrow> part_validate role (slice (rci_Content i) ! n) = None"
    and len: "length (slice (rci_Content i)) \<le> 64"
    using assms True
    by (auto simp: item_Validate_def Let_def first_error_indexed_None split: if_splits option.splits)
  have "0 \<le> ?f p \<and> ?f p \<le> 49152" if "p \<in> set (slice (rci_Content i))" for p
    using that parts part_audio_nonneg [of role p] by (auto simp: in_set_conv_nth split: option.splits)
  from sum_list_bounds [of "slice (rci_Content i)" ?f 49152, OF this] len
  show ?thesis by (simp add: commandInputAudio_def)
next
  case False
  then have "rci_Content i = None"
    using assms by (auto simp: item_Validate_def refuse_def split: if_splits option.splits)
  then show ?thesis by (simp add: commandInputAudio_def)
qed

lemma command_audio_bounds:
  assumes "validateRealtimeCommand c session = None"
  shows "0 \<le> commandInputAudio (rc_Body c) \<and> commandInputAudio (rc_Body c) \<le> 64 * 49152"
proof -
  have body: "body_validate (rc_Body c) = None"
    using assms by (simp add: validateRealtimeCommand_def first_error_Cons_None)
  show ?thesis
  proof (cases "rc_Body c")
    case (ItemCreate previous i)
    with body have "item_Validate i = None" by (simp add: first_error_Cons_None)
    then show ?thesis unfolding ItemCreate by (rule item_audio_bounds)
  next
    case (InputAudioAppend data)
    with body show ?thesis using frame_count_bounds [of data] by (simp add: commandInputAudio_def)
  qed (simp_all add: commandInputAudio_def)
qed

text \<open>
  C28: an audio frame the contract accepts decodes, and the bytes a session's ceilings are charged for it
  are at least the bytes it decodes to, at least one and at most 48 KiB: no accepted frame carries audio
  past a ceiling unseen.
\<close>

theorem accepted_frame_not_undercounted:
  assumes "ValidateRealtimeAudioFrame data = None"
  shows "\<exists>bytes. stream_decode data = Some bytes \<and> int (length bytes) \<le> DecodedRealtimeAudioBytes data \<and>
    0 < DecodedRealtimeAudioBytes data \<and> DecodedRealtimeAudioBytes data \<le> 49152"
proof -
  obtain bytes where b: "stream_decode data = Some bytes" "4 dvd length data"
    using assms by (auto simp: frame_accepted)
  show ?thesis using stream_decode_measure [OF b] frame_count_bounds [OF assms] b(1)
    by (simp add: DecodedRealtimeAudioBytes_pads)
qed

theorem accepted_frame_not_undercounted_witness:
  "ValidateRealtimeAudioFrame ''AQI='' = None \<and>
   (\<exists>bytes. stream_decode ''AQI='' = Some bytes \<and> int (length bytes) \<le> DecodedRealtimeAudioBytes ''AQI='' \<and>
      0 < DecodedRealtimeAudioBytes ''AQI='' \<and> DecodedRealtimeAudioBytes ''AQI='' \<le> 49152)"
proof -
  have "stream_decode ''AQI='' \<noteq> None"
    by (simp add: stream_decode_def decoder_run.simps decoder_buffer_def line_break_def base64_char_def
        quantum_bytes_def base64_value_def char_class_defs)
  then have v: "ValidateRealtimeAudioFrame ''AQI='' = None" by (auto simp: frame_accepted intro: dvdI [of _ _ 1])
  with accepted_frame_not_undercounted [OF v] show ?thesis by simp
qed

text \<open>
  C38: audio encoded as padded base64 is a frame exactly when it is 1 byte to 48 KiB long; the decoder
  gives back the audio, and the session is charged exactly its length.
\<close>

theorem encoded_audio_roundtrip:
  "(ValidateRealtimeAudioFrame (base64_encode bytes) = None \<longleftrightarrow> bytes \<noteq> [] \<and> length bytes \<le> 49152) \<and>
   stream_decode (base64_encode bytes) = Some bytes \<and>
   DecodedRealtimeAudioBytes (base64_encode bytes) = int (length bytes)"
proof -
  have "(length bytes + 2) div 3 < 16385 \<longleftrightarrow> length bytes + 2 < 16385 * 3" "(length bytes + 2) div 3 < 1 \<longleftrightarrow> length bytes + 2 < 1 * 3"
    by (rule div_less_iff_less_mult, simp)+
  then have "4 \<le> 4 * ((length bytes + 2) div 3) \<longleftrightarrow> 1 \<le> length bytes"
    "4 * ((length bytes + 2) div 3) \<le> 65536 \<longleftrightarrow> length bytes \<le> 49152" by linarith+
  moreover have "1 \<le> length bytes \<longleftrightarrow> bytes \<noteq> []" by (cases bytes) simp_all
  ultimately show ?thesis
    by (simp add: frame_accepted encode_length stream_decode_encode DecodedRealtimeAudioBytes_encode)
qed

text \<open>
  Line breaks are dropped before decoding but counted by the size: four of them are a frame the
  contract accepts, which holds no audio and is charged three bytes.
\<close>

lemma line_breaks_counted_as_audio:
  "ValidateRealtimeAudioFrame (replicate 4 (CHR 10)) = None \<and> stream_decode (replicate 4 (CHR 10)) = Some [] \<and>
   DecodedRealtimeAudioBytes (replicate 4 (CHR 10)) = 3"
proof -
  have s: "stream_decode (replicate 4 (CHR 10)) = Some []"
    by (simp add: stream_decode_def decoder_run.simps decoder_buffer_def line_break_def)
  then show ?thesis by (simp add: frame_accepted DecodedRealtimeAudioBytes_def)
qed

section \<open>Sessions\<close>

lemma session_accepted:
  assumes "session_Validate r = None"
  shows "ValidateSession r = None" and "validateRoutes r = None"
  using assms by (simp_all add: session_Validate_def first_error_Cons_None)

lemma validateRoutes_None:
  "validateRoutes r = None \<longleftrightarrow>
     validateRouteList (rsr_AuthorizedRoutes r) = None \<and>
     (\<forall>x \<in> set (rsr_AuthorizedRoutes r). ar_Substitution x = SubstitutionSameModel \<and>
        ModelID (ar_ModelReference x) = ModelID (rsr_ModelReference r) \<and>
        (Pinned (rsr_ModelReference r) \<longrightarrow> ar_ModelReference x = rsr_ModelReference r))"
  by (auto simp: validateRoutes_def first_error_indexed_None all_set_conv_all_nth split: option.splits if_splits)

lemma session_limits:
  assumes "session_Validate r = None"
  shows "\<not> limits_out_of_range (rsr_Limits r) \<and> rsl_IdleTimeoutMs (rsr_Limits r) \<le> rsl_MaxDurationMs (rsr_Limits r)"
  using session_accepted(1) [OF assms] unfolding ValidateSession_def Let_def
  by (auto simp: first_error_Cons_None)

definition demo_session_config :: realtime_session_config where
  "demo_session_config =
     \<lparr>rsc_Instructions = None, rsc_OutputModalities = Some [''audio''], rsc_Voice = Some ''v'',
      rsc_InputAudioFormat = ''pcm16_24khz'', rsc_OutputAudioFormat = Some ''pcm16_24khz'',
      rsc_TurnDetection = \<lparr>rtd_Type = TurnDetectionNone, rtd_Threshold = None, rtd_PrefixPaddingMs = None,
        rtd_SilenceDurationMs = None, rtd_Eagerness = None, rtd_CreateResponse = None, rtd_InterruptResponse = None\<rparr>,
      rsc_InputAudioTranscription = None, rsc_Translation = None, rsc_Tools = None, rsc_ToolChoice = None,
      rsc_MaxOutputTokens = None\<rparr>"

definition demo_session :: "authorized_route list \<Rightarrow> realtime_session_request" where
  "demo_session routes =
     \<lparr>rsr_SchemaVersion = 1, rsr_Attribution = rq_Attribution (demo_request [] []), rsr_ModelReference = ''a/m'',
      rsr_Kind = RealtimeConversation, rsr_Transport = ''websocket'', rsr_Config = demo_session_config,
      rsr_Limits = \<lparr>rsl_MaxDurationMs = 60000, rsl_IdleTimeoutMs = 10000, rsl_MaxInputAudioBytes = 6,
        rsl_MaxOutputAudioBytes = 6, rsl_MaxResponses = 1\<rparr>,
      rsr_Client = \<lparr>rcm_Endpoint = ''/v1/realtime'', rcm_ClientSessionID = None, rcm_ReceivedAt = ''2026-01-01T00:00:00.000Z'',
        rcm_Labels = []\<rparr>,
      rsr_RoutingPolicy = \<lparr>rp_RoutingPolicyID = ''rp'', rp_PolicyVersion = 1\<rparr>, rsr_AuthorizedRoutes = routes\<rparr>"

text \<open>
  C37: a session request the contract accepts is never a substitution: it has a route, its deployments are
  distinct, every route serves the line the session named, at the revision it pinned when it pinned
  one, and its ceilings are within the published bounds: an idle timeout of a second up to the duration, a
  duration of up to an hour, 1 to 172,800,000 bytes of audio each way, and 1 to 10,000 responses.
\<close>

theorem accepted_session_never_substitutes:
  assumes "session_Validate r = None"
  shows "rsr_AuthorizedRoutes r \<noteq> [] \<and> distinct (map ar_DeploymentID (rsr_AuthorizedRoutes r)) \<and>
    list_all (\<lambda>x. ar_Substitution x = SubstitutionSameModel \<and> Pinned (ar_ModelReference x) \<and>
       ModelID (ar_ModelReference x) = ModelID (rsr_ModelReference r) \<and>
       (if Pinned (rsr_ModelReference r) then ar_ModelReference x = rsr_ModelReference r else True)) (rsr_AuthorizedRoutes r) \<and>
    (let l = rsr_Limits r
     in 1000 \<le> rsl_IdleTimeoutMs l \<and> rsl_IdleTimeoutMs l \<le> rsl_MaxDurationMs l \<and> rsl_MaxDurationMs l \<le> 3600000 \<and>
        1 \<le> rsl_MaxInputAudioBytes l \<and> rsl_MaxInputAudioBytes l \<le> 172800000 \<and>
        1 \<le> rsl_MaxOutputAudioBytes l \<and> rsl_MaxOutputAudioBytes l \<le> 172800000 \<and>
        1 \<le> rsl_MaxResponses l \<and> rsl_MaxResponses l \<le> 10000)"
  using session_accepted(2) [OF assms] session_limits [OF assms] route_validate_None
  by (auto simp: validateRoutes_None validateRouteList_None list_all_iff Let_def limits_out_of_range_def
      MaxRealtimeSessionDurationMs_def MaxRealtimeSessionAudioBytes_def)

theorem accepted_session_never_substitutes_witness:
  "let r = demo_session [demo_route ''d1'' ''a/m@1'']
   in session_Validate r = None \<and> distinct (map ar_DeploymentID (rsr_AuthorizedRoutes r))"
proof -
  have v: "session_Validate (demo_session [demo_route ''d1'' ''a/m@1'']) = None" by code_simp
  with accepted_session_never_substitutes [OF v] show ?thesis by (simp only: Let_def simp_thms)
qed

end
