(* ===== verification/Realtime_Events.thy ===== *)
theory Realtime_Events
  imports Realtime_Contract Emitter Error_Contract
begin

text \<open>
  The events a realtime session sends (\<open>internal/contract/realtime_wire.go\<close>), the errors of the
  public surface and the projection of both onto it (\<open>internal/contract/public.go\<close>). The fields
  every event carries are its header; the rest is its constructor. A public code is an error code,
  since the code is converted and not translated.
\<close>

section \<open>Public errors\<close>

definition publicErrorCodeValues :: "error_code list" where
  "publicErrorCodeValues =
     [CodeInvalidRequest, CodeAuthenticationFailed, CodePermissionDenied, CodeInsufficientScope,
      CodeModelNotFound, CodeUnsupportedModality, CodeContextLengthExceeded, CodeRequestTooLarge,
      CodeOutputLimitExceeded, CodeIdempotencyConflict, CodeInsufficientBalance, CodeSpendingLimitExceeded,
      CodeQuotaExceeded, CodeBYOKCredentialInvalid, CodePolicyViolation, CodeCommercialPermissionDenied,
      CodeNoRouteAvailable, CodeUpstreamContentFiltered, CodeCancelled, CodeRateLimited,
      CodeProviderError, CodeProviderTimeout, CodeProviderOverloaded, CodeServiceUnavailable, CodeInternalError]"

definition publicErrorHTTPStatus :: "(error_code \<times> int) list" where
  "publicErrorHTTPStatus =
     [(CodeInvalidRequest, 400), (CodeAuthenticationFailed, 401),
      (CodePermissionDenied, 403), (CodeInsufficientScope, 403),
      (CodeModelNotFound, 404), (CodeUnsupportedModality, 400),
      (CodeContextLengthExceeded, 400), (CodeRequestTooLarge, 413),
      (CodeOutputLimitExceeded, 400), (CodeIdempotencyConflict, 409),
      (CodeInsufficientBalance, 402), (CodeSpendingLimitExceeded, 402),
      (CodeQuotaExceeded, 429), (CodeBYOKCredentialInvalid, 400),
      (CodePolicyViolation, 403), (CodeCommercialPermissionDenied, 403),
      (CodeNoRouteAvailable, 503), (CodeUpstreamContentFiltered, 400),
      (CodeCancelled, 499), (CodeRateLimited, 429),
      (CodeProviderError, 502), (CodeProviderTimeout, 504),
      (CodeProviderOverloaded, 503), (CodeServiceUnavailable, 503), (CodeInternalError, 500)]"

definition HTTPStatus :: "error_code \<Rightarrow> int" where
  "HTTPStatus c = (case map_of publicErrorHTTPStatus c of Some status \<Rightarrow> status | None \<Rightarrow> 500)"

definition public_Valid :: "error_code \<Rightarrow> bool" where
  "public_Valid c \<longleftrightarrow> is_member c publicErrorCodeValues"

record public_error =
  pe_SchemaVersion :: int
  pe_Code :: error_code
  pe_Message :: string
  pe_Retryable :: bool
  pe_RequestID :: request_id
  pe_RetryAfterMs :: "int option"
  pe_Param :: "string option"
  pe_UpstreamCategory :: "upstream_category option"

definition NewPublicError :: "request_id \<Rightarrow> error_code \<Rightarrow> string \<Rightarrow> public_error" where
  "NewPublicError requestID code message =
     \<lparr>pe_SchemaVersion = SchemaVersion, pe_Code = code, pe_Message = SafeErrorText message,
      pe_Retryable = Retryable code, pe_RequestID = requestID, pe_RetryAfterMs = None, pe_Param = None,
      pe_UpstreamCategory = None\<rparr>"

definition public_WithParam :: "public_error \<Rightarrow> string \<Rightarrow> public_error" where
  "public_WithParam e param = e\<lparr>pe_Param := Some param\<rparr>"

definition public_WithRetryAfter :: "public_error \<Rightarrow> int \<Rightarrow> public_error" where
  "public_WithRetryAfter e ms = (if pe_Retryable e \<and> ms \<ge> 0 then e\<lparr>pe_RetryAfterMs := Some ms\<rparr> else e)"

definition publicMessages :: "(error_code \<times> string) list" where
  "publicMessages =
     [(CodeInvalidRequest, ''the request cannot be served as asked''),
      (CodeAuthenticationFailed, ''the credential was not accepted; applications and keys are managed in Oxy Console (https://console.oxy.so)''),
      (CodePermissionDenied, ''the credential is not permitted to make this request; see Oxy Console (https://console.oxy.so)''),
      (CodeInsufficientScope, ''the credential lacks the scope this request needs; see Oxy Console (https://console.oxy.so)''),
      (CodeModelNotFound, ''no such model is served''),
      (CodeUnsupportedModality, ''the model does not serve this kind of request''),
      (CodeContextLengthExceeded, ''the request exceeds the model'' @ [CHR 39] @ ''s context window''),
      (CodeRequestTooLarge, ''the request is larger than this endpoint accepts''),
      (CodeOutputLimitExceeded, ''the requested output exceeds the model'' @ [CHR 39] @ ''s limit''),
      (CodeIdempotencyConflict, ''the idempotency key was already used for a different request''),
      (CodeInsufficientBalance, ''the account has insufficient balance; billing is managed in Oxy Console (https://console.oxy.so)''),
      (CodeSpendingLimitExceeded, ''a spending limit would be exceeded; limits are managed in Oxy Console (https://console.oxy.so)''),
      (CodeQuotaExceeded, ''a quota for this credential is exhausted''),
      (CodeBYOKCredentialInvalid, ''the customer provider credential is unavailable; check it in Oxy Console (https://console.oxy.so)''),
      (CodePolicyViolation, ''the request is outside the application'' @ [CHR 39] @ ''s inference policy''),
      (CodeCommercialPermissionDenied, ''the model may not be used commercially under this application'' @ [CHR 39] @ ''s terms''),
      (CodeNoRouteAvailable, ''no route can serve this request now''),
      (CodeUpstreamContentFiltered, ''the request or its output was filtered''),
      (CodeCancelled, ''the request was cancelled''),
      (CodeRateLimited, ''the request rate limit was reached; retry later''),
      (CodeProviderError, ''the model failed to serve the request''),
      (CodeProviderTimeout, ''the model did not respond in time''),
      (CodeProviderOverloaded, ''the model is overloaded; retry later''),
      (CodeServiceUnavailable, ''the service is temporarily unavailable; retry later''),
      (CodeInternalError, ''an internal error occurred'')]"

definition PublicMessage :: "error_code \<Rightarrow> string" where
  "PublicMessage code =
     (case map_of publicMessages code of
        Some message \<Rightarrow> message
      | None \<Rightarrow> (case map_of publicMessages CodeInternalError of Some message \<Rightarrow> message | None \<Rightarrow> ''''))"

definition public_code :: "error_code \<Rightarrow> error_code" where
  "public_code c =
     (let c = (if c \<in> {CodeProviderCredentialInvalid, CodeProviderBillingRefused, CodeDeploymentUnavailable}
               then CodeServiceUnavailable else c)
      in if \<not> public_Valid c then CodeInternalError else c)"

definition PublicErrorFrom :: "contract_error \<Rightarrow> public_error" where
  "PublicErrorFrom failure =
     (let code = public_code (ce_Code failure);
          e = NewPublicError (ce_RequestID failure) code (PublicMessage code);
          e = (case ce_Param failure of
                 Some param \<Rightarrow>
                   if code = CodeInvalidRequest
                   then (public_WithParam e param)\<lparr>pe_Message := SafeErrorText (PublicMessage code @ '' ('' @ param @ '')'')\<rparr>
                   else e
               | None \<Rightarrow> e);
          e = (case ce_RetryAfterMs failure of Some ms \<Rightarrow> public_WithRetryAfter e ms | None \<Rightarrow> e);
          e = e\<lparr>pe_UpstreamCategory := ce_UpstreamCategory failure\<rparr>
      in if \<not> pe_Retryable e then e\<lparr>pe_RetryAfterMs := None\<rparr> else e)"

section \<open>Server events\<close>

record realtime_event_header =
  rh_SchemaVersion :: int
  rh_RequestID :: request_id
  rh_Sequence :: int
  rh_CommandID :: "string option"

record session_created =
  scr_ResolvedModelReference :: model_reference
  scr_ServingProvider :: provider_slug
  scr_DeploymentID :: deployment_id
  scr_Kind :: string
  scr_Config :: realtime_session_config
  scr_Limits :: realtime_session_limits
  scr_ResumeWindowMs :: int
  scr_StartedAt :: timestamp
  scr_ExpiresAt :: timestamp

record public_session_created =
  psc_Model :: model_reference
  psc_Kind :: string
  psc_Config :: realtime_session_config
  psc_Limits :: realtime_session_limits
  psc_ResumeWindowMs :: int
  psc_StartedAt :: timestamp
  psc_ExpiresAt :: timestamp

record response_done =
  rdn_ResponseID :: string
  rdn_Status :: string
  rdn_FinishReason :: "finish_reason option"
  rdn_DeploymentID :: deployment_id
  rdn_Units :: "usage_quantity list"
  rdn_UsageSource :: usage_source

record public_response_done =
  prd_ResponseID :: string
  prd_Status :: string
  prd_FinishReason :: "finish_reason option"
  prd_Units :: "usage_quantity list"
  prd_UsageSource :: usage_source

datatype close_reason =
    RealtimeClosedByClient | RealtimeMaxDuration | RealtimeIdleTimeout | RealtimeLimitExceeded
  | RealtimeResumeExpired | RealtimeUpstreamClosed | RealtimeUpstreamError | RealtimeNoRouteAvailable
  | RealtimeServerShutdown

record session_closed =
  scl_Reason :: close_reason
  scl_DeploymentID :: "deployment_id option"
  scl_Units :: "usage_quantity list"
  scl_UsageSource :: usage_source
  scl_ClosedAt :: timestamp

record public_session_closed =
  pcl_Reason :: close_reason
  pcl_Units :: "usage_quantity list"
  pcl_UsageSource :: usage_source
  pcl_ClosedAt :: timestamp

datatype realtime_server_event =
    SessionCreatedEvent session_created
  | SessionUpdatedEvent realtime_session_config
  | SessionResumedEvent int
  | CommandAcceptedEvent bool
  | ItemAddedEvent string "string option" realtime_conversation_item
  | ItemDoneEvent string realtime_conversation_item
  | ItemDeletedEvent string
  | ItemTruncatedEvent string int int
  | SpeechStartedEvent string int
  | SpeechStoppedEvent string int
  | InputAudioCommittedEvent string "string option"
  | InputAudioClearedEvent
  | ResponseCreatedEvent string
  | OutputAudioDeltaEvent string string int string string
  | OutputAudioDoneEvent string string int
  | TranscriptDeltaEvent string string int "string option" string
  | TranscriptDoneEvent string string int "string option" string
  | TranscriptInterimEvent string string int string
  | TextDeltaEvent string string int string
  | ToolCallEvent string string string "string option" "string option" bool
  | ResponseDoneEvent response_done
  | ErrorEvent bool contract_error
  | SessionClosedEvent session_closed
  | PublicSessionCreatedEvent public_session_created
  | PublicResponseDoneEvent public_response_done
  | PublicErrorEvent bool public_error
  | PublicSessionClosedEvent public_session_closed

fun EventType :: "realtime_server_event \<Rightarrow> string" where
  "EventType (SessionCreatedEvent _) = ''session.created''"
| "EventType (SessionUpdatedEvent _) = ''session.updated''"
| "EventType (SessionResumedEvent _) = ''session.resumed''"
| "EventType (CommandAcceptedEvent _) = ''command.accepted''"
| "EventType (ItemAddedEvent _ _ _) = ''conversation.item.added''"
| "EventType (ItemDoneEvent _ _) = ''conversation.item.done''"
| "EventType (ItemDeletedEvent _) = ''conversation.item.deleted''"
| "EventType (ItemTruncatedEvent _ _ _) = ''conversation.item.truncated''"
| "EventType (SpeechStartedEvent _ _) = ''input_audio.speech_started''"
| "EventType (SpeechStoppedEvent _ _) = ''input_audio.speech_stopped''"
| "EventType (InputAudioCommittedEvent _ _) = ''input_audio.committed''"
| "EventType InputAudioClearedEvent = ''input_audio.cleared''"
| "EventType (ResponseCreatedEvent _) = ''response.created''"
| "EventType (OutputAudioDeltaEvent _ _ _ _ _) = ''output_audio.delta''"
| "EventType (OutputAudioDoneEvent _ _ _) = ''output_audio.done''"
| "EventType (TranscriptDeltaEvent _ _ _ _ _) = ''transcript.delta''"
| "EventType (TranscriptDoneEvent _ _ _ _ _) = ''transcript.done''"
| "EventType (TranscriptInterimEvent _ _ _ _) = ''transcript.interim''"
| "EventType (TextDeltaEvent _ _ _ _) = ''text.delta''"
| "EventType (ToolCallEvent _ _ _ _ _ _) = ''tool_call''"
| "EventType (ResponseDoneEvent _) = ''response.done''"
| "EventType (ErrorEvent _ _) = ''error''"
| "EventType (SessionClosedEvent _) = ''session.closed''"
| "EventType (PublicSessionCreatedEvent _) = ''session.created''"
| "EventType (PublicResponseDoneEvent _) = ''response.done''"
| "EventType (PublicErrorEvent _ _) = ''error''"
| "EventType (PublicSessionClosedEvent _) = ''session.closed''"

text \<open>An event on the wire: its header and discriminator, which \<open>Stamp\<close> sets, and its own fields.\<close>

record stamped_event =
  se_Header :: realtime_event_header
  se_Type :: string
  se_Event :: realtime_server_event

definition Stamp :: "realtime_event_header \<Rightarrow> realtime_server_event \<Rightarrow> stamped_event" where
  "Stamp h e = \<lparr>se_Header = h, se_Type = EventType e, se_Event = e\<rparr>"

definition PublicRealtimeEvent :: "realtime_server_event \<Rightarrow> realtime_server_event" where
  "PublicRealtimeEvent event =
     (case event of
        SessionCreatedEvent e \<Rightarrow> PublicSessionCreatedEvent
          \<lparr>psc_Model = scr_ResolvedModelReference e, psc_Kind = scr_Kind e, psc_Config = scr_Config e,
           psc_Limits = scr_Limits e, psc_ResumeWindowMs = scr_ResumeWindowMs e, psc_StartedAt = scr_StartedAt e,
           psc_ExpiresAt = scr_ExpiresAt e\<rparr>
      | ResponseDoneEvent e \<Rightarrow> PublicResponseDoneEvent
          \<lparr>prd_ResponseID = rdn_ResponseID e, prd_Status = rdn_Status e, prd_FinishReason = rdn_FinishReason e,
           prd_Units = rdn_Units e, prd_UsageSource = rdn_UsageSource e\<rparr>
      | ErrorEvent fatal e \<Rightarrow> PublicErrorEvent fatal (PublicErrorFrom e)
      | SessionClosedEvent e \<Rightarrow> PublicSessionClosedEvent
          \<lparr>pcl_Reason = scl_Reason e, pcl_Units = scl_Units e, pcl_UsageSource = scl_UsageSource e,
           pcl_ClosedAt = scl_ClosedAt e\<rparr>
      | e \<Rightarrow> e)"

section \<open>Lemmas\<close>

lemma public_code_valid: "public_Valid (public_code c)"
  by (cases c) (simp_all add: public_code_def public_Valid_def publicErrorCodeValues_def is_member_def)

lemma EventType_public [simp]: "EventType (PublicRealtimeEvent e) = EventType e"
  by (cases e) (simp_all add: PublicRealtimeEvent_def)

lemma PublicErrorFrom_code [simp]: "pe_Code (PublicErrorFrom f) = public_code (ce_Code f)"
  by (simp add: PublicErrorFrom_def NewPublicError_def public_WithParam_def public_WithRetryAfter_def Let_def
      split: option.split)

lemma PublicErrorFrom_retryable [simp]: "pe_Retryable (PublicErrorFrom f) = Retryable (public_code (ce_Code f))"
  by (simp add: PublicErrorFrom_def NewPublicError_def public_WithParam_def public_WithRetryAfter_def Let_def
      split: option.split)

text \<open>Replace what is the provider's and the deployment's in an event.\<close>

definition hide_error :: "string \<Rightarrow> passthrough option \<Rightarrow> contract_error \<Rightarrow> contract_error" where
  "hide_error m p e = e\<lparr>ce_Message := m, ce_ProviderError := p, ce_Retryable := False\<rparr>"

fun hide_provider :: "provider_slug \<Rightarrow> deployment_id \<Rightarrow> string \<Rightarrow> passthrough option \<Rightarrow> realtime_server_event \<Rightarrow> realtime_server_event" where
  "hide_provider p d m pass (SessionCreatedEvent e) = SessionCreatedEvent (e\<lparr>scr_ServingProvider := p, scr_DeploymentID := d\<rparr>)"
| "hide_provider p d m pass (ResponseDoneEvent e) = ResponseDoneEvent (e\<lparr>rdn_DeploymentID := d\<rparr>)"
| "hide_provider p d m pass (SessionClosedEvent e) = SessionClosedEvent (e\<lparr>scl_DeploymentID := Some d\<rparr>)"
| "hide_provider p d m pass (ErrorEvent fatal e) = ErrorEvent fatal (hide_error m pass e)"
| "hide_provider p d m pass e = e"

lemma PublicErrorFrom_hide: "PublicErrorFrom (hide_error m p e) = PublicErrorFrom e"
  by (simp add: PublicErrorFrom_def hide_error_def)

lemma PublicMessage_visible: "\<exists>c u. PublicMessage code = c # u \<and> \<not> is_space c \<and> byte_of c < 128"
  by (cases code) (simp_all add: PublicMessage_def publicMessages_def is_space_def byte_of_def)

text \<open>
  C24: the public surface names neither the provider nor the deployment that served a session, and no text
  of an internal error: replacing all of them changes no public event, no event of the four kinds that
  carry them is left, and the discriminator stays. A projected error has a public code and a text that is
  safe to show, not empty and within the limit, and says when to retry only if a retry can help.
\<close>

theorem public_surface_hides_provider:
  "PublicRealtimeEvent (hide_provider p d m pass e) = PublicRealtimeEvent e \<and>
   EventType (PublicRealtimeEvent e) = EventType e \<and>
   (case PublicRealtimeEvent e of
      SessionCreatedEvent _ \<Rightarrow> False | ResponseDoneEvent _ \<Rightarrow> False | ErrorEvent _ _ \<Rightarrow> False | SessionClosedEvent _ \<Rightarrow> False
    | _ \<Rightarrow> True) \<and>
   (let x = PublicErrorFrom f
    in public_Valid (pe_Code x) \<and> safe_text (pe_Message x) \<and> length (pe_Message x) \<le> 2000 \<and>
       (case pe_RetryAfterMs x of Some ms \<Rightarrow> pe_Retryable x \<and> 0 \<le> ms | None \<Rightarrow> True))"
proof (intro conjI)
  show "PublicRealtimeEvent (hide_provider p d m pass e) = PublicRealtimeEvent e"
    by (cases e) (simp_all add: PublicRealtimeEvent_def PublicErrorFrom_hide)
  show "EventType (PublicRealtimeEvent e) = EventType e" by simp
  show "case PublicRealtimeEvent e of
      SessionCreatedEvent _ \<Rightarrow> False | ResponseDoneEvent _ \<Rightarrow> False | ErrorEvent _ _ \<Rightarrow> False | SessionClosedEvent _ \<Rightarrow> False
    | _ \<Rightarrow> True"
    by (cases e) (simp_all add: PublicRealtimeEvent_def)
  have "safe_text (SafeErrorText (PublicMessage code @ u))" for code u
    using PublicMessage_visible [of code] SafeErrorText_visible SafeErrorText_bounded by (fastforce simp: safe_text_def bounded_text_def)
  from this [of _ "[]"] this have "safe_text (pe_Message (PublicErrorFrom f)) \<and> length (pe_Message (PublicErrorFrom f)) \<le> 2000"
    by (simp add: PublicErrorFrom_def NewPublicError_def public_WithParam_def public_WithRetryAfter_def Let_def
        SafeErrorText_length split: option.split)
  moreover have "case pe_RetryAfterMs (PublicErrorFrom f) of
      Some ms \<Rightarrow> Retryable (public_code (ce_Code f)) \<and> 0 \<le> ms | None \<Rightarrow> True"
    by (simp add: PublicErrorFrom_def NewPublicError_def public_WithParam_def public_WithRetryAfter_def Let_def
        split: option.split)
  ultimately show "let x = PublicErrorFrom f
    in public_Valid (pe_Code x) \<and> safe_text (pe_Message x) \<and> length (pe_Message x) \<le> 2000 \<and>
       (case pe_RetryAfterMs x of Some ms \<Rightarrow> pe_Retryable x \<and> 0 \<le> ms | None \<Rightarrow> True)"
    by (simp add: Let_def public_code_valid split: option.splits)
qed

end
