(* ===== verification/Executor_Session.thy ===== *)
theory Executor_Session
  imports Executor Realtime_Events
begin

text \<open>
  The executor's half of a realtime session (\<open>internal/kaana/session.go\<close>): the signed routes are
  tried in order until one opens, and the session that ends is priced, recorded and reported.

  The world is the one of a request (\<open>exec_env\<close>, read at numbered sites of numbered turns, one turn per
  route) and what a session adapter's \<open>Open\<close> answers: what the attempt spent, and the open upstream,
  of type \<open>'u\<close>, or an error.
\<close>

record realtime_opened =
  rto_KeyID :: string
  rto_KeyClass :: key_class

record realtime_open_request =
  ror_RequestID :: request_id
  ror_Route :: route
  ror_Kind :: string
  ror_Config :: realtime_session_config

record ('c, 'd, 'u) session_env =
  sn_exec :: "('c, 'd) exec_env"
  sn_describeSession :: "realtime_error \<Rightarrow> string"
  sn_open :: "nat \<Rightarrow> session_adapter \<Rightarrow> realtime_open_request \<Rightarrow> credentials \<Rightarrow> realtime_opened \<times> (go_error + 'u)"
  sn_recorder :: "(cost_record \<Rightarrow> go_error option) option"

definition EnvelopeInputTranscriptionRefused :: "request_id \<Rightarrow> contract_error" where
  "EnvelopeInputTranscriptionRefused requestID =
     WithParam (NewError requestID CodeInvalidRequest
       ''input transcription inside a realtime session is settled in a unit the signed-envelope lane cannot carry; it is served on kaana.ai/v1'')
       ''config.inputAudioTranscription''"

record 'u session_opening =
  so_Upstream :: "'u option"
  so_Route :: route
  so_Failure :: "contract_error option"
  so_requestID :: request_id
  so_attribution :: attribution
  so_generationID :: "string option"
  so_startedAt :: instant
  so_attempts :: "attempt_usage list"
  so_keyID :: string
  so_keyClass :: key_class
  so_openStartedAt :: instant
  so_openClock :: instant

definition Opened :: "'u session_opening \<Rightarrow> bool" where
  "Opened o' \<longleftrightarrow> so_Upstream o' \<noteq> None"

definition OpensRealtime :: "session_adapter \<Rightarrow> string \<Rightarrow> bool" where
  "OpensRealtime a kind \<longleftrightarrow> is_member kind (sa_Kinds a)"

text \<open>
  The variables of the loop. \<open>os_opens\<close> is a history variable: each use of \<open>Open\<close>, in order, with the
  credentials it was given and how it failed.
\<close>

record open_use =
  ou_route :: route
  ou_credentials :: credentials
  ou_err :: "go_error option"

record 'u open_state =
  os_opening :: "'u session_opening"
  os_rotation :: registry
  os_skipped :: "deployment_id list"
  os_lastErr :: "go_error option"
  os_turn :: nat
  os_opens :: "open_use list"

datatype 'u open_control = Open_next "'u open_state" | Open_done "'u open_state"

definition empty_route :: route where
  "empty_route =
     \<lparr>ro_DeploymentID = '''', ro_Provider = '''', ro_ModelReference = '''', ro_UpstreamModelID = '''', ro_Regions = [],
      ro_AcceptedParameters = None, ro_DecisionPriceLimit = None, ro_CustomerProviderCredential = None\<rparr>"

definition first_signed_route :: "authorized_route list \<Rightarrow> route" where
  "first_signed_route routes =
     (case routes of
        [] \<Rightarrow> empty_route
      | a # _ \<Rightarrow> empty_route\<lparr>ro_DeploymentID := ar_DeploymentID a, ro_Provider := ar_Provider a,
                   ro_ModelReference := ar_ModelReference a, ro_Regions := slice (ar_Regions a)\<rparr>)"

definition new_opening :: "('c, 'd, 'u) session_env \<Rightarrow> realtime_session_request \<Rightarrow> 'u session_opening" where
  "new_opening env request =
     \<lparr>so_Upstream = None, so_Route = first_signed_route (rsr_AuthorizedRoutes request), so_Failure = None,
      so_requestID = at_RequestID (rsr_Attribution request), so_attribution = rsr_Attribution request,
      so_generationID = generationFor (en_generation (sn_exec env)) (rsr_Attribution request),
      so_startedAt = en_now (sn_exec env) 0 0, so_attempts = [], so_keyID = '''', so_keyClass = KeyClassUnstated,
      so_openStartedAt = zero_time, so_openClock = zero_time\<rparr>"

definition refuse_opening :: "contract_error \<Rightarrow> 'u open_state \<Rightarrow> 'u open_state" where
  "refuse_opening failure s = s\<lparr>os_opening := (os_opening s)\<lparr>so_Failure := Some failure\<rparr>\<rparr>"

definition open_report ::
  "('c, 'd, 'u) session_env \<Rightarrow> permit \<Rightarrow> rotation_outcome \<Rightarrow> 'u open_state \<Rightarrow> 'u open_state" where
  "open_report env p res s =
     (let n = os_turn s; x = sn_exec env
      in s\<lparr>os_rotation := snd (permit_report (Some p) res (en_now x n 4) (en_rotation x n 1 (os_rotation s)))\<rparr>)"

definition skip_open :: "route \<Rightarrow> 'u open_state \<Rightarrow> 'u open_state" where
  "skip_open r s = s\<lparr>os_skipped := os_skipped s @ [ro_DeploymentID r], os_turn := Suc (os_turn s)\<rparr>"

definition open_row ::
  "('c, 'd, 'u) session_env \<Rightarrow> nat \<Rightarrow> request_id \<Rightarrow> nat \<Rightarrow> route \<Rightarrow> realtime_opened \<Rightarrow> go_error \<Rightarrow> attempt_usage" where
  "open_row env n requestID index r opened err =
     \<lparr>au_AttemptIndex = int index, au_DeploymentID = ro_DeploymentID r, au_Provider = ro_Provider r,
      au_ModelReference = ro_ModelReference r, au_OccurredAt = en_now (sn_exec env) n 7, au_ProviderBilledCustomer = False,
      au_KeyID = rto_KeyID opened, au_KeyClass = rto_KeyClass opened, au_ProviderReportedCost = None, au_Served = False,
      au_Units = [], au_Telemetry = attemptTelemetry (sn_exec env) n requestID (ro_Provider r) (Some err) zero_time\<rparr>"

section \<open>One route\<close>

text \<open>What follows a call of \<open>Open\<close>.\<close>

definition after_open ::
  "('c, 'd, 'u) session_env \<Rightarrow> realtime_session_request \<Rightarrow> route \<Rightarrow> permit \<Rightarrow> realtime_opened \<times> (go_error + 'u) \<Rightarrow>
   'u open_state \<Rightarrow> 'u open_control" where
  "after_open env request r p answer s =
     (let n = os_turn s; x = sn_exec env; requestID = at_RequestID (rsr_Attribution request); (opened, res) = answer
      in case res of
           Inr upstream \<Rightarrow>
             Open_done ((open_report env p outcomeServed s)\<lparr>os_opening := (os_opening s)\<lparr>so_Upstream := Some upstream,
               so_keyID := rto_KeyID opened, so_keyClass := rto_KeyClass opened, so_openStartedAt := en_now x n 3,
               so_openClock := en_clock x n 0\<rparr>\<rparr>)
         | Inl err \<Rightarrow>
             if as_unsupported err \<noteq> None
             then Open_done (refuse_opening (translationFailure (en_errorText x) requestID err) (open_report env p outcomeIrrelevant s))
             else
               let attempts = so_attempts (os_opening s);
                   s = s\<lparr>os_opening := (os_opening s)\<lparr>so_attempts := attempts @ [open_row env n requestID (length attempts) r opened err]\<rparr>,
                         os_lastErr := Some err\<rparr>
               in if isCancellation (en_withdrawn x n 1) err
                  then Open_done (refuse_opening (NewError requestID CodeCancelled ''the session was abandoned while it opened'')
                         (open_report env p outcomeIrrelevant s))
                  else if \<not> DeploymentAttributable err
                  then Open_done (refuse_opening (upstreamFailure (en_errorText x) requestID (ro_Provider r) err)
                         (open_report env p outcomeIrrelevant s))
                  else Open_next ((open_report env p outcomeFailed s)\<lparr>os_turn := Suc n\<rparr>))"

definition open_attempt ::
  "('c, 'd, 'u) session_env \<Rightarrow> realtime_session_request \<Rightarrow> route \<Rightarrow> session_adapter \<Rightarrow> credentials \<Rightarrow> permit \<Rightarrow>
   'u open_state \<Rightarrow> 'u open_control" where
  "open_attempt env request r a creds p s0 =
     (let answer = sn_open env (os_turn s0) a
            \<lparr>ror_RequestID = at_RequestID (rsr_Attribution request), ror_Route = r, ror_Kind = rsr_Kind request,
             ror_Config = rsr_Config request\<rparr> creds;
          s = s0\<lparr>os_opening := (os_opening s0)\<lparr>so_Route := r\<rparr>,
                 os_opens := os_opens s0 @ [\<lparr>ou_route = r, ou_credentials = creds,
                   ou_err = (case snd answer of Inl err \<Rightarrow> Some err | Inr _ \<Rightarrow> None)\<rparr>]\<rparr>
      in after_open env request r p answer s)"

definition open_turn ::
  "('c, 'd, 'u) session_env \<Rightarrow> realtime_session_request \<Rightarrow> candidate \<Rightarrow> 'u open_state \<Rightarrow> 'u open_control" where
  "open_turn env request c s =
     (let r = cn_route c; n = os_turn s; x = sn_exec env; requestID = at_RequestID (rsr_Attribution request)
      in case Admit (ro_DeploymentID r) (en_now x n 1) (en_rotation x n 0 (os_rotation s)) of
           (None, reg) \<Rightarrow> Open_next (skip_open r (s\<lparr>os_rotation := reg\<rparr>))
         | (Some p, reg) \<Rightarrow>
             let s = s\<lparr>os_rotation := reg\<rparr>; released = open_report env p outcomeIrrelevant s
             in case ResolveRealtimeExecution (en_registry x n) (ro_DeploymentID r) (ro_Provider r) of
                  Inl (RequestsOnly slug) \<Rightarrow>
                    Open_done (refuse_opening (WithParam (NewError requestID CodeUnsupportedModality
                      (''the '' @ ro_Provider r @ '' deployment does not hold realtime sessions'')) ''authorizedRoutes'') released)
                | Inl _ \<Rightarrow> Open_next (skip_open r released)
                | Inr (a, creds) \<Rightarrow>
                    (case (if cn_fundingCeiling c \<noteq> FundingTierNone \<and> ro_CustomerProviderCredential r = None
                           then boundedPool creds (cn_fundingCeiling c) else Some creds) of
                       None \<Rightarrow> Open_next (skip_open r released)
                     | Some creds \<Rightarrow>
                         if \<not> OpensRealtime a (rsr_Kind request)
                         then Open_done (refuse_opening (WithParam (NewError requestID CodeUnsupportedModality
                                (''the '' @ ro_Provider r @ '' deployment does not hold '' @ rsr_Kind request @ '' sessions'')) ''kind'')
                                released)
                         else open_attempt env request r a creds p s))"

fun open_loop ::
  "('c, 'd, 'u) session_env \<Rightarrow> realtime_session_request \<Rightarrow> candidate list \<Rightarrow> 'u open_state \<Rightarrow> 'u open_control" where
  "open_loop env request [] s = Open_next s"
| "open_loop env request (c # cs) s =
     (case open_turn env request c s of
        Open_next s \<Rightarrow> open_loop env request cs s
      | Open_done s \<Rightarrow> Open_done s)"

section \<open>OpenSession\<close>

fun customer_route_index :: "nat \<Rightarrow> authorized_route list \<Rightarrow> nat option" where
  "customer_route_index i [] = None"
| "customer_route_index i (a # as) =
     (if ar_CustomerProviderCredential a \<noteq> None then Some i else customer_route_index (Suc i) as)"

text \<open>What is refused before any route is resolved. \<open>settled\<close> is whether a grant settles the session.\<close>

definition open_refusal ::
  "('c, 'd, 'u) session_env \<Rightarrow> bool \<Rightarrow> realtime_session_request \<Rightarrow> contract_error option" where
  "open_refusal env settled request =
     (let requestID = at_RequestID (rsr_Attribution request); p = at_Principal (rsr_Attribution request)
      in case session_Validate request of
           Some e \<Rightarrow> Some (NewError requestID CodeInvalidRequest (sn_describeSession env e))
         | None \<Rightarrow>
             if \<not> isFirstParty (ap_Authority p) \<and> \<not> HasScope p ScopeInvoke
             then Some (NewError requestID CodeInsufficientScope ''the session request does not carry inference:invoke'')
             else if rsc_InputAudioTranscription (rsr_Config request) \<noteq> None \<and> \<not> settled
             then Some (EnvelopeInputTranscriptionRefused requestID)
             else case customer_route_index 0 (rsr_AuthorizedRoutes request) of
                    Some i \<Rightarrow> Some (WithParam (NewError requestID CodeInvalidRequest
                        ''a customer provider credential cannot serve a realtime session'')
                        (''authorizedRoutes['' @ string_of_nat i @ ''].customerProviderCredential''))
                  | None \<Rightarrow> None)"

definition open_start :: "('c, 'd, 'u) session_env \<Rightarrow> registry \<Rightarrow> realtime_session_request \<Rightarrow> 'u open_state" where
  "open_start env reg request =
     \<lparr>os_opening = new_opening env request, os_rotation = reg, os_skipped = [], os_lastErr = None, os_turn = 1, os_opens = []\<rparr>"

definition OpenSession ::
  "('c, 'd, 'u) session_env \<Rightarrow> bool \<Rightarrow> registry \<Rightarrow> realtime_session_request \<Rightarrow> 'u open_state" where
  "OpenSession env settled reg request =
     (let x = sn_exec env; requestID = at_RequestID (rsr_Attribution request); s = open_start env reg request;
          startedAt = so_startedAt (os_opening s)
      in case open_refusal env settled request of
           Some failure \<Rightarrow> refuse_opening failure s
         | None \<Rightarrow>
             (case resolveAuthorizedRoutes (en_quoted x) (en_inventory x) requestID (rsr_AuthorizedRoutes request) startedAt of
                Inl failure \<Rightarrow> refuse_opening failure s
              | Inr cs \<Rightarrow>
                  (case open_loop env request cs s of
                     Open_done s \<Rightarrow> s
                   | Open_next s \<Rightarrow>
                       (case os_lastErr s of
                          Some err \<Rightarrow> refuse_opening (upstreamFailure (en_errorText x) requestID (ro_Provider (so_Route (os_opening s))) err) s
                        | None \<Rightarrow>
                            refuse_opening (everyRouteOutOfRotation requestID (length cs) (os_skipped s) startedAt
                              (en_rotation x (os_turn s) 2 (os_rotation s))) s))))"

section \<open>SettleSession\<close>

record session_end =
  sne_ClosedAt :: instant
  sne_Units :: "usage_quantity list"
  sne_UsageSource :: usage_source
  sne_FirstOutputAt :: instant
  sne_Outcome :: attempt_outcome
  sne_FailureCode :: "error_code option"
  sne_ReportOutcome :: request_outcome

record session_settlement =
  ss_Report :: "usage_report option"
  ss_UpstreamCost :: cost_record
  ss_CostRecordError :: "go_error option"
  ss_ReportError :: "report_error option"

text \<open>The row of the attempt that opened: its latency is the session's whole life.\<close>

definition served_row :: "('c, 'd, 'u) session_env \<Rightarrow> 'u session_opening \<Rightarrow> session_end \<Rightarrow> attempt_usage" where
  "served_row env opening e =
     (let latency = time_sub (en_clock (sn_exec env) 0 3) (so_openClock opening); r = so_Route opening
      in \<lparr>au_AttemptIndex = int (length (so_attempts opening)), au_DeploymentID = ro_DeploymentID r,
          au_Provider = ro_Provider r, au_ModelReference = ro_ModelReference r, au_OccurredAt = sne_ClosedAt e,
          au_ProviderBilledCustomer = False, au_KeyID = so_keyID opening, au_KeyClass = so_keyClass opening,
          au_ProviderReportedCost = None, au_Served = True, au_Units = sne_Units e,
          au_Telemetry =
            \<lparr>te_StartedAt = so_openStartedAt opening, te_Latency = latency,
             te_TimeToFirstOutput = (if sne_FirstOutputAt e \<noteq> zero_time \<and> \<not> sne_FirstOutputAt e < so_openStartedAt opening
                                     then min (time_sub (sne_FirstOutputAt e) (so_openStartedAt opening)) latency else 0),
             te_Outcome = sne_Outcome e, te_FailureCode = sne_FailureCode e\<rparr>\<rparr>)"

definition session_usage :: "('c, 'd, 'u) session_env \<Rightarrow> 'u session_opening \<Rightarrow> session_end \<Rightarrow> attempt_usage list" where
  "session_usage env opening e =
     (if Opened opening then so_attempts opening @ [served_row env opening e] else so_attempts opening)"

definition session_report :: "'u session_opening \<Rightarrow> session_end \<Rightarrow> usage_report" where
  "session_report opening e =
     (let units = (if Opened opening then sne_Units e else []);
          switches = (if Opened opening then int (length (so_attempts opening)) else max (int (length (so_attempts opening)) - 1) 0);
          startedAt = NewTimestamp (so_startedAt opening);
          ms = milliseconds (time_sub (sne_FirstOutputAt e) (so_startedAt opening))
      in \<lparr>ur_SchemaVersion = UsageReportSchemaVersion, ur_RequestID = so_requestID opening,
          ur_GenerationID = so_generationID opening, ur_Outcome = sne_ReportOutcome e, ur_Units = units,
          ur_UsageSource = (if sne_UsageSource e = no_source then UsageProviderReported else sne_UsageSource e),
          ur_ResolvedModelReference = ro_ModelReference (so_Route opening), ur_ServingProvider = ro_Provider (so_Route opening),
          ur_DeploymentID = ro_DeploymentID (so_Route opening), ur_RouteSwitches = min switches 100, ur_FundingTier = None,
          ur_StartedAt = startedAt,
          ur_CompletedAt = (if sne_ClosedAt e < so_startedAt opening then startedAt else NewTimestamp (sne_ClosedAt e)),
          ur_TimeToFirstTokenMs = (if sne_FirstOutputAt e \<noteq> zero_time \<and> ms > 0 then Some ms else None)\<rparr>)"

definition SettleSession ::
  "('c, 'd, 'u) session_env \<Rightarrow> bool \<Rightarrow> 'u session_opening \<Rightarrow> session_end \<Rightarrow> session_settlement" where
  "SettleSession env deferred opening e =
     (let cost = MeasureRequest (en_costs (sn_exec env)) (en_clock (sn_exec env) 0 2) (so_requestID opening) (session_usage env opening e);
          report = session_report opening e
      in \<lparr>ss_Report = (if report_Validate report = None then Some report else None), ss_UpstreamCost = cost,
          ss_CostRecordError = (case sn_recorder env of
             None \<Rightarrow> None
           | Some rec \<Rightarrow> if cr_Attempts cost \<noteq> [] \<and> \<not> deferred then rec cost else None),
          ss_ReportError = report_Validate report\<rparr>)"

section \<open>The shape of a turn\<close>

text \<open>The adapter and the credentials a candidate may be opened with.\<close>

definition session_granted ::
  "('c, 'd, 'u) session_env \<Rightarrow> string \<Rightarrow> candidate \<Rightarrow> credentials \<Rightarrow> bool" where
  "session_granted env kind c creds \<longleftrightarrow>
     (let r = cn_route c
      in \<exists>n a creds0. ResolveRealtimeExecution (en_registry (sn_exec env) n) (ro_DeploymentID r) (ro_Provider r) = Inr (a, creds0) \<and>
           OpensRealtime a kind \<and>
           (if cn_fundingCeiling c \<noteq> FundingTierNone \<and> ro_CustomerProviderCredential r = None
            then boundedPool creds0 (cn_fundingCeiling c) = Some creds else creds = creds0))"

inductive open_shape ::
  "('c, 'd, 'u) session_env \<Rightarrow> realtime_session_request \<Rightarrow> candidate \<Rightarrow> 'u open_state \<Rightarrow> 'u open_control \<Rightarrow> bool"
  for env request c s0 where
  Passed: "open_shape env request c s0 (Open_next (skip_open (cn_route c) (s0\<lparr>os_rotation := reg\<rparr>)))"
| TurnedAway: "open_shape env request c s0 (Open_done (refuse_opening failure (s0\<lparr>os_rotation := reg\<rparr>)))"
| Tried: "session_granted env (rsr_Kind request) c creds \<Longrightarrow>
     open_shape env request c s0 (open_attempt env request (cn_route c) a creds p (s0\<lparr>os_rotation := reg\<rparr>))"

lemma open_report_rotation: "open_report env p res s = s\<lparr>os_rotation := os_rotation (open_report env p res s)\<rparr>"
  by (simp add: open_report_def Let_def)

lemma open_report_over: "\<exists>reg. open_report env p res (s\<lparr>os_rotation := reg0\<rparr>) = s\<lparr>os_rotation := reg\<rparr>"
  by (simp add: open_report_def Let_def) blast

lemma open_turn_shape: "open_shape env request c s (open_turn env request c s)"
proof -
  let ?r = "cn_route c" and ?x = "sn_exec env" and ?n = "os_turn s"
  obtain p reg where ad: "Admit (ro_DeploymentID ?r) (en_now ?x ?n 1) (en_rotation ?x ?n 0 (os_rotation s)) = (p, reg)"
    by fastforce
  show ?thesis
  proof (cases p)
    case None
    with ad Passed [of env request c s reg] show ?thesis by (simp add: open_turn_def Let_def)
  next
    case (Some pm)
    obtain reg' where rel: "open_report env pm outcomeIrrelevant (s\<lparr>os_rotation := reg\<rparr>) = s\<lparr>os_rotation := reg'\<rparr>"
      using open_report_over by blast
    note steps = Passed [of env request c s reg'] TurnedAway [of env request c s _ reg']
    show ?thesis
    proof (cases "ResolveRealtimeExecution (en_registry ?x ?n) (ro_DeploymentID ?r) (ro_Provider ?r)")
      case (Inl e)
      with ad Some rel steps show ?thesis by (cases e) (simp_all add: open_turn_def Let_def)
    next
      case (Inr y)
      obtain a creds0 where y: "y = (a, creds0)" by fastforce
      let ?creds = "if cn_fundingCeiling c \<noteq> FundingTierNone \<and> ro_CustomerProviderCredential ?r = None
                   then boundedPool creds0 (cn_fundingCeiling c) else Some creds0"
      show ?thesis
      proof (cases ?creds)
        case None
        with ad Some rel steps Inr y show ?thesis by (simp add: open_turn_def Let_def)
      next
        case (Some creds)
        show ?thesis
        proof (cases "OpensRealtime a (rsr_Kind request)")
          case False
          with ad \<open>p = Some pm\<close> rel steps Inr y Some show ?thesis by (simp add: open_turn_def Let_def)
        next
          case True
          with Inr y Some have "session_granted env (rsr_Kind request) c creds"
            unfolding session_granted_def Let_def by (metis (mono_tags, lifting) option.inject)
          from Tried [OF this, of s a pm reg] True ad \<open>p = Some pm\<close> Inr y Some show ?thesis
            by (simp add: open_turn_def Let_def)
        qed
      qed
    qed
  qed
qed

section \<open>What an attempt leaves\<close>

text \<open>A failure another deployment could survive.\<close>

definition survivable :: "open_use \<Rightarrow> bool" where
  "survivable u \<longleftrightarrow> (case ou_err u of None \<Rightarrow> False | Some err \<Rightarrow> DeploymentAttributable err \<and> as_unsupported err = None)"

definition row_of_use :: "attempt_usage \<Rightarrow> open_use \<Rightarrow> bool" where
  "row_of_use row u \<longleftrightarrow> ou_err u \<noteq> None \<and> au_DeploymentID row = ro_DeploymentID (ou_route u) \<and>
     au_Provider row = ro_Provider (ou_route u) \<and> \<not> au_Served row \<and> au_Units row = []"

text \<open>A use that reached the provider: the adapter did not refuse the session before dialling it.\<close>

definition dialled :: "open_use \<Rightarrow> bool" where
  "dialled u \<longleftrightarrow> (case ou_err u of None \<Rightarrow> True | Some err \<Rightarrow> as_unsupported err = None)"

lemma survivable_dialled: "list_all survivable us \<Longrightarrow> filter dialled us = us"
  by (induction us) (auto simp: survivable_def dialled_def split: option.splits)

definition opening_pending :: "'u open_state \<Rightarrow> bool" where
  "opening_pending s \<longleftrightarrow> so_Upstream (os_opening s) = None \<and> so_Failure (os_opening s) = None \<and>
     list_all survivable (os_opens s) \<and> list_all2 row_of_use (so_attempts (os_opening s)) (os_opens s)"

text \<open>How opening ends: with one open upstream and a row for each failed attempt before it, or with a refusal and a
  row for each attempt that was dialled.\<close>

definition opening_over :: "'u open_state \<Rightarrow> bool" where
  "opening_over s \<longleftrightarrow>
     (let opening = os_opening s; uses = os_opens s
      in list_all survivable (butlast uses) \<and>
         (if Opened opening
          then so_Failure opening = None \<and> uses \<noteq> [] \<and> ou_err (last uses) = None \<and> so_Route opening = ou_route (last uses) \<and>
               list_all2 row_of_use (so_attempts opening) (butlast uses)
          else so_Failure opening \<noteq> None \<and> list_all (\<lambda>u. ou_err u \<noteq> None) uses \<and>
               list_all2 row_of_use (so_attempts opening) (filter dialled uses)))"

lemma pending_uses:
  assumes "opening_pending s"
  shows "list_all (\<lambda>u. ou_err u \<noteq> None) (os_opens s)" and "filter dialled (os_opens s) = os_opens s"
  using assms survivable_dialled by (auto simp: opening_pending_def list_all_iff survivable_def split: option.splits)

lemma butlast_pending: "opening_pending s \<Longrightarrow> list_all survivable (butlast (os_opens s))"
  by (auto simp: opening_pending_def list_all_iff dest: in_set_butlastD)

lemma refused_over: "opening_pending s \<Longrightarrow> opening_over (refuse_opening failure s)"
  using pending_uses [of s] butlast_pending [of s]
  by (simp add: opening_over_def refuse_opening_def Opened_def Let_def) (simp add: opening_pending_def)

lemma pending_rotation [simp]: "opening_pending (s\<lparr>os_rotation := reg\<rparr>) = opening_pending s"
  by (simp add: opening_pending_def)

lemma pending_skip [simp]: "opening_pending (skip_open r s) = opening_pending s"
  by (simp add: opening_pending_def skip_open_def)

lemma open_report_simps [simp]:
  "os_opening (open_report env p res s) = os_opening s" "os_opens (open_report env p res s) = os_opens s"
  "os_lastErr (open_report env p res s) = os_lastErr s" "os_turn (open_report env p res s) = os_turn s"
  "os_skipped (open_report env p res s) = os_skipped s"
  by (simp_all add: open_report_def Let_def)

lemma refuse_opening_simps [simp]: "os_opens (refuse_opening failure s) = os_opens s"
  "so_attempts (os_opening (refuse_opening failure s)) = so_attempts (os_opening s)"
  "so_requestID (os_opening (refuse_opening failure s)) = so_requestID (os_opening s)"
  "so_startedAt (os_opening (refuse_opening failure s)) = so_startedAt (os_opening s)"
  "so_Upstream (os_opening (refuse_opening failure s)) = so_Upstream (os_opening s)"
  by (simp_all add: refuse_opening_def)

fun control_state :: "'u open_control \<Rightarrow> 'u open_state" where
  "control_state (Open_next s) = s"
| "control_state (Open_done s) = s"

definition ended_well :: "'u open_control \<Rightarrow> bool" where
  "ended_well k \<longleftrightarrow> (case k of Open_next s \<Rightarrow> opening_pending s | Open_done s \<Rightarrow> opening_over s)"

lemma open_attempt_ends:
  assumes "opening_pending s"
  shows "ended_well (open_attempt env request r a creds p s) \<and>
    (\<exists>err. os_opens (control_state (open_attempt env request r a creds p s)) =
       os_opens s @ [\<lparr>ou_route = r, ou_credentials = creds, ou_err = err\<rparr>])"
proof -
  obtain opened res where ans: "sn_open env (os_turn s) a
      \<lparr>ror_RequestID = at_RequestID (rsr_Attribution request), ror_Route = r, ror_Kind = rsr_Kind request,
       ror_Config = rsr_Config request\<rparr> creds = (opened, res)" by fastforce
  note pend = assms [unfolded opening_pending_def] pending_uses [OF assms]
  show ?thesis
  proof (cases res)
    case (Inr upstream)
    with pend ans show ?thesis
      by (simp add: open_attempt_def after_open_def Let_def ended_well_def opening_over_def Opened_def)
  next
    case (Inl err)
    consider (unsupported) "as_unsupported err \<noteq> None" | (cancelled) "as_unsupported err = None" "isCancellation (en_withdrawn (sn_exec env) (os_turn s) 1) err"
      | (request) "as_unsupported err = None" "\<not> isCancellation (en_withdrawn (sn_exec env) (os_turn s) 1) err" "\<not> DeploymentAttributable err"
      | (survives) "as_unsupported err = None" "\<not> isCancellation (en_withdrawn (sn_exec env) (os_turn s) 1) err" "DeploymentAttributable err"
      by blast
    then show ?thesis
    proof cases
      case survives
      with Inl pend ans show ?thesis
        by (simp add: open_attempt_def after_open_def Let_def ended_well_def opening_pending_def survivable_def
            list_all2_appendI row_of_use_def open_row_def)
    qed (use Inl pend ans in \<open>auto simp: open_attempt_def after_open_def Let_def ended_well_def opening_over_def Opened_def
          refuse_opening_def list_all2_appendI row_of_use_def open_row_def dialled_def\<close>)
  qed
qed

section \<open>The loop\<close>

definition use_of :: "('c, 'd, 'u) session_env \<Rightarrow> string \<Rightarrow> candidate \<Rightarrow> open_use \<Rightarrow> bool" where
  "use_of env kind c u \<longleftrightarrow> ou_route u = cn_route c \<and> session_granted env kind c (ou_credentials u)"

lemma open_turn_ends:
  assumes "opening_pending s"
  shows "ended_well (open_turn env request c s) \<and>
    (os_opens (control_state (open_turn env request c s)) = os_opens s \<or>
     (\<exists>u. use_of env (rsr_Kind request) c u \<and> os_opens (control_state (open_turn env request c s)) = os_opens s @ [u]))"
  using open_turn_shape [of env request c s]
proof cases
  case (Tried creds a p reg)
  have "opening_pending (s\<lparr>os_rotation := reg\<rparr>)" using assms by simp
  from open_attempt_ends [OF this, of env request "cn_route c" a creds p] Tried show ?thesis
    by (auto simp: use_of_def)
qed (use assms in \<open>simp_all add: ended_well_def refused_over skip_open_def\<close>, simp add: opening_pending_def)

lemma open_loop_ends:
  assumes "opening_pending s"
  shows "ended_well (open_loop env request cs s) \<and>
    (\<exists>cs' us. subseq cs' cs \<and> list_all2 (use_of env (rsr_Kind request)) cs' us \<and>
       os_opens (control_state (open_loop env request cs s)) = os_opens s @ us)"
  using assms
proof (induction cs arbitrary: s)
  case Nil
  then show ?case by (auto simp: ended_well_def)
next
  case (Cons c cs)
  have turn: "ended_well (open_turn env request c s)"
    "os_opens (control_state (open_turn env request c s)) = os_opens s \<or>
     (\<exists>u. use_of env (rsr_Kind request) c u \<and> os_opens (control_state (open_turn env request c s)) = os_opens s @ [u])"
    using open_turn_ends [OF Cons.prems] by blast+
  have one: "\<exists>cs0 us0. (cs0 = [] \<or> cs0 = [c]) \<and> list_all2 (use_of env (rsr_Kind request)) cs0 us0 \<and>
      os_opens (control_state (open_turn env request c s)) = os_opens s @ us0"
    using turn(2)
  proof (elim disjE exE conjE, goal_cases)
    case 1
    then show ?case by (intro exI [of _ "[]"]) simp
  next
    case (2 u)
    then show ?case by (intro exI [of _ "[c]"] exI [of _ "[u]"]) simp
  qed
  then obtain cs0 us0 where first: "cs0 = [] \<or> cs0 = [c]" "list_all2 (use_of env (rsr_Kind request)) cs0 us0"
    "os_opens (control_state (open_turn env request c s)) = os_opens s @ us0" by blast
  show ?case
  proof (cases "open_turn env request c s")
    case (Open_done s')
    have "subseq cs0 (c # cs)" using first(1) by auto
    with turn(1) first(2,3) Open_done show ?thesis by auto
  next
    case (Open_next s')
    with turn(1) have "opening_pending s'" by (simp add: ended_well_def)
    from Cons.IH [OF this] obtain cs' us where rest: "ended_well (open_loop env request cs s')" "subseq cs' cs"
      "list_all2 (use_of env (rsr_Kind request)) cs' us" "os_opens (control_state (open_loop env request cs s')) = os_opens s' @ us"
      by blast
    have "subseq (cs0 @ cs') (c # cs)" using first(1) rest(2) by auto
    moreover have "list_all2 (use_of env (rsr_Kind request)) (cs0 @ cs') (us0 @ us)"
      using first(2) rest(3) by (rule list_all2_appendI)
    ultimately show ?thesis using rest(1,4) first(3) Open_next by auto
  qed
qed

lemma start_pending: "opening_pending (open_start env reg request)"
  by (simp add: opening_pending_def open_start_def new_opening_def)

lemma open_start_simps [simp]: "os_opens (open_start env reg request) = []"
  "so_requestID (os_opening (open_start env reg request)) = at_RequestID (rsr_Attribution request)"
  "so_startedAt (os_opening (open_start env reg request)) = en_now (sn_exec env) 0 0"
  by (simp_all add: open_start_def new_opening_def)

lemma OpenSession_over: "opening_over (OpenSession env settled reg request)"
proof -
  let ?s = "open_start env reg request"
  have "ended_well (open_loop env request cs ?s)" for cs using open_loop_ends [OF start_pending] by blast
  then show ?thesis using refused_over [OF start_pending]
    by (fastforce simp: OpenSession_def Let_def ended_well_def intro: refused_over split: option.splits sum.splits open_control.splits)
qed

text \<open>A session that tried a route had passed every check, and tried candidates of its signed list, in order.\<close>

lemma OpenSession_uses:
  assumes "os_opens (OpenSession env settled reg request) \<noteq> []"
  obtains cs cs' where "open_refusal env settled request = None"
    and "resolveAuthorizedRoutes (en_quoted (sn_exec env)) (en_inventory (sn_exec env)) (at_RequestID (rsr_Attribution request))
      (rsr_AuthorizedRoutes request) (en_now (sn_exec env) 0 0) = Inr cs"
    and "subseq cs' cs" and "list_all2 (use_of env (rsr_Kind request)) cs' (os_opens (OpenSession env settled reg request))"
proof -
  let ?s = "open_start env reg request"
  from assms obtain cs where r: "open_refusal env settled request = None"
    and cs: "resolveAuthorizedRoutes (en_quoted (sn_exec env)) (en_inventory (sn_exec env)) (at_RequestID (rsr_Attribution request))
      (rsr_AuthorizedRoutes request) (en_now (sn_exec env) 0 0) = Inr cs"
    by (auto simp: OpenSession_def Let_def split: option.splits sum.splits)
  have "os_opens (OpenSession env settled reg request) = os_opens (control_state (open_loop env request cs ?s))"
    using r cs by (simp add: OpenSession_def Let_def split: open_control.split option.split)
  moreover obtain cs' us where "subseq cs' cs" "list_all2 (use_of env (rsr_Kind request)) cs' us"
    "os_opens (control_state (open_loop env request cs ?s)) = os_opens ?s @ us"
    using open_loop_ends [OF start_pending [of env reg request], of env request cs] by blast
  ultimately show ?thesis using that [OF r cs] by simp
qed

lemma open_refusal_None:
  assumes "open_refusal env settled request = None"
  shows "session_Validate request = None" and "list_all (\<lambda>a. ar_CustomerProviderCredential a = None) (rsr_AuthorizedRoutes request)"
    and "isFirstParty (ap_Authority (at_Principal (rsr_Attribution request))) \<or> HasScope (at_Principal (rsr_Attribution request)) ScopeInvoke"
    and "rsc_InputAudioTranscription (rsr_Config request) = None \<or> settled"
proof -
  have "customer_route_index i as = None \<longleftrightarrow> list_all (\<lambda>a. ar_CustomerProviderCredential a = None) as" for i as
    by (induction i as rule: customer_route_index.induct) auto
  with assms show "session_Validate request = None" "list_all (\<lambda>a. ar_CustomerProviderCredential a = None) (rsr_AuthorizedRoutes request)"
    "isFirstParty (ap_Authority (at_Principal (rsr_Attribution request))) \<or> HasScope (at_Principal (rsr_Attribution request)) ScopeInvoke"
    "rsc_InputAudioTranscription (rsr_Config request) = None \<or> settled"
    by (auto simp: open_refusal_def Let_def split: option.splits if_splits)
qed

lemma list_all2_subseq:
  "subseq xs' xs \<Longrightarrow> list_all2 P xs ys \<Longrightarrow> \<exists>ys'. subseq ys' ys \<and> list_all2 P xs' ys'"
proof (induction xs' xs arbitrary: ys rule: list_emb.induct)
  case (list_emb_Nil xs)
  show ?case by (intro exI [of _ "[]"]) simp
next
  case (list_emb_Cons xs' xs x)
  then show ?case by (auto simp: list_all2_Cons1)
next
  case (list_emb_Cons2 x y xs' xs)
  from list_emb_Cons2.prems obtain z zs where ys: "ys = z # zs" "P y z" "list_all2 P xs zs" by (auto simp: list_all2_Cons1)
  with list_emb_Cons2.IH obtain zs' where "subseq zs' zs" "list_all2 P xs' zs'" by blast
  with ys list_emb_Cons2.hyps show ?case by (intro exI [of _ "z # zs'"]) simp
qed

text \<open>What opening never changes.\<close>

definition opening_fixed :: "'u open_state \<Rightarrow> request_id \<times> instant" where
  "opening_fixed s = (so_requestID (os_opening s), so_startedAt (os_opening s))"

lemma open_attempt_fixed: "opening_fixed (control_state (open_attempt env request r a creds p s)) = opening_fixed s"
  by (simp add: open_attempt_def after_open_def Let_def opening_fixed_def split: prod.split sum.split)

lemma open_turn_fixed: "opening_fixed (control_state (open_turn env request c s)) = opening_fixed s"
  using open_turn_shape [of env request c s]
  by cases (simp_all add: open_attempt_fixed, simp_all add: opening_fixed_def skip_open_def)

lemma open_loop_fixed: "opening_fixed (control_state (open_loop env request cs s)) = opening_fixed s"
proof (induction cs arbitrary: s)
  case (Cons c cs)
  show ?case
    using open_turn_fixed [of env request c s] Cons.IH by (cases "open_turn env request c s") simp_all
qed simp

lemma OpenSession_fixed:
  "so_requestID (os_opening (OpenSession env settled reg request)) = at_RequestID (rsr_Attribution request)"
  "so_startedAt (os_opening (OpenSession env settled reg request)) = en_now (sn_exec env) 0 0"
proof -
  let ?s = "open_start env reg request"
  have loop: "opening_fixed s' = (at_RequestID (rsr_Attribution request), en_now (sn_exec env) 0 0)"
    if "open_loop env request cs ?s = Open_next s' \<or> open_loop env request cs ?s = Open_done s'" for cs s'
    using that open_loop_fixed [of env request cs ?s] by (auto simp: opening_fixed_def)
  then have "opening_fixed (OpenSession env settled reg request) = (at_RequestID (rsr_Attribution request), en_now (sn_exec env) 0 0)"
    by (auto simp: OpenSession_def Let_def opening_fixed_def split: option.split sum.split open_control.split)
  then show "so_requestID (os_opening (OpenSession env settled reg request)) = at_RequestID (rsr_Attribution request)"
    "so_startedAt (os_opening (OpenSession env settled reg request)) = en_now (sn_exec env) 0 0"
    by (simp_all add: opening_fixed_def)
qed

section \<open>Settlement\<close>

lemma list_all2_member:
  "list_all2 P xs ys \<Longrightarrow> y \<in> set ys \<Longrightarrow> \<exists>x \<in> set xs. P x y" "list_all2 P xs ys \<Longrightarrow> x \<in> set xs \<Longrightarrow> \<exists>y \<in> set ys. P x y"
  by (induction rule: list_all2_induct) auto

lemma opened_uses:
  assumes "Opened (os_opening (OpenSession env settled reg request))"
  shows "os_opens (OpenSession env settled reg request) \<noteq> []"
    and "so_Route (os_opening (OpenSession env settled reg request)) = ou_route (last (os_opens (OpenSession env settled reg request)))"
  using OpenSession_over [of env settled reg request] assms by (simp_all add: opening_over_def Let_def)

text \<open>With a parsed inventory, the route a session opened on is one of its rows.\<close>

lemma opened_route_well_formed:
  assumes "inventory_Parse (Some f) maxAge = Inr (en_inventory (sn_exec env))"
    and "Opened (os_opening (OpenSession env settled reg request))"
  shows "\<exists>r. route_well_formed r \<and> ro_ModelReference r = ro_ModelReference (so_Route (os_opening (OpenSession env settled reg request))) \<and>
    ro_Provider r = ro_Provider (so_Route (os_opening (OpenSession env settled reg request))) \<and>
    ro_DeploymentID r = ro_DeploymentID (so_Route (os_opening (OpenSession env settled reg request)))"
proof -
  let ?s = "OpenSession env settled reg request"
  obtain cs cs' where cs: "resolveAuthorizedRoutes (en_quoted (sn_exec env)) (en_inventory (sn_exec env))
      (at_RequestID (rsr_Attribution request)) (rsr_AuthorizedRoutes request) (en_now (sn_exec env) 0 0) = Inr cs"
    and sub: "subseq cs' cs" and uses: "list_all2 (use_of env (rsr_Kind request)) cs' (os_opens ?s)"
    using OpenSession_uses [OF opened_uses(1) [OF assms(2)]] by metis
  have "last (os_opens ?s) \<in> set (os_opens ?s)" using opened_uses(1) [OF assms(2)] by simp
  from list_all2_member(1) [OF uses this]
  obtain c where "c \<in> set cs'" and route: "ou_route (last (os_opens ?s)) = cn_route c" by (auto simp: use_of_def)
  have "set cs' \<subseteq> set cs" using sub by (induction rule: list_emb.induct) auto
  with \<open>c \<in> set cs'\<close> have c: "c \<in> set cs" by blast
  have "list_all2 (authorized_by (en_inventory (sn_exec env)) (en_now (sn_exec env) 0 0)) cs (rsr_AuthorizedRoutes request)"
    using resolve_routes_authorized [OF cs [unfolded resolveAuthorizedRoutes_def]] by blast
  from list_all2_member(2) [OF this c]
  obtain a where "authorized_by (en_inventory (sn_exec env)) (en_now (sn_exec env) 0 0) c a" by blast
  then obtain w where "Resolve (en_inventory (sn_exec env)) (ar_ModelReference a) (en_now (sn_exec env) 0 0) = Inr w"
    and "(cn_route c)\<lparr>ro_CustomerProviderCredential := None, ro_DecisionPriceLimit := None\<rparr> \<in> set (Candidates w)"
    by (auto simp: authorized_by_def)
  then have "route_well_formed ((cn_route c)\<lparr>ro_CustomerProviderCredential := None, ro_DecisionPriceLimit := None\<rparr>)"
    using Resolve_candidates [OF assms(1)] by (auto simp: list_all_iff)
  then show ?thesis using opened_uses(2) [OF assms(2)] route
    by (intro exI [of _ "(cn_route c)\<lparr>ro_CustomerProviderCredential := None, ro_DecisionPriceLimit := None\<rparr>"]) simp
qed

lemma NewTimestamp_mono: "a \<le> b \<Longrightarrow> NewTimestamp a \<le> NewTimestamp b"
  by (simp add: NewTimestamp_def zdiv_mono1)

lemma session_requestID:
  assumes "session_Validate request = None"
  shows "at_RequestID (rsr_Attribution request) \<noteq> ''''"
  using session_accepted(1) [OF assms] unfolding ValidateSession_def Let_def by (simp add: first_error_Cons_None)

lemma session_usage_cost [simp]:
  "map fst (cr_Attempts (ss_UpstreamCost (SettleSession env deferred opening e))) = session_usage env opening e"
  by (simp add: SettleSession_def MeasureRequest_def Let_def)

lemma opened_session_settles:
  assumes "inventory_Parse (Some f) maxAge = Inr (en_inventory (sn_exec env))"
    and "Opened (os_opening (OpenSession env settled reg request))"
    and "check_units [] (sne_Units e) = None" and "sne_UsageSource e \<in> set (no_source # usageSourceValues)"
    and "sne_ReportOutcome e \<in> set requestOutcomeValues" and "sne_ReportOutcome e = OutcomeCompleted \<Longrightarrow> sne_Units e \<noteq> []"
  shows "let opening = os_opening (OpenSession env settled reg request); st = SettleSession env deferred opening e
    in ss_ReportError st = None \<and>
       (case ss_Report st of
          None \<Rightarrow> False
        | Some r \<Rightarrow> ur_RequestID r = at_RequestID (rsr_Attribution request) \<and> ur_Units r = sne_Units e \<and>
            ur_DeploymentID r = ro_DeploymentID (so_Route opening) \<and> ur_ServingProvider r = ro_Provider (so_Route opening) \<and>
            ur_RouteSwitches r = min (int (length (so_attempts opening))) 100)"
proof -
  let ?o = "os_opening (OpenSession env settled reg request)"
  obtain cs cs' where "open_refusal env settled request = None"
    using OpenSession_uses [OF opened_uses(1) [OF assms(2)]] by metis
  then have id: "at_RequestID (rsr_Attribution request) \<noteq> ''''" by (intro session_requestID open_refusal_None(1))
  have wf: "reference_Valid (ro_ModelReference (so_Route ?o)) \<and> slug_Valid (ro_Provider (so_Route ?o)) \<and>
      ro_DeploymentID (so_Route ?o) \<noteq> '''' \<and> length (ro_DeploymentID (so_Route ?o)) \<le> 128"
    using opened_route_well_formed [OF assms(1,2)] by (auto simp: route_well_formed_def)
  have source: "(if sne_UsageSource e = no_source then UsageProviderReported else sne_UsageSource e) \<in> set usageSourceValues"
    using assms(4) by (auto simp: usageSourceValues_def)
  have "report_Validate (session_report ?o e) = None"
    using id wf source assms(2,3,5,6) NewTimestamp_mono [of "so_startedAt ?o" "sne_ClosedAt e"]
    by (auto simp: report_Validate_def session_report_def Let_def OpenSession_fixed is_member_def not_less)
  moreover have "ur_RequestID (session_report ?o e) = at_RequestID (rsr_Attribution request)" "ur_Units (session_report ?o e) = sne_Units e"
    "ur_DeploymentID (session_report ?o e) = ro_DeploymentID (so_Route ?o)" "ur_ServingProvider (session_report ?o e) = ro_Provider (so_Route ?o)"
    "ur_RouteSwitches (session_report ?o e) = min (int (length (so_attempts ?o))) 100"
    using assms(2) by (simp_all add: session_report_def Let_def OpenSession_fixed)
  ultimately show ?thesis by (simp add: SettleSession_def Let_def)
qed

section \<open>Properties\<close>

text \<open>
  C20: A session opens on one signed route or is refused. Opening ends with an open upstream exactly when it
  ends without a failure. Whatever was tried had passed validation, scope and the lane's rule on input
  transcription, and no signed route then carries a customer credential; the routes tried are candidates the
  inventory resolves for entries of the signed list, in the list's order and each at most once, with the
  credentials of an adapter that declares the session's kind, within the route's funding ceiling. Each try but
  the last failed in a way another deployment could survive, and the session belongs to the last.
\<close>

theorem session_opens_on_signed_route:
  "let s = OpenSession env settled reg request; opening = os_opening s; p = at_Principal (rsr_Attribution request)
   in (so_Failure opening = None \<longleftrightarrow> Opened opening) \<and>
      list_all survivable (butlast (os_opens s)) \<and>
      (if Opened opening then os_opens s \<noteq> [] \<and> so_Route opening = ou_route (last (os_opens s)) else True) \<and>
      (if os_opens s = [] then True
       else session_Validate request = None \<and> (isFirstParty (ap_Authority p) \<or> HasScope p ScopeInvoke) \<and>
            (rsc_InputAudioTranscription (rsr_Config request) = None \<or> settled) \<and>
            list_all (\<lambda>a. ar_CustomerProviderCredential a = None) (rsr_AuthorizedRoutes request) \<and>
            (\<exists>as cs. subseq as (rsr_AuthorizedRoutes request) \<and>
               list_all2 (authorized_by (en_inventory (sn_exec env)) (en_now (sn_exec env) 0 0)) cs as \<and>
               list_all2 (use_of env (rsr_Kind request)) cs (os_opens s)))"
proof -
  let ?s = "OpenSession env settled reg request"
  have over: "opening_over ?s" by (rule OpenSession_over)
  have tried: "session_Validate request = None \<and>
      (isFirstParty (ap_Authority (at_Principal (rsr_Attribution request))) \<or> HasScope (at_Principal (rsr_Attribution request)) ScopeInvoke) \<and>
      (rsc_InputAudioTranscription (rsr_Config request) = None \<or> settled) \<and>
      list_all (\<lambda>a. ar_CustomerProviderCredential a = None) (rsr_AuthorizedRoutes request) \<and>
      (\<exists>as cs. subseq as (rsr_AuthorizedRoutes request) \<and>
         list_all2 (authorized_by (en_inventory (sn_exec env)) (en_now (sn_exec env) 0 0)) cs as \<and>
         list_all2 (use_of env (rsr_Kind request)) cs (os_opens ?s))" if opens: "os_opens ?s \<noteq> []"
  proof -
    obtain cs cs' where r: "open_refusal env settled request = None"
      and cs: "resolveAuthorizedRoutes (en_quoted (sn_exec env)) (en_inventory (sn_exec env)) (at_RequestID (rsr_Attribution request))
        (rsr_AuthorizedRoutes request) (en_now (sn_exec env) 0 0) = Inr cs"
      and sub: "subseq cs' cs" and uses: "list_all2 (use_of env (rsr_Kind request)) cs' (os_opens ?s)"
      using OpenSession_uses [OF opens] by metis
    have "list_all2 (authorized_by (en_inventory (sn_exec env)) (en_now (sn_exec env) 0 0)) cs (rsr_AuthorizedRoutes request)"
      using resolve_routes_authorized [OF cs [unfolded resolveAuthorizedRoutes_def]] by blast
    from list_all2_subseq [OF sub this] uses open_refusal_None [OF r] show ?thesis by blast
  qed
  show ?thesis using over tried unfolding opening_over_def Let_def by (auto split: if_splits)
qed

text \<open>
  C25: A session that opened can be settled. Over a parsed inventory, and for totals in the contract's units, each
  at most once and none negative, with an outcome that is not completed without units, settlement validates its
  own report: it names the session, the deployment that opened and one route switch per failed open, up to the
  contract's hundred.
\<close>

theorem opened_session_settleable:
  assumes "inventory_Parse (Some f) maxAge = Inr (en_inventory (sn_exec env))"
    and "Opened (os_opening (OpenSession env settled reg request))"
    and "check_units [] (sne_Units e) = None" and "sne_UsageSource e \<in> set (no_source # usageSourceValues)"
    and "sne_ReportOutcome e \<in> set requestOutcomeValues" and "sne_ReportOutcome e = OutcomeCompleted \<Longrightarrow> sne_Units e \<noteq> []"
  shows "let opening = os_opening (OpenSession env settled reg request); st = SettleSession env deferred opening e
    in ss_ReportError st = None \<and>
       (case ss_Report st of
          None \<Rightarrow> False
        | Some r \<Rightarrow> ur_RequestID r = at_RequestID (rsr_Attribution request) \<and> ur_Units r = sne_Units e \<and>
            ur_DeploymentID r = ro_DeploymentID (so_Route opening) \<and> ur_ServingProvider r = ro_Provider (so_Route opening) \<and>
            ur_RouteSwitches r = min (int (length (so_attempts opening))) 100)"
  by (rule opened_session_settles [OF assms])

definition demo_session_env :: "(unit, unit, nat) session_env" where
  "demo_session_env =
     \<lparr>sn_exec = \<lparr>en_quoted = (\<lambda>s. s), en_describeRequest = (\<lambda>_. ''''), en_describeReport = (\<lambda>_. ''''), en_errorText = (\<lambda>_. ''''),
        en_inventory = demo_inventory, en_costs = None, en_retry = DefaultRetryPolicy, en_sink = (\<lambda>_ _. None),
        en_generation = None,
        en_registry = (\<lambda>_. \<lparr>areg_registrants = [(''p'', Session \<lparr>sa_Provider = ''p'', sa_Kinds = [RealtimeConversation],
          sa_PlatformCredentials = None\<rparr>)], areg_bindings = [], areg_bindingsRequired = False\<rparr>),
        en_now = (\<lambda>_ _. 63902822400000000001), en_clock = (\<lambda>_ _. 0), en_rotation = (\<lambda>_ _ r. r), en_limits = (\<lambda>_ _ l. l),
        en_random = (\<lambda>_ _. 0), en_withdrawn = (\<lambda>_ _. False), en_waits = (\<lambda>_ _. True), en_resolver = None, en_reports = False,
        en_answersValid = (\<lambda>_ _. False)\<rparr>,
      sn_describeSession = (\<lambda>_. ''''),
      sn_open = (\<lambda>n _ _ _. (\<lparr>rto_KeyID = ''k'', rto_KeyClass = KeyClassUnstated\<rparr>,
        if n = 1 then Inl (ErrUpstream \<lparr>uf_Code = CodeProviderOverloaded, uf_Category = UpstreamOverloaded, uf_Detail = '''',
            uf_RetryAfterMs = 0, uf_Passthrough = None, uf_RecursOnThisRoute = False\<rparr>)
        else Inr 7)),
      sn_recorder = None\<rparr>"

definition demo_session_request :: realtime_session_request where
  "demo_session_request = demo_session (map (\<lambda>d. (demo_route d ''a/m@1'')\<lparr>ar_Regions := Some [''eu'']\<rparr>) [''e'', ''d''])"

definition demo_end :: session_end where
  "demo_end = \<lparr>sne_ClosedAt = 63902822400000000009, sne_Units = [\<lparr>uq_Unit = UnitInputTokens, uq_Quantity = 3\<rparr>],
     sne_UsageSource = UsageProviderReported, sne_FirstOutputAt = 0, sne_Outcome = AttemptSucceeded, sne_FailureCode = None,
     sne_ReportOutcome = OutcomeCompleted\<rparr>"

lemma demo_session_accepted: "session_Validate demo_session_request = None"
  by code_simp

lemma demo_session_resolved:
  "resolveAuthorizedRoutes (\<lambda>s. s) demo_inventory ''r'' (rsr_AuthorizedRoutes demo_session_request) 63902822400000000001 =
     Inr demo_candidates"
  by code_simp

lemma demo_session_opens:
  "Opened (os_opening (OpenSession demo_session_env False (NewRegistry DefaultPolicy) demo_session_request))"
proof -
  have "open_refusal demo_session_env False demo_session_request = None"
    unfolding open_refusal_def Let_def demo_session_accepted by code_simp
  moreover have "case open_loop demo_session_env demo_session_request demo_candidates
      (open_start demo_session_env (NewRegistry DefaultPolicy) demo_session_request) of
      Open_done s \<Rightarrow> Opened (os_opening s) | Open_next _ \<Rightarrow> False" by code_simp
  moreover have "at_RequestID (rsr_Attribution demo_session_request) = ''r''"
    "so_startedAt (os_opening (open_start demo_session_env (NewRegistry DefaultPolicy) demo_session_request)) = 63902822400000000001"
    "en_quoted (sn_exec demo_session_env) = (\<lambda>s. s)" "en_inventory (sn_exec demo_session_env) = demo_inventory"
    by (simp_all add: demo_session_request_def demo_session_def demo_request_def open_start_def new_opening_def demo_session_env_def)
  ultimately show ?thesis
    by (auto simp: OpenSession_def Let_def demo_session_resolved split: open_control.splits)
qed

theorem opened_session_settleable_witness:
  "let st = SettleSession demo_session_env False (os_opening (OpenSession demo_session_env False (NewRegistry DefaultPolicy) demo_session_request)) demo_end
   in ss_ReportError st = None \<and> map_option ur_RequestID (ss_Report st) = Some ''r''"
proof -
  note f = demo_inventory_parsed
  have inv: "en_inventory (sn_exec demo_session_env) = demo_inventory" by (simp add: demo_session_env_def)
  note op = demo_session_opens
  have id: "at_RequestID (rsr_Attribution demo_session_request) = ''r''"
    by (simp add: demo_session_request_def demo_session_def demo_request_def)
  have e: "check_units [] (sne_Units demo_end) = None" "sne_UsageSource demo_end \<in> set (no_source # usageSourceValues)"
    "sne_ReportOutcome demo_end \<in> set requestOutcomeValues" "sne_Units demo_end \<noteq> []"
    by (simp_all add: demo_end_def usageSourceValues_def requestOutcomeValues_def usageUnitValues_def is_member_def)
  show ?thesis
    using opened_session_settleable [OF f [folded inv] op e(1-3) e(4), of False] id by (auto simp: Let_def split: option.splits)
qed

text \<open>
  C27: Every open is paid for exactly once. Settling a session prices one row for each try of a route that was dialled, in
  order and no other row; a try the adapter refused before dialling has none, and only the last try can be one. The
  try that opened is the only served row, the last, and the only one with units, which are the session's totals;
  a session that never opened has no served row and no units.
\<close>

theorem session_attempts_accounted:
  "let s = OpenSession env settled reg request; st = SettleSession env deferred (os_opening s) e;
       rows = map fst (cr_Attempts (ss_UpstreamCost st))
   in list_all2 (\<lambda>row u. au_DeploymentID row = ro_DeploymentID (ou_route u) \<and> au_Provider row = ro_Provider (ou_route u) \<and>
          (au_Served row \<longleftrightarrow> ou_err u = None) \<and> au_Units row = (if ou_err u = None then sne_Units e else []))
        rows (filter dialled (os_opens s)) \<and>
      list_all (\<lambda>u. dialled u \<and> ou_err u \<noteq> None) (butlast (os_opens s)) \<and>
      (if Opened (os_opening s) then os_opens s \<noteq> [] \<and> ou_err (last (os_opens s)) = None
       else list_all (\<lambda>u. ou_err u \<noteq> None) (os_opens s))"
proof -
  let ?s = "OpenSession env settled reg request"
  let ?o = "os_opening ?s" and ?uses = "os_opens ?s"
  let ?row = "\<lambda>row u. au_DeploymentID row = ro_DeploymentID (ou_route u) \<and> au_Provider row = ro_Provider (ou_route u) \<and>
    (au_Served row \<longleftrightarrow> ou_err u = None) \<and> au_Units row = (if ou_err u = None then sne_Units e else [])"
  have rows: "map fst (cr_Attempts (ss_UpstreamCost (SettleSession env deferred ?o e))) = session_usage env ?o e" by simp
  have mono: "list_all2 row_of_use xs ys \<Longrightarrow> list_all2 ?row xs ys" for xs ys
    by (erule list_all2_mono) (auto simp: row_of_use_def)
  have over: "list_all survivable (butlast ?uses)" using OpenSession_over [of env settled reg request]
    by (simp add: opening_over_def Let_def)
  then have failed: "list_all (\<lambda>u. dialled u \<and> ou_err u \<noteq> None) (butlast ?uses)"
    by (auto simp: list_all_iff survivable_def dialled_def split: option.splits)
  show ?thesis
  proof (cases "Opened ?o")
    case True
    then have o': "?uses \<noteq> []" "ou_err (last ?uses) = None" "so_Route ?o = ou_route (last ?uses)"
      "list_all2 row_of_use (so_attempts ?o) (butlast ?uses)"
      using OpenSession_over [of env settled reg request] by (simp_all add: opening_over_def Let_def)
    have "filter dialled (butlast ?uses @ [last ?uses]) = butlast ?uses @ [last ?uses]"
      using survivable_dialled [OF over] o'(2) by (simp add: dialled_def)
    then have uses: "filter dialled ?uses = butlast ?uses @ [last ?uses]" using o'(1) by simp
    have "list_all2 ?row (so_attempts ?o @ [served_row env ?o e]) (butlast ?uses @ [last ?uses])"
      by (rule list_all2_appendI [OF mono [OF o'(4)]]) (simp add: served_row_def Let_def o'(2,3))
    then show ?thesis using failed o'(1,2) True unfolding Let_def rows uses by (simp add: session_usage_def)
  next
    case False
    then have "list_all2 row_of_use (so_attempts ?o) (filter dialled ?uses)" "list_all (\<lambda>u. ou_err u \<noteq> None) ?uses"
      using OpenSession_over [of env settled reg request] by (simp_all add: opening_over_def Let_def)
    then show ?thesis using mono failed False unfolding Let_def rows by (simp add: session_usage_def)
  qed
qed

end
