(* ===== verification/Realtime_Session.thy ===== *)
theory Realtime_Session
  imports Realtime_Replay Executor_Session
begin

text \<open>
  One realtime session between its opening and its settlement (\<open>internal/realtime/session.go\<close>). The goroutine
  that owns the session serves one input in turn: a frame of a connection, an event of the provider, a
  verified resume, a timer, a shutdown. \<open>session_step\<close> is one round of its loop and \<open>session_run\<close> the loop.

  The world is an environment: the executor's half of the session, what the provider answers to each \<open>Send\<close>,
  whether each write reaches its connection, the clock at numbered sites of numbered rounds, and the JSON of a
  frame, an event and a report. A connection is a number. A timer is the duration it was last armed with,
  or \<open>None\<close> when it is stopped; a stopped timer does not fire.
\<close>

record ('c, 'd, 'u) live_env =
  lv_session :: "('c, 'd, 'u) session_env"
  lv_rotation :: registry
  lv_send :: "'u \<Rightarrow> nat \<Rightarrow> realtime_command \<Rightarrow> go_error option"
  lv_measured :: "'u \<Rightarrow> usage_quantity list option"
  lv_parse :: "string \<Rightarrow> string + realtime_command"
  lv_describe :: "realtime_error \<Rightarrow> string"
  lv_probe :: "string \<Rightarrow> string option"
  lv_encode :: "stamped_event \<Rightarrow> string option"
  lv_encodeReport :: "usage_report \<Rightarrow> string option"
  lv_written :: "nat \<Rightarrow> bool"
  lv_now :: "nat \<Rightarrow> nat \<Rightarrow> instant"
  lv_cancelled :: "nat \<Rightarrow> bool"
  lv_shutdown :: "nat \<Rightarrow> bool"

record realtime_config =
  rcf_ResumeWindow :: duration
  rcf_ReplayEvents :: int
  rcf_ReplayBytes :: int

datatype ws_status = StatusNormalClosure | StatusGoingAway | StatusUnsupportedData

text \<open>
  \<open>sx_reported\<close> to the end are history variables: each quantity the session counted; each event that was numbered, with its bytes; each write, with its
  connection and whether it succeeded; the closed connections; each command sent upstream, with the answer, and
  how many events had been numbered when it was sent;
  each event of the provider the session took over; the closes of the provider session; and each
  settlement, and what of it was handed to the public ledger.
\<close>

record 'u session =
  sx_config :: realtime_config
  sx_request :: realtime_session_request
  sx_public :: bool
  sx_settlesPublic :: bool
  sx_opening :: "'u session_opening"
  sx_sequence :: int
  sx_replay :: replay
  sx_seen :: "string list"
  sx_attached :: "nat option"
  sx_units :: "(usage_unit \<times> int) list"
  sx_inputBytes :: int
  sx_outputBytes :: int
  sx_responses :: int
  sx_firstOutputAt :: instant
  sx_idle :: "duration option"
  sx_expiry :: "duration option"
  sx_resumeTimer :: "duration option"
  sx_closed :: bool
  sx_turn :: nat
  sx_reported :: "usage_quantity list"
  sx_log :: "(stamped_event \<times> string) list"
  sx_writes :: "(nat \<times> string \<times> bool) list"
  sx_hungUp :: "(nat \<times> ws_status) list"
  sx_sent :: "(realtime_command \<times> go_error option) list"
  sx_sentAt :: "nat list"
  sx_taken :: "realtime_server_event list"
  sx_upstreamCloses :: nat
  sx_settlements :: "(close_reason \<times> session_end \<times> session_settlement) list"
  sx_publicSettlements :: "session_settlement list"

record upstream_event =
  ru_Event :: "realtime_server_event option"
  ru_CommandID :: "string option"
  ru_Units :: "usage_quantity list"

record inbound =
  ib_conn :: nat
  ib_text :: bool
  ib_data :: string
  ib_err :: bool

record attachment =
  ac_ws :: nat
  ac_CommandID :: string
  ac_AfterSequence :: int

datatype session_input =
    Frame inbound
  | FromUpstream "go_error + upstream_event"
  | Attach attachment
  | IdleFires | ExpiryFires | ResumeFires | ShuttingDown | ContextDone

definition session_id :: "'u session \<Rightarrow> request_id" where
  "session_id s = at_RequestID (rsr_Attribution (sx_request s))"

text \<open>\<open>newSession\<close>. Nothing reads the opening before \<open>OpenSession\<close> has answered, so the record is made with it.\<close>

definition newSession ::
  "realtime_config \<Rightarrow> realtime_session_request \<Rightarrow> bool \<Rightarrow> bool \<Rightarrow> 'u session_opening \<Rightarrow> 'u session" where
  "newSession config request public settlesPublic opening =
     \<lparr>sx_config = config, sx_request = request, sx_public = public, sx_settlesPublic = settlesPublic, sx_opening = opening,
      sx_sequence = 0, sx_replay = newReplay (rcf_ReplayEvents config) (rcf_ReplayBytes config), sx_seen = [],
      sx_attached = None, sx_units = [], sx_inputBytes = 0, sx_outputBytes = 0, sx_responses = 0,
      sx_firstOutputAt = zero_time, sx_idle = None, sx_expiry = None, sx_resumeTimer = None, sx_closed = False,
      sx_turn = 0, sx_reported = [], sx_log = [], sx_writes = [], sx_hungUp = [], sx_sent = [], sx_sentAt = [], sx_taken = [], sx_upstreamCloses = 0,
      sx_settlements = [], sx_publicSettlements = []\<rparr>"

section \<open>Connections and events\<close>

definition connect :: "nat \<Rightarrow> 'u session \<Rightarrow> 'u session" where
  "connect ws s = s\<lparr>sx_attached := Some ws, sx_resumeTimer := None\<rparr>"

definition detach :: "nat \<Rightarrow> ws_status \<Rightarrow> 'u session \<Rightarrow> 'u session" where
  "detach conn code s =
     (if sx_attached s \<noteq> Some conn then s
      else let s = s\<lparr>sx_attached := None, sx_hungUp := sx_hungUp s @ [(conn, code)]\<rparr>
           in if sx_closed s then s else s\<lparr>sx_resumeTimer := Some (rcf_ResumeWindow (sx_config s))\<rparr>)"

text \<open>The method \<open>session.write\<close>.\<close>

definition write_frame :: "('c, 'd, 'u) live_env \<Rightarrow> string \<Rightarrow> 'u session \<Rightarrow> 'u session" where
  "write_frame env encoded s =
     (case sx_attached s of
        None \<Rightarrow> s
      | Some conn \<Rightarrow>
          let ok = lv_written env (length (sx_writes s)); s = s\<lparr>sx_writes := sx_writes s @ [(conn, encoded, ok)]\<rparr>
          in if ok then s else detach conn StatusGoingAway s)"

definition emit ::
  "('c, 'd, 'u) live_env \<Rightarrow> realtime_server_event \<Rightarrow> string option \<Rightarrow> 'u session \<Rightarrow> 'u session" where
  "emit env event commandID s =
     (let event = (if sx_public s then PublicRealtimeEvent event else event);
          stamped = Stamp \<lparr>rh_SchemaVersion = RealtimeSchemaVersion, rh_RequestID = session_id s,
                           rh_Sequence = sx_sequence s, rh_CommandID = commandID\<rparr> event
      in case lv_encode env stamped of
           None \<Rightarrow> s
         | Some encoded \<Rightarrow>
             write_frame env encoded (s\<lparr>sx_replay := push (sx_sequence s) encoded (sx_replay s),
               sx_sequence := sx_sequence s + 1, sx_log := sx_log s @ [(stamped, encoded)]\<rparr>))"

definition emit_error ::
  "('c, 'd, 'u) live_env \<Rightarrow> contract_error \<Rightarrow> string option \<Rightarrow> 'u session \<Rightarrow> 'u session" where
  "emit_error env failure commandID s = emit env (ErrorEvent False failure) commandID s"

section \<open>The end\<close>

definition add_units :: "usage_quantity list \<Rightarrow> (usage_unit \<times> int) list \<Rightarrow> (usage_unit \<times> int) list" where
  "add_units qs units =
     fold (\<lambda>q us. AList.update (uq_Unit q)
             (int64 ((case map_of us (uq_Unit q) of Some n \<Rightarrow> n | None \<Rightarrow> 0) + uq_Quantity q)) us) qs units"

definition count_units :: "usage_quantity list \<Rightarrow> 'u session \<Rightarrow> 'u session" where
  "count_units qs s = s\<lparr>sx_units := add_units qs (sx_units s), sx_reported := sx_reported s @ qs\<rparr>"

definition totals :: "(usage_unit \<times> int) list \<Rightarrow> usage_quantity list" where
  "totals units = map (\<lambda>(u, n). \<lparr>uq_Unit = u, uq_Quantity = n\<rparr>) (sort_key (\<lambda>(u, n). unit_text u) units)"

definition reportOutcome :: "close_reason \<Rightarrow> bool \<Rightarrow> bool \<Rightarrow> request_outcome" where
  "reportOutcome reason measured opened =
     (if \<not> opened then OutcomeFailed
      else if reason = RealtimeUpstreamError then (if measured then OutcomePartial else OutcomeFailed)
      else if reason = RealtimeResumeExpired \<or> \<not> measured then OutcomeCancelled
      else OutcomeCompleted)"

definition upstreamError :: "request_id \<Rightarrow> provider_slug \<Rightarrow> go_error \<Rightarrow> contract_error" where
  "upstreamError requestID slug err =
     (case as_upstream err of
        Some f \<Rightarrow> ContractError f requestID
      | None \<Rightarrow>
          if errors_is err ContextDeadlineExceeded
          then WithUpstream (NewError requestID CodeProviderTimeout (slug @ '' did not respond in time'')) UpstreamTimeout None
          else WithUpstream (NewError requestID CodeProviderError (''the '' @ slug @ '' session failed'')) UpstreamUnknown
                 (Some (passthrough_of slug)))"

definition session_closed_event ::
  "'u session_opening \<Rightarrow> close_reason \<Rightarrow> usage_quantity list \<Rightarrow> usage_source \<Rightarrow> instant \<Rightarrow> realtime_server_event" where
  "session_closed_event opening reason units source closedAt =
     SessionClosedEvent
       \<lparr>scl_Reason = reason,
        scl_DeploymentID = (if Opened opening then Some (ro_DeploymentID (so_Route opening)) else None),
        scl_Units = (if Opened opening then units else []), scl_UsageSource = source, scl_ClosedAt = NewTimestamp closedAt\<rparr>"

definition session_end_of ::
  "'u session_opening \<Rightarrow> close_reason \<Rightarrow> contract_error option \<Rightarrow> usage_quantity list \<Rightarrow> usage_source \<Rightarrow> instant \<Rightarrow>
   instant \<Rightarrow> session_end" where
  "session_end_of opening reason failure units source closedAt firstOutputAt =
     \<lparr>sne_ClosedAt = closedAt, sne_Units = units, sne_UsageSource = source, sne_FirstOutputAt = firstOutputAt,
      sne_Outcome = (if reason = RealtimeUpstreamError then AttemptFailed
                     else if reason = RealtimeResumeExpired \<or> reason = RealtimeClosedByClient \<and> failure \<noteq> None
                     then AttemptCancelled else AttemptSucceeded),
      sne_FailureCode = (if reason = RealtimeUpstreamError
                         then Some (case failure of Some f \<Rightarrow> ce_Code f | None \<Rightarrow> CodeProviderError) else None),
      sne_ReportOutcome = reportOutcome reason (length units > 0) (Opened opening)\<rparr>"

text \<open>What an open session consumed by Kaana's own measure, when its provider is billed by it.\<close>

definition measured_units :: "('c, 'd, 'u) live_env \<Rightarrow> 'u session \<Rightarrow> usage_quantity list option" where
  "measured_units env s = (case so_Upstream (sx_opening s) of None \<Rightarrow> None | Some u \<Rightarrow> lv_measured env u)"

definition hang_up ::
  "('c, 'd, 'u) live_env \<Rightarrow> session_settlement \<Rightarrow> ws_status \<Rightarrow> 'u session \<Rightarrow> 'u session" where
  "hang_up env settlement code s =
     (if sx_attached s = None then s
      else let s = (case ss_Report settlement of
                      None \<Rightarrow> s
                    | Some report \<Rightarrow>
                        if sx_public s then s
                        else (case lv_encodeReport env report of None \<Rightarrow> s | Some encoded \<Rightarrow> write_frame env encoded s))
           in case sx_attached s of
                None \<Rightarrow> s
              | Some conn \<Rightarrow> s\<lparr>sx_attached := None, sx_hungUp := sx_hungUp s @ [(conn, code)]\<rparr>)"

definition finish_open ::
  "('c, 'd, 'u) live_env \<Rightarrow> close_reason \<Rightarrow> contract_error option \<Rightarrow> string option \<Rightarrow> ws_status \<Rightarrow> 'u session \<Rightarrow> 'u session" where
  "finish_open env reason failure commandID code s =
     (let s = s\<lparr>sx_closed := True, sx_idle := None, sx_expiry := None, sx_resumeTimer := None\<rparr>;
          s = (case failure of None \<Rightarrow> s | Some f \<Rightarrow> emit env (ErrorEvent True f) commandID s);
          closedAt = lv_now env (sx_turn s) 1; opening = sx_opening s;
          source = (if measured_units env s = None then UsageProviderReported else UsageOxyMeasured);
          s = count_units (slice (measured_units env s)) s;
          units = totals (sx_units s);
          s = emit env (session_closed_event opening reason units source closedAt) None s;
          s = (if Opened opening then s\<lparr>sx_upstreamCloses := Suc (sx_upstreamCloses s)\<rparr> else s);
          e = session_end_of opening reason failure units source closedAt (sx_firstOutputAt s);
          settlement = SettleSession (lv_session env) (sx_public s) opening e;
          s = s\<lparr>sx_settlements := sx_settlements s @ [(reason, e, settlement)],
                sx_publicSettlements := sx_publicSettlements s @ (if sx_public s \<and> sx_settlesPublic s then [settlement] else [])\<rparr>
      in hang_up env settlement code s)"

definition session_finish ::
  "('c, 'd, 'u) live_env \<Rightarrow> close_reason \<Rightarrow> contract_error option \<Rightarrow> string option \<Rightarrow> ws_status \<Rightarrow> 'u session \<Rightarrow> 'u session" where
  "session_finish env reason failure commandID code s =
     (if sx_closed s then s else finish_open env reason failure commandID code s)"

section \<open>Frames\<close>

text \<open>\<open>DecodeRealtimeCommand\<close>: reading the JSON of the frame is \<open>lv_parse\<close>, the rules of the contract are here.\<close>

definition DecodeRealtimeCommand ::
  "('c, 'd, 'u) live_env \<Rightarrow> string \<Rightarrow> request_id \<Rightarrow> string + realtime_command" where
  "DecodeRealtimeCommand env data requestID =
     (case lv_parse env data of
        Inl e \<Rightarrow> Inl e
      | Inr c \<Rightarrow> (case validateRealtimeCommand c requestID of Some e \<Rightarrow> Inl (lv_describe env e) | None \<Rightarrow> Inr c))"

definition commandIDOf :: "('c, 'd, 'u) live_env \<Rightarrow> string \<Rightarrow> string option" where
  "commandIDOf env data =
     (case lv_probe env data of
        None \<Rightarrow> None
      | Some i \<Rightarrow> if i = '''' \<or> length i > 128 then None else Some i)"

definition updates_transcription :: "realtime_command_body \<Rightarrow> bool" where
  "updates_transcription body =
     (case body of SessionUpdate u \<Rightarrow> rsu_InputAudioTranscription u \<noteq> None | _ \<Rightarrow> False)"

text \<open>What an acknowledged command does: it is sent once, and never again.\<close>

definition send_command ::
  "('c, 'd, 'u) live_env \<Rightarrow> 'u \<Rightarrow> realtime_command \<Rightarrow> 'u session \<Rightarrow> 'u session" where
  "send_command env u c s0 =
     (let answer = lv_send env u (length (sx_sent s0)) c; s = s0\<lparr>sx_sent := sx_sent s0 @ [(c, answer)], sx_sentAt := sx_sentAt s0 @ [length (sx_log s0)]\<rparr>
      in case answer of
           None \<Rightarrow> s\<lparr>sx_inputBytes := sx_inputBytes s + commandInputAudio (rc_Body c)\<rparr>
         | Some err \<Rightarrow>
             (case as_unsupported err of
                Some us \<Rightarrow>
                  (let refusal = NewError (session_id s) (us_Code us) (us_Detail us)
                   in emit_error env (if us_Param us \<noteq> '''' then WithParam refusal (us_Param us) else refusal)
                        (Some (rc_CommandID c)) s)
              | None \<Rightarrow>
                  session_finish env RealtimeUpstreamError
                    (Some (upstreamError (session_id s) (ro_Provider (so_Route (sx_opening s))) err))
                    (Some (rc_CommandID c)) StatusNormalClosure s))"

definition apply_command :: "('c, 'd, 'u) live_env \<Rightarrow> realtime_command \<Rightarrow> 'u session \<Rightarrow> 'u session" where
  "apply_command env c s0 =
     (let s = emit env (CommandAcceptedEvent False) (Some (rc_CommandID c)) (s0\<lparr>sx_seen := rc_CommandID c # sx_seen s0\<rparr>)
      in if rc_Body c = SessionClose
         then session_finish env RealtimeClosedByClient None None StatusNormalClosure s
         else case so_Upstream (sx_opening s) of
                None \<Rightarrow> s
              | Some u \<Rightarrow> send_command env u c s)"

definition limited_command :: "('c, 'd, 'u) live_env \<Rightarrow> realtime_command \<Rightarrow> 'u session \<Rightarrow> 'u session" where
  "limited_command env c s =
     (let l = rsr_Limits (sx_request s); exceeded = (\<lambda>code message.
        session_finish env RealtimeLimitExceeded (Some (NewError (session_id s) code message)) (Some (rc_CommandID c)) StatusNormalClosure s)
      in if sx_inputBytes s + commandInputAudio (rc_Body c) > rsl_MaxInputAudioBytes l
         then exceeded CodeRequestTooLarge (''the session'' @ [CHR 39] @ ''s signed input audio ceiling would be exceeded'')
         else if CommandType (rc_Body c) = ''response.create'' \<and> sx_responses s \<ge> rsl_MaxResponses l
         then exceeded CodeOutputLimitExceeded (''the session'' @ [CHR 39] @ ''s signed response ceiling has been reached'')
         else apply_command env c s)"

definition receive_command :: "('c, 'd, 'u) live_env \<Rightarrow> realtime_command \<Rightarrow> 'u session \<Rightarrow> 'u session" where
  "receive_command env c s0 =
     (let s = s0\<lparr>sx_idle := Some (rsl_IdleTimeoutMs (rsr_Limits (sx_request s0)) * millisecond)\<rparr>; i = Some (rc_CommandID c)
      in if CommandType (rc_Body c) = ''session.resume''
         then emit_error env (NewError (session_id s) CodeInvalidRequest
                ''session.resume is only ever the first frame of a new connection'') i s
         else if updates_transcription (rc_Body c) \<and> \<not> sx_public s
         then emit_error env (EnvelopeInputTranscriptionRefused (session_id s)) i s
         else if is_member (rc_CommandID c) (sx_seen s) then emit env (CommandAcceptedEvent True) i s
         else limited_command env c s)"

definition receive :: "('c, 'd, 'u) live_env \<Rightarrow> inbound \<Rightarrow> 'u session \<Rightarrow> 'u session" where
  "receive env f s =
     (if sx_attached s \<noteq> Some (ib_conn f) then s
      else if ib_err f then detach (ib_conn f) StatusGoingAway s
      else if \<not> ib_text f
      then session_finish env RealtimeClosedByClient
             (Some (NewError (session_id s) CodeInvalidRequest ''a realtime frame is one JSON text message; binary frames are refused''))
             None StatusUnsupportedData s
      else case DecodeRealtimeCommand env (ib_data f) (session_id s) of
             Inl e \<Rightarrow> emit_error env (NewError (session_id s) CodeInvalidRequest e) (commandIDOf env (ib_data f)) s
           | Inr c \<Rightarrow> receive_command env c s)"

section \<open>Events of the provider\<close>

definition session_markOutput :: "('c, 'd, 'u) live_env \<Rightarrow> 'u session \<Rightarrow> 'u session" where
  "session_markOutput env s = (if sx_firstOutputAt s = zero_time then s\<lparr>sx_firstOutputAt := lv_now env (sx_turn s) 0\<rparr> else s)"

definition take_event ::
  "('c, 'd, 'u) live_env \<Rightarrow> realtime_server_event \<Rightarrow> string option \<Rightarrow> 'u session \<Rightarrow> 'u session" where
  "take_event env event commandID s = emit env event commandID (s\<lparr>sx_taken := sx_taken s @ [event]\<rparr>)"

definition pass_event ::
  "('c, 'd, 'u) live_env \<Rightarrow> realtime_server_event \<Rightarrow> string option \<Rightarrow> 'u session \<Rightarrow> 'u session" where
  "pass_event env event commandID s =
     (let l = rsr_Limits (sx_request s); exceeded = (\<lambda>message.
        session_finish env RealtimeLimitExceeded (Some (NewError (session_id s) CodeOutputLimitExceeded message)) None StatusNormalClosure s)
      in case event of
           ResponseCreatedEvent _ \<Rightarrow>
             if sx_responses s \<ge> rsl_MaxResponses l
             then exceeded (''the session'' @ [CHR 39] @ ''s signed response ceiling has been reached'')
             else take_event env event commandID (s\<lparr>sx_responses := sx_responses s + 1\<rparr>)
         | OutputAudioDeltaEvent _ _ _ _ data \<Rightarrow>
             let decoded = DecodedRealtimeAudioBytes data
             in if sx_outputBytes s + decoded > rsl_MaxOutputAudioBytes l
                then exceeded (''the session'' @ [CHR 39] @ ''s signed output audio ceiling would be exceeded'')
                else take_event env event commandID (session_markOutput env (s\<lparr>sx_outputBytes := sx_outputBytes s + decoded\<rparr>))
         | TextDeltaEvent _ _ _ _ \<Rightarrow> take_event env event commandID (session_markOutput env s)
         | TranscriptDeltaEvent _ _ _ _ _ \<Rightarrow> take_event env event commandID (session_markOutput env s)
         | TranscriptInterimEvent _ _ _ _ \<Rightarrow> take_event env event commandID (session_markOutput env s)
         | ToolCallEvent _ _ _ _ _ _ \<Rightarrow> take_event env event commandID (session_markOutput env s)
         | ResponseDoneEvent e \<Rightarrow>
             take_event env (ResponseDoneEvent (e\<lparr>rdn_DeploymentID := ro_DeploymentID (so_Route (sx_opening s))\<rparr>)) commandID s
         | _ \<Rightarrow> take_event env event commandID s)"

definition upstream :: "('c, 'd, 'u) live_env \<Rightarrow> go_error + upstream_event \<Rightarrow> 'u session \<Rightarrow> 'u session" where
  "upstream env result s =
     (case result of
        Inl err \<Rightarrow>
          if errors_is err ErrRealtimeUpstreamClosed
          then session_finish env RealtimeUpstreamClosed None None StatusNormalClosure s
          else if lv_cancelled env (sx_turn s)
          then session_finish env RealtimeServerShutdown None None StatusNormalClosure s
          else session_finish env RealtimeUpstreamError
                 (Some (upstreamError (session_id s) (ro_Provider (so_Route (sx_opening s))) err)) None StatusNormalClosure s
      | Inr e \<Rightarrow>
          let s = count_units (ru_Units e) s
          in case ru_Event e of None \<Rightarrow> s | Some event \<Rightarrow> pass_event env event (ru_CommandID e) s)"

section \<open>Reconnection\<close>

definition resume :: "('c, 'd, 'u) live_env \<Rightarrow> attachment \<Rightarrow> 'u session \<Rightarrow> 'u session \<times> string option" where
  "resume env a s =
     (if sx_closed s then (s, Some ''the session has ended'')
      else case replay_after (ac_AfterSequence a) (sx_sequence s) (sx_replay s) of
             None \<Rightarrow> (s, Some (''afterSequence '' @ string_of_int (ac_AfterSequence a) @
                              '' is not a sequence this session can replay from''))
           | Some missed \<Rightarrow>
               let s = (case sx_attached s of None \<Rightarrow> s | Some conn \<Rightarrow> detach conn StatusGoingAway s);
                   s = fold (write_frame env) missed (connect (ac_ws a) s)
               in (emit env (SessionResumedEvent (ac_AfterSequence a)) (Some (ac_CommandID a)) s, None))"

section \<open>The loop\<close>

definition serve_input :: "('c, 'd, 'u) live_env \<Rightarrow> session_input \<Rightarrow> 'u session \<Rightarrow> 'u session" where
  "serve_input env i s =
     (let finish = (\<lambda>reason. session_finish env reason None None StatusNormalClosure s)
      in case i of
           Frame f \<Rightarrow> receive env f s
         | FromUpstream r \<Rightarrow> upstream env r s
         | Attach a \<Rightarrow> fst (resume env a s)
         | IdleFires \<Rightarrow> if sx_idle s = None then s else finish RealtimeIdleTimeout
         | ExpiryFires \<Rightarrow> if sx_expiry s = None then s else finish RealtimeMaxDuration
         | ResumeFires \<Rightarrow> if sx_resumeTimer s = None then s else finish RealtimeResumeExpired
         | ShuttingDown \<Rightarrow> finish RealtimeServerShutdown
         | ContextDone \<Rightarrow> finish RealtimeServerShutdown)"

text \<open>One round of \<open>for !s.closed\<close>; what arrives after the loop has ended is not read.\<close>

definition session_step :: "('c, 'd, 'u) live_env \<Rightarrow> session_input \<Rightarrow> 'u session \<Rightarrow> 'u session" where
  "session_step env i s =
     (if sx_closed s then s else serve_input env i (s\<lparr>sx_turn := Suc (sx_turn s)\<rparr>))"

definition session_created_event :: "('c, 'd, 'u) live_env \<Rightarrow> 'u session \<Rightarrow> realtime_server_event" where
  "session_created_event env s =
     (let r = so_Route (sx_opening s); q = sx_request s; l = rsr_Limits q; openedAt = lv_now env 0 2
      in SessionCreatedEvent
           \<lparr>scr_ResolvedModelReference = ro_ModelReference r, scr_ServingProvider = ro_Provider r,
            scr_DeploymentID = ro_DeploymentID r, scr_Kind = rsr_Kind q, scr_Config = rsr_Config q, scr_Limits = l,
            scr_ResumeWindowMs = milliseconds (rcf_ResumeWindow (sx_config s)), scr_StartedAt = NewTimestamp openedAt,
            scr_ExpiresAt = NewTimestamp (openedAt + rsl_MaxDurationMs l * millisecond)\<rparr>)"

text \<open>\<open>run\<close> up to its loop: the first connection is attached and the signed routes are tried.\<close>

definition session_start ::
  "('c, 'd, 'u) live_env \<Rightarrow> realtime_config \<Rightarrow> realtime_session_request \<Rightarrow> bool \<Rightarrow> bool \<Rightarrow> nat \<Rightarrow> 'u session" where
  "session_start env config request public settlesPublic first =
     (let opening = os_opening (OpenSession (lv_session env) public (lv_rotation env) request);
          s = connect first (newSession config request public settlesPublic opening)
      in if \<not> Opened opening
         then session_finish env
                (if lv_shutdown env 0 \<or> lv_cancelled env 0 then RealtimeServerShutdown else RealtimeNoRouteAvailable)
                (so_Failure opening) None StatusNormalClosure s
         else (emit env (session_created_event env s) None s)
                \<lparr>sx_expiry := Some (rsl_MaxDurationMs (rsr_Limits request) * millisecond),
                 sx_idle := Some (rsl_IdleTimeoutMs (rsr_Limits request) * millisecond)\<rparr>)"

definition session_run ::
  "('c, 'd, 'u) live_env \<Rightarrow> realtime_config \<Rightarrow> realtime_session_request \<Rightarrow> bool \<Rightarrow> bool \<Rightarrow> nat \<Rightarrow> session_input list \<Rightarrow>
   'u session" where
  "session_run env config request public settlesPublic first inputs =
     fold (session_step env) inputs (session_start env config request public settlesPublic first)"

section \<open>What each operation leaves alone\<close>

lemma detach_simps [simp]:
  "sx_config (detach c k s) = sx_config s" "sx_request (detach c k s) = sx_request s"
  "sx_public (detach c k s) = sx_public s" "sx_settlesPublic (detach c k s) = sx_settlesPublic s"
  "sx_opening (detach c k s) = sx_opening s" "sx_sequence (detach c k s) = sx_sequence s"
  "sx_replay (detach c k s) = sx_replay s" "sx_seen (detach c k s) = sx_seen s"
  "sx_units (detach c k s) = sx_units s" "sx_inputBytes (detach c k s) = sx_inputBytes s"
  "sx_outputBytes (detach c k s) = sx_outputBytes s" "sx_responses (detach c k s) = sx_responses s"
  "sx_firstOutputAt (detach c k s) = sx_firstOutputAt s" "sx_idle (detach c k s) = sx_idle s"
  "sx_expiry (detach c k s) = sx_expiry s" "sx_closed (detach c k s) = sx_closed s"
  "sx_turn (detach c k s) = sx_turn s" "sx_log (detach c k s) = sx_log s" "sx_writes (detach c k s) = sx_writes s"
  "sx_sent (detach c k s) = sx_sent s" "sx_sentAt (detach c k s) = sx_sentAt s" "sx_taken (detach c k s) = sx_taken s"
  "sx_upstreamCloses (detach c k s) = sx_upstreamCloses s" "sx_settlements (detach c k s) = sx_settlements s"
  "sx_publicSettlements (detach c k s) = sx_publicSettlements s"
  by (simp_all add: detach_def Let_def)

lemma write_frame_simps [simp]:
  "sx_config (write_frame env b s) = sx_config s" "sx_request (write_frame env b s) = sx_request s"
  "sx_public (write_frame env b s) = sx_public s" "sx_settlesPublic (write_frame env b s) = sx_settlesPublic s"
  "sx_opening (write_frame env b s) = sx_opening s" "sx_sequence (write_frame env b s) = sx_sequence s"
  "sx_replay (write_frame env b s) = sx_replay s" "sx_seen (write_frame env b s) = sx_seen s"
  "sx_units (write_frame env b s) = sx_units s" "sx_inputBytes (write_frame env b s) = sx_inputBytes s"
  "sx_outputBytes (write_frame env b s) = sx_outputBytes s" "sx_responses (write_frame env b s) = sx_responses s"
  "sx_firstOutputAt (write_frame env b s) = sx_firstOutputAt s" "sx_idle (write_frame env b s) = sx_idle s"
  "sx_expiry (write_frame env b s) = sx_expiry s" "sx_closed (write_frame env b s) = sx_closed s"
  "sx_turn (write_frame env b s) = sx_turn s" "sx_log (write_frame env b s) = sx_log s"
  "sx_sent (write_frame env b s) = sx_sent s" "sx_sentAt (write_frame env b s) = sx_sentAt s" "sx_taken (write_frame env b s) = sx_taken s"
  "sx_upstreamCloses (write_frame env b s) = sx_upstreamCloses s"
  "sx_settlements (write_frame env b s) = sx_settlements s"
  "sx_publicSettlements (write_frame env b s) = sx_publicSettlements s"
  by (simp_all add: write_frame_def Let_def split: option.splits)

lemma emit_simps [simp]:
  "sx_config (emit env e i s) = sx_config s" "sx_request (emit env e i s) = sx_request s"
  "sx_public (emit env e i s) = sx_public s" "sx_settlesPublic (emit env e i s) = sx_settlesPublic s"
  "sx_opening (emit env e i s) = sx_opening s" "sx_seen (emit env e i s) = sx_seen s"
  "sx_units (emit env e i s) = sx_units s" "sx_inputBytes (emit env e i s) = sx_inputBytes s"
  "sx_outputBytes (emit env e i s) = sx_outputBytes s" "sx_responses (emit env e i s) = sx_responses s"
  "sx_firstOutputAt (emit env e i s) = sx_firstOutputAt s" "sx_idle (emit env e i s) = sx_idle s"
  "sx_expiry (emit env e i s) = sx_expiry s" "sx_closed (emit env e i s) = sx_closed s"
  "sx_turn (emit env e i s) = sx_turn s" "sx_sent (emit env e i s) = sx_sent s" "sx_sentAt (emit env e i s) = sx_sentAt s"
  "sx_taken (emit env e i s) = sx_taken s" "sx_upstreamCloses (emit env e i s) = sx_upstreamCloses s"
  "sx_settlements (emit env e i s) = sx_settlements s"
  "sx_publicSettlements (emit env e i s) = sx_publicSettlements s"
  by (simp_all add: emit_def Let_def split: option.splits)

lemma hang_up_simps [simp]:
  "sx_config (hang_up env st k s) = sx_config s" "sx_request (hang_up env st k s) = sx_request s"
  "sx_public (hang_up env st k s) = sx_public s" "sx_settlesPublic (hang_up env st k s) = sx_settlesPublic s"
  "sx_opening (hang_up env st k s) = sx_opening s" "sx_sequence (hang_up env st k s) = sx_sequence s"
  "sx_replay (hang_up env st k s) = sx_replay s" "sx_seen (hang_up env st k s) = sx_seen s"
  "sx_units (hang_up env st k s) = sx_units s" "sx_inputBytes (hang_up env st k s) = sx_inputBytes s"
  "sx_outputBytes (hang_up env st k s) = sx_outputBytes s" "sx_responses (hang_up env st k s) = sx_responses s"
  "sx_idle (hang_up env st k s) = sx_idle s" "sx_expiry (hang_up env st k s) = sx_expiry s"
  "sx_closed (hang_up env st k s) = sx_closed s" "sx_log (hang_up env st k s) = sx_log s"
  "sx_sent (hang_up env st k s) = sx_sent s" "sx_sentAt (hang_up env st k s) = sx_sentAt s" "sx_taken (hang_up env st k s) = sx_taken s"
  "sx_upstreamCloses (hang_up env st k s) = sx_upstreamCloses s"
  "sx_settlements (hang_up env st k s) = sx_settlements s"
  "sx_publicSettlements (hang_up env st k s) = sx_publicSettlements s"
  by (simp_all add: hang_up_def Let_def split: option.splits)

lemma connect_simps [simp]:
  "sx_attached (connect ws s) = Some ws" "sx_resumeTimer (connect ws s) = None" "sx_closed (connect ws s) = sx_closed s"
  "sx_public (connect ws s) = sx_public s" "sx_request (connect ws s) = sx_request s" "sx_opening (connect ws s) = sx_opening s"
  "sx_config (connect ws s) = sx_config s"
  by (simp_all add: connect_def)

lemma session_markOutput_simps [simp]:
  "sx_closed (session_markOutput env s) = sx_closed s" "sx_attached (session_markOutput env s) = sx_attached s"
  "sx_resumeTimer (session_markOutput env s) = sx_resumeTimer s" "sx_config (session_markOutput env s) = sx_config s"
  "sx_idle (session_markOutput env s) = sx_idle s" "sx_expiry (session_markOutput env s) = sx_expiry s"
  by (simp_all add: session_markOutput_def)

lemma count_units_simps [simp]:
  "sx_config (count_units qs s) = sx_config s" "sx_request (count_units qs s) = sx_request s"
  "sx_public (count_units qs s) = sx_public s" "sx_settlesPublic (count_units qs s) = sx_settlesPublic s"
  "sx_opening (count_units qs s) = sx_opening s" "sx_sequence (count_units qs s) = sx_sequence s"
  "sx_replay (count_units qs s) = sx_replay s" "sx_seen (count_units qs s) = sx_seen s"
  "sx_attached (count_units qs s) = sx_attached s" "sx_inputBytes (count_units qs s) = sx_inputBytes s"
  "sx_outputBytes (count_units qs s) = sx_outputBytes s" "sx_responses (count_units qs s) = sx_responses s"
  "sx_firstOutputAt (count_units qs s) = sx_firstOutputAt s" "sx_idle (count_units qs s) = sx_idle s"
  "sx_expiry (count_units qs s) = sx_expiry s" "sx_resumeTimer (count_units qs s) = sx_resumeTimer s"
  "sx_closed (count_units qs s) = sx_closed s" "sx_log (count_units qs s) = sx_log s"
  "sx_writes (count_units qs s) = sx_writes s" "sx_sent (count_units qs s) = sx_sent s" "sx_sentAt (count_units qs s) = sx_sentAt s"
  "sx_taken (count_units qs s) = sx_taken s" "sx_upstreamCloses (count_units qs s) = sx_upstreamCloses s"
  "sx_settlements (count_units qs s) = sx_settlements s"
  "sx_publicSettlements (count_units qs s) = sx_publicSettlements s"
  by (simp_all add: count_units_def)

lemma session_id_cong [simp]: "session_id (count_units qs s) = session_id s" "session_id (emit env e i s) = session_id s" "session_id (connect ws s) = session_id s"
  by (simp_all add: session_id_def)

lemma reported_simps [simp]:
  "sx_reported (detach c k s) = sx_reported s" "sx_reported (write_frame env b s) = sx_reported s"
  "sx_reported (emit env e i s) = sx_reported s" "sx_reported (hang_up env st code s) = sx_reported s"
  by (simp_all add: detach_def write_frame_def emit_def hang_up_def Let_def split: option.splits)

lemma finish_open_closed [simp]: "sx_closed (finish_open env r f i k s)"
  by (cases f) (simp_all add: finish_open_def Let_def)

section \<open>The moves of a session\<close>

text \<open>
  Every round of the loop is made of these moves, each guarded by what the code checked before it: rearming the idle
  timer, counting units, dropping the connection, an event of the session's own, acknowledging a command,
  sending it, passing on an event of the provider, a reconnection and the end.
\<close>

definition acceptable :: "realtime_command \<Rightarrow> 'u session \<Rightarrow> bool" where
  "acceptable c s \<longleftrightarrow>
     validateRealtimeCommand c (session_id s) = None \<and> CommandType (rc_Body c) \<noteq> ''session.resume'' \<and>
     (updates_transcription (rc_Body c) \<longrightarrow> sx_public s) \<and> rc_CommandID c \<notin> set (sx_seen s) \<and>
     sx_inputBytes s + commandInputAudio (rc_Body c) \<le> rsl_MaxInputAudioBytes (rsr_Limits (sx_request s))"

definition accepted :: "('c, 'd, 'u) live_env \<Rightarrow> realtime_command \<Rightarrow> 'u session \<Rightarrow> 'u session" where
  "accepted env c s = emit env (CommandAcceptedEvent False) (Some (rc_CommandID c)) (s\<lparr>sx_seen := rc_CommandID c # sx_seen s\<rparr>)"

fun plain_event :: "realtime_server_event \<Rightarrow> bool" where
  "plain_event (ResponseCreatedEvent _) = False"
| "plain_event (OutputAudioDeltaEvent _ _ _ _ _) = False"
| "plain_event _ = True"

text \<open>An answer after which the session goes on: the provider took the command, or it was refused before it was written.\<close>

definition answered :: "go_error option \<Rightarrow> bool" where
  "answered answer \<longleftrightarrow> (case answer of None \<Rightarrow> True | Some err \<Rightarrow> as_unsupported err \<noteq> None)"

inductive session_move :: "('c, 'd, 'u) live_env \<Rightarrow> 'u session \<Rightarrow> 'u session \<Rightarrow> bool" for env where
  Turns: "\<not> sx_closed s \<Longrightarrow> session_move env s (s\<lparr>sx_turn := Suc (sx_turn s)\<rparr>)"
| Arms: "\<not> sx_closed s \<Longrightarrow> session_move env s
     (s\<lparr>sx_expiry := Some (rsl_MaxDurationMs (rsr_Limits (sx_request s)) * millisecond),
        sx_idle := Some (rsl_IdleTimeoutMs (rsr_Limits (sx_request s)) * millisecond)\<rparr>)"
| Rearms: "\<not> sx_closed s \<Longrightarrow> session_move env s
     (s\<lparr>sx_idle := Some (rsl_IdleTimeoutMs (rsr_Limits (sx_request s)) * millisecond)\<rparr>)"
| Counts: "\<not> sx_closed s \<Longrightarrow> session_move env s (count_units qs s)"
| Drops: "\<not> sx_closed s \<Longrightarrow> session_move env s (detach conn StatusGoingAway s)"
| Says: "\<not> sx_closed s \<Longrightarrow> plain_event e \<Longrightarrow> session_move env s (emit env e i s)"
| Accepts: "\<not> sx_closed s \<Longrightarrow> acceptable c s \<Longrightarrow> session_move env s (accepted env c s)"
| Sends: "\<not> sx_closed s \<Longrightarrow> acceptable c s \<Longrightarrow> rc_Body c \<noteq> SessionClose \<Longrightarrow> s' = accepted env c s \<Longrightarrow>
     answered answer \<Longrightarrow> session_move env s
       (s'\<lparr>sx_sent := sx_sent s @ [(c, answer)], sx_sentAt := sx_sentAt s @ [length (sx_log s')],
           sx_inputBytes := sx_inputBytes s + (if answer = None then commandInputAudio (rc_Body c) else 0)\<rparr>)"
| Breaks: "\<not> sx_closed s \<Longrightarrow> acceptable c s \<Longrightarrow> rc_Body c \<noteq> SessionClose \<Longrightarrow> s' = accepted env c s \<Longrightarrow>
     \<not> answered (Some err) \<Longrightarrow>
     session_move env s (finish_open env reason failure i code (s'\<lparr>sx_sent := sx_sent s @ [(c, Some err)],
       sx_sentAt := sx_sentAt s @ [length (sx_log s')]\<rparr>))"
| Responds: "\<not> sx_closed s \<Longrightarrow> sx_responses s < rsl_MaxResponses (rsr_Limits (sx_request s)) \<Longrightarrow>
     session_move env s (take_event env (ResponseCreatedEvent r) i (s\<lparr>sx_responses := sx_responses s + 1\<rparr>))"
| Speaks: "\<not> sx_closed s \<Longrightarrow> e = OutputAudioDeltaEvent a b k d data \<Longrightarrow>
     sx_outputBytes s + DecodedRealtimeAudioBytes data \<le> rsl_MaxOutputAudioBytes (rsr_Limits (sx_request s)) \<Longrightarrow>
     session_move env s
       (take_event env e i (session_markOutput env (s\<lparr>sx_outputBytes := sx_outputBytes s + DecodedRealtimeAudioBytes data\<rparr>)))"
| Relays: "\<not> sx_closed s \<Longrightarrow> plain_event e \<Longrightarrow> s' = s \<or> s' = session_markOutput env s \<Longrightarrow> session_move env s (take_event env e i s')"
| Resumes: "\<not> sx_closed s \<Longrightarrow> session_move env s (fst (resume env a s))"
| Ends: "\<not> sx_closed s \<Longrightarrow> session_move env s (finish_open env reason failure i code s)"

abbreviation session_moves :: "('c, 'd, 'u) live_env \<Rightarrow> 'u session \<Rightarrow> 'u session \<Rightarrow> bool" where
  "session_moves env \<equiv> (session_move env)\<^sup>*\<^sup>*"

lemma finish_moves: "session_moves env s (session_finish env r f i k s)"
  by (auto simp: session_finish_def intro: session_move.Ends)

lemma says_error: "\<not> sx_closed s \<Longrightarrow> session_moves env s (emit_error env f i s)"
  unfolding emit_error_def by (rule r_into_rtranclp, rule session_move.Says) simp_all

lemma send_command_moves:
  assumes "\<not> sx_closed s" and "acceptable c s" and "rc_Body c \<noteq> SessionClose"
  shows "session_moves env s (send_command env u c (accepted env c s))"
proof -
  let ?a = "lv_send env u (length (sx_sent s)) c" and ?s = "accepted env c s"
  note sent = session_move.Sends [OF assms refl, of ?a env] and broken = session_move.Breaks [OF assms refl, of _ env]
  have f: "sx_sent ?s = sx_sent s" "sx_sentAt ?s = sx_sentAt s" "sx_inputBytes ?s = sx_inputBytes s" "sx_closed ?s = sx_closed s" by (simp_all add: accepted_def)
  show ?thesis
  proof (cases ?a)
    case None
    with sent show ?thesis by (simp add: send_command_def Let_def f answered_def r_into_rtranclp)
  next
    case (Some err)
    let ?s' = "?s\<lparr>sx_sent := sx_sent s @ [(c, Some err)], sx_sentAt := sx_sentAt s @ [length (sx_log ?s)]\<rparr>"
    show ?thesis
    proof (cases "as_unsupported err")
      case None
      with Some broken [of err] assms(1) show ?thesis
        by (auto simp: send_command_def Let_def f answered_def session_finish_def)
    next
      case (Some us)
      have "?s\<lparr>sx_sent := sx_sent s @ [(c, ?a)], sx_sentAt := sx_sentAt s @ [length (sx_log ?s)], sx_inputBytes := sx_inputBytes s\<rparr> = ?s'"
        using f(3) \<open>?a = Some err\<close> by (cases ?s) simp
      with sent Some \<open>?a = Some err\<close> have one: "session_move env s ?s'" by (simp add: answered_def)
      have "\<exists>f i. send_command env u c ?s = emit_error env f i ?s'"
        using Some \<open>?a = Some err\<close> by (auto simp: send_command_def Let_def f; blast)
      then obtain g i where g: "send_command env u c ?s = emit_error env g i ?s'" by blast
      have "\<not> sx_closed ?s'" using assms(1) by (simp add: f)
      from converse_rtranclp_into_rtranclp [of "session_move env", OF one says_error [OF this]] show ?thesis unfolding g .
    qed
  qed
qed

lemma limited_command_moves:
  assumes "\<not> sx_closed s" and "validateRealtimeCommand c (session_id s) = None" and "CommandType (rc_Body c) \<noteq> ''session.resume''"
    and "updates_transcription (rc_Body c) \<longrightarrow> sx_public s" and "rc_CommandID c \<notin> set (sx_seen s)"
  shows "session_moves env s (limited_command env c s)"
proof (cases "sx_inputBytes s + commandInputAudio (rc_Body c) > rsl_MaxInputAudioBytes (rsr_Limits (sx_request s)) \<or>
    CommandType (rc_Body c) = ''response.create'' \<and> sx_responses s \<ge> rsl_MaxResponses (rsr_Limits (sx_request s))")
  case True
  then show ?thesis by (auto simp: limited_command_def Let_def intro: finish_moves)
next
  case False
  then have l: "limited_command env c s = apply_command env c s" by (auto simp: limited_command_def Let_def)
  have a: "acceptable c s" using False assms by (auto simp: acceptable_def)
  have one: "session_moves env s (accepted env c s)" using session_move.Accepts [OF assms(1) a] by (rule r_into_rtranclp)
  show ?thesis
  proof (cases "rc_Body c = SessionClose")
    case True
    with l show ?thesis by (simp add: apply_command_def Let_def accepted_def [symmetric]) (rule rtranclp_trans [OF one finish_moves])
  next
    case False
    with l one send_command_moves [OF assms(1) a False] show ?thesis
      by (auto simp: apply_command_def Let_def accepted_def [symmetric] split: option.splits)
  qed
qed

lemma receive_moves:
  assumes "\<not> sx_closed s"
  shows "session_moves env s (receive env f s)"
proof (cases "DecodeRealtimeCommand env (ib_data f) (session_id s)")
  case (Inl e)
  then show ?thesis using assms
    by (auto simp: receive_def intro: finish_moves session_move.Drops says_error)
next
  case (Inr c)
  let ?s = "s\<lparr>sx_idle := Some (rsl_IdleTimeoutMs (rsr_Limits (sx_request s)) * millisecond)\<rparr>"
  have v: "validateRealtimeCommand c (session_id s) = None"
    using Inr by (auto simp: DecodeRealtimeCommand_def split: sum.splits option.splits)
  have one: "session_move env s ?s" by (rule session_move.Rearms [OF assms])
  have open': "\<not> sx_closed ?s" using assms by simp
  have "session_moves env ?s (receive_command env c s)"
  proof (cases "CommandType (rc_Body c) = ''session.resume'' \<or> updates_transcription (rc_Body c) \<and> \<not> sx_public s \<or>
      rc_CommandID c \<in> set (sx_seen s)")
    case True
    then show ?thesis using assms session_move.Says [OF open', of "CommandAcceptedEvent True" env]
      by (auto simp: receive_command_def Let_def session_id_def is_member_def intro: says_error)
  next
    case False
    then have "session_moves env ?s (limited_command env c ?s)"
      using v by (intro limited_command_moves) (auto simp: assms session_id_def)
    then show ?thesis using False by (auto simp: receive_command_def Let_def is_member_def)
  qed
  with one have "session_moves env s (receive_command env c s)" by (rule converse_rtranclp_into_rtranclp)
  then show ?thesis using Inr assms by (auto simp: receive_def intro: finish_moves session_move.Drops)
qed

lemma pass_event_moves:
  assumes "\<not> sx_closed s"
  shows "session_moves env s (pass_event env e i s)"
proof -
  have plain: "session_moves env s (take_event env e i s)" "session_moves env s (take_event env e i (session_markOutput env s))"
    if "plain_event e" for e
    using session_move.Relays [OF assms that] by blast+
  show ?thesis
    using session_move.Responds [OF assms, of env] session_move.Speaks [OF assms refl, of _ env]
    by (cases e) (auto simp: pass_event_def Let_def intro: finish_moves plain r_into_rtranclp)
qed

lemma upstream_moves:
  assumes "\<not> sx_closed s"
  shows "session_moves env s (upstream env r s)"
proof (cases r)
  case (Inl err)
  then show ?thesis by (auto simp: upstream_def intro: finish_moves)
next
  case (Inr e)
  let ?s = "count_units (ru_Units e) s"
  have one: "session_move env s ?s" by (rule session_move.Counts [OF assms])
  have "session_moves env ?s (pass_event env ev (ru_CommandID e) ?s)" for ev by (rule pass_event_moves) (simp add: assms)
  with one Inr show ?thesis
    by (auto simp: upstream_def Let_def split: option.splits intro: converse_rtranclp_into_rtranclp)
qed

lemma step_moves: "session_moves env s (session_step env i s)"
proof (cases "sx_closed s")
  case False
  let ?s = "s\<lparr>sx_turn := Suc (sx_turn s)\<rparr>"
  have one: "session_move env s ?s" by (rule session_move.Turns [OF False])
  have "session_moves env ?s (serve_input env i ?s)"
    using False receive_moves [of ?s env] upstream_moves [of ?s env] session_move.Resumes [of ?s env]
    by (cases i) (auto simp: serve_input_def Let_def intro: finish_moves)
  with one False show ?thesis by (simp add: session_step_def converse_rtranclp_into_rtranclp)
qed (simp add: session_step_def)

lemma steps_moves: "session_moves env s (fold (session_step env) inputs s)"
proof (induction inputs arbitrary: s)
  case (Cons i inputs)
  from rtranclp_trans [OF step_moves Cons.IH] show ?case by simp
qed simp

lemma moves_invariant:
  assumes "session_moves env s s'" and "P s" and "\<And>s s'. session_move env s s' \<Longrightarrow> P s \<Longrightarrow> P s'"
  shows "P s'"
  using assms by (induction rule: rtranclp_induct) auto

text \<open>The session as it is made, with its first connection.\<close>

definition session_new ::
  "('c, 'd, 'u) live_env \<Rightarrow> realtime_config \<Rightarrow> realtime_session_request \<Rightarrow> bool \<Rightarrow> bool \<Rightarrow> nat \<Rightarrow> 'u session" where
  "session_new env config request public settlesPublic first =
     connect first (newSession config request public settlesPublic
       (os_opening (OpenSession (lv_session env) public (lv_rotation env) request)))"

lemma session_new_open [simp]: "\<not> sx_closed (session_new env config request public settlesPublic first)"
  by (simp add: session_new_def newSession_def)

lemma start_moves:
  "session_moves env (session_new env config request public sp first) (session_start env config request public sp first)"
proof -
  let ?s = "session_new env config request public sp first"
  have one: "session_move env ?s (emit env (session_created_event env ?s) None ?s)"
    by (rule session_move.Says) (simp_all add: session_created_event_def Let_def)
  have r: "sx_request ?s = request" by (simp add: session_new_def newSession_def)
  have "session_move env (emit env (session_created_event env ?s) None ?s)
      ((emit env (session_created_event env ?s) None ?s)
        \<lparr>sx_expiry := Some (rsl_MaxDurationMs (rsr_Limits request) * millisecond),
         sx_idle := Some (rsl_IdleTimeoutMs (rsr_Limits request) * millisecond)\<rparr>)"
    using session_move.Arms [of "emit env (session_created_event env ?s) None ?s" env] by (simp add: r)
  with one have "session_moves env ?s ((emit env (session_created_event env ?s) None ?s)
        \<lparr>sx_expiry := Some (rsl_MaxDurationMs (rsr_Limits request) * millisecond),
         sx_idle := Some (rsl_IdleTimeoutMs (rsr_Limits request) * millisecond)\<rparr>)" by auto
  then show ?thesis
    by (auto simp: session_start_def Let_def session_new_def [symmetric] intro: finish_moves)
qed

lemma run_moves:
  "session_moves env (session_new env config request public sp first) (session_run env config request public sp first inputs)"
  unfolding session_run_def by (rule rtranclp_trans [OF start_moves steps_moves])

end
