(* ===== verification/Session_Guarantees.thy ===== *)
theory Session_Guarantees
  imports Realtime_Session
begin

text \<open>
  What a realtime session guarantees whatever its client, its provider and its timers do
  (\<open>internal/realtime/session.go\<close>): invariants of the moves of \<open>Realtime_Session\<close>, and the properties of a
  whole run that follow from them.
\<close>

section \<open>Frames on the connection\<close>

lemma fold_write_simps [simp]:
  "sx_config (fold (write_frame env) bs s) = sx_config s" "sx_request (fold (write_frame env) bs s) = sx_request s"
  "sx_public (fold (write_frame env) bs s) = sx_public s" "sx_opening (fold (write_frame env) bs s) = sx_opening s"
  "sx_sequence (fold (write_frame env) bs s) = sx_sequence s" "sx_replay (fold (write_frame env) bs s) = sx_replay s"
  "sx_seen (fold (write_frame env) bs s) = sx_seen s" "sx_units (fold (write_frame env) bs s) = sx_units s"
  "sx_inputBytes (fold (write_frame env) bs s) = sx_inputBytes s" "sx_outputBytes (fold (write_frame env) bs s) = sx_outputBytes s"
  "sx_responses (fold (write_frame env) bs s) = sx_responses s" "sx_idle (fold (write_frame env) bs s) = sx_idle s"
  "sx_expiry (fold (write_frame env) bs s) = sx_expiry s" "sx_closed (fold (write_frame env) bs s) = sx_closed s"
  "sx_log (fold (write_frame env) bs s) = sx_log s" "sx_sent (fold (write_frame env) bs s) = sx_sent s" "sx_sentAt (fold (write_frame env) bs s) = sx_sentAt s"
  "sx_taken (fold (write_frame env) bs s) = sx_taken s" "sx_reported (fold (write_frame env) bs s) = sx_reported s"
  "sx_upstreamCloses (fold (write_frame env) bs s) = sx_upstreamCloses s"
  "sx_settlements (fold (write_frame env) bs s) = sx_settlements s"
  "sx_publicSettlements (fold (write_frame env) bs s) = sx_publicSettlements s"
  by (induction bs arbitrary: s) simp_all

lemma session_new_simps [simp]:
  "sx_config (session_new env c q p sp k) = c" "sx_request (session_new env c q p sp k) = q"
  "sx_public (session_new env c q p sp k) = p" "sx_settlesPublic (session_new env c q p sp k) = sp"
  "sx_opening (session_new env c q p sp k) = os_opening (OpenSession (lv_session env) p (lv_rotation env) q)"
  "sx_sequence (session_new env c q p sp k) = 0"
  "sx_replay (session_new env c q p sp k) = newReplay (rcf_ReplayEvents c) (rcf_ReplayBytes c)"
  "sx_seen (session_new env c q p sp k) = []" "sx_attached (session_new env c q p sp k) = Some k"
  "sx_resumeTimer (session_new env c q p sp k) = None" "sx_units (session_new env c q p sp k) = []"
  "sx_reported (session_new env c q p sp k) = []" "sx_inputBytes (session_new env c q p sp k) = 0"
  "sx_outputBytes (session_new env c q p sp k) = 0" "sx_responses (session_new env c q p sp k) = 0"
  "sx_log (session_new env c q p sp k) = []" "sx_writes (session_new env c q p sp k) = []"
  "sx_sent (session_new env c q p sp k) = []" "sx_sentAt (session_new env c q p sp k) = []" "sx_taken (session_new env c q p sp k) = []"
  "sx_upstreamCloses (session_new env c q p sp k) = 0" "sx_settlements (session_new env c q p sp k) = []"
  "sx_publicSettlements (session_new env c q p sp k) = []"
  by (simp_all add: session_new_def newSession_def connect_def)

lemma finish_open_simps [simp]:
  "sx_config (finish_open env r f i k s) = sx_config s" "sx_request (finish_open env r f i k s) = sx_request s"
  "sx_public (finish_open env r f i k s) = sx_public s" "sx_settlesPublic (finish_open env r f i k s) = sx_settlesPublic s"
  "sx_opening (finish_open env r f i k s) = sx_opening s" "sx_seen (finish_open env r f i k s) = sx_seen s"
  "sx_sent (finish_open env r f i k s) = sx_sent s" "sx_sentAt (finish_open env r f i k s) = sx_sentAt s" "sx_taken (finish_open env r f i k s) = sx_taken s"
  "sx_inputBytes (finish_open env r f i k s) = sx_inputBytes s" "sx_outputBytes (finish_open env r f i k s) = sx_outputBytes s"
  "sx_responses (finish_open env r f i k s) = sx_responses s" "session_id (finish_open env r f i k s) = session_id s"
  by (simp_all add: finish_open_def session_id_def Let_def split: option.splits)

text \<open>The parts of a session that no move changes.\<close>

definition session_frame :: "'u session \<Rightarrow> realtime_config \<times> realtime_session_request \<times> bool \<times> bool \<times> 'u session_opening" where
  "session_frame s = (sx_config s, sx_request s, sx_public s, sx_settlesPublic s, sx_opening s)"

lemma session_frame_emit [simp]: "session_frame (emit env e i s) = session_frame s"
  by (simp add: session_frame_def)

lemma detach_or: "(case sx_attached s of None \<Rightarrow> s | Some c \<Rightarrow> detach c k s) =
    (if sx_attached s = None then s else detach (the (sx_attached s)) k s)"
  by (simp split: option.splits)

lemma settlesPublic_fold [simp]: "sx_settlesPublic (fold (write_frame env) bs s) = sx_settlesPublic s"
  by (induction bs arbitrary: s) simp_all

lemma move_frame: "session_move env s s' \<Longrightarrow> session_frame s' = session_frame s"
  by (induction rule: session_move.induct)
    (auto simp: session_frame_def accepted_def take_event_def session_markOutput_def resume_def connect_def
      count_units_def detach_or Let_def split: option.splits if_splits)

lemma moves_frame: "session_moves env s s' \<Longrightarrow> session_frame s' = session_frame s"
  by (induction rule: rtranclp_induct) (auto dest: move_frame)

lemma run_frame:
  fixes env config request public sp k inputs
  defines "s \<equiv> session_run env config request public sp k inputs"
  shows "sx_config s = config" "sx_request s = request" "sx_public s = public" "sx_settlesPublic s = sp"
    "sx_opening s = os_opening (OpenSession (lv_session env) public (lv_rotation env) request)"
  using moves_frame [OF run_moves [of env config request public sp k inputs]] unfolding s_def by (simp_all add: session_frame_def)

section \<open>The stream\<close>

definition numbered :: "('c, 'd, 'u) live_env \<Rightarrow> 'u session \<Rightarrow> nat \<Rightarrow> stamped_event \<times> string \<Rightarrow> bool" where
  "numbered env s n x \<longleftrightarrow>
     rh_Sequence (se_Header (fst x)) = int n \<and> rh_RequestID (se_Header (fst x)) = session_id s \<and>
     rh_SchemaVersion (se_Header (fst x)) = RealtimeSchemaVersion \<and> se_Type (fst x) = EventType (se_Event (fst x)) \<and>
     lv_encode env (fst x) = Some (snd x) \<and> (sx_public s \<longrightarrow> PublicRealtimeEvent (se_Event (fst x)) = se_Event (fst x))"

definition stream_inv :: "('c, 'd, 'u) live_env \<Rightarrow> 'u session \<Rightarrow> bool" where
  "stream_inv env s \<longleftrightarrow>
     sx_sequence s = int (length (sx_log s)) \<and>
     sx_replay s = pushed (rcf_ReplayEvents (sx_config s)) (rcf_ReplayBytes (sx_config s)) (map snd (sx_log s)) \<and>
     list_all2 (numbered env s) [0..<length (sx_log s)] (sx_log s)"

lemma PublicRealtimeEvent_idem [simp]: "PublicRealtimeEvent (PublicRealtimeEvent e) = PublicRealtimeEvent e"
  by (cases e) (simp_all add: PublicRealtimeEvent_def)

lemma stream_inv_cong:
  "sx_config s' = sx_config s \<Longrightarrow> sx_request s' = sx_request s \<Longrightarrow> sx_public s' = sx_public s \<Longrightarrow>
   sx_sequence s' = sx_sequence s \<Longrightarrow> sx_replay s' = sx_replay s \<Longrightarrow> sx_log s' = sx_log s \<Longrightarrow>
   stream_inv env s' = stream_inv env s"
  by (simp add: stream_inv_def numbered_def [abs_def] session_id_def)

lemma stream_inv_simps [simp]:
  "stream_inv env (detach c k s) = stream_inv env s" "stream_inv env (write_frame env b s) = stream_inv env s"
  "stream_inv env (hang_up env st k s) = stream_inv env s" "stream_inv env (count_units qs s) = stream_inv env s"
  "stream_inv env (connect ws s) = stream_inv env s" "stream_inv env (session_markOutput env s) = stream_inv env s"
  "stream_inv env (fold (write_frame env) bs s) = stream_inv env s"
  by (rule stream_inv_cong; simp add: connect_def session_markOutput_def)+

lemma stream_inv_updates [simp]:
  "stream_inv env (s\<lparr>sx_seen := a\<rparr>) = stream_inv env s" "stream_inv env (s\<lparr>sx_inputBytes := n\<rparr>) = stream_inv env s"
  "stream_inv env (s\<lparr>sx_outputBytes := n\<rparr>) = stream_inv env s" "stream_inv env (s\<lparr>sx_responses := n\<rparr>) = stream_inv env s"
  "stream_inv env (s\<lparr>sx_idle := d\<rparr>) = stream_inv env s" "stream_inv env (s\<lparr>sx_expiry := d\<rparr>) = stream_inv env s"
  "stream_inv env (s\<lparr>sx_resumeTimer := d\<rparr>) = stream_inv env s" "stream_inv env (s\<lparr>sx_closed := b\<rparr>) = stream_inv env s"
  "stream_inv env (s\<lparr>sx_turn := t\<rparr>) = stream_inv env s" "stream_inv env (s\<lparr>sx_sent := x\<rparr>) = stream_inv env s" "stream_inv env (s\<lparr>sx_sentAt := ns\<rparr>) = stream_inv env s"
  "stream_inv env (s\<lparr>sx_taken := es\<rparr>) = stream_inv env s" "stream_inv env (s\<lparr>sx_upstreamCloses := t\<rparr>) = stream_inv env s"
  "stream_inv env (s\<lparr>sx_attached := conn\<rparr>) = stream_inv env s"
  "stream_inv env (s\<lparr>sx_settlements := y\<rparr>) = stream_inv env s" "stream_inv env (s\<lparr>sx_publicSettlements := z\<rparr>) = stream_inv env s"
  by (rule stream_inv_cong; simp)+

lemma stream_inv_emit: "stream_inv env s \<Longrightarrow> stream_inv env (emit env e i s)"
  by (auto simp: emit_def Let_def stream_inv_def numbered_def [abs_def] session_id_def pushed_snoc Stamp_def
      intro!: list_all2_appendI split: option.splits)

lemma finish_open_stream: "stream_inv env s \<Longrightarrow> stream_inv env (finish_open env r f i k s)"
  by (auto simp: finish_open_def Let_def intro!: stream_inv_emit split: option.splits)

lemma move_stream: "session_move env s s' \<Longrightarrow> stream_inv env s \<Longrightarrow> stream_inv env s'"
  by (induction rule: session_move.induct)
    (auto simp: accepted_def take_event_def resume_def detach_or Let_def
      intro!: stream_inv_emit finish_open_stream split: option.splits)

lemma new_stream: "stream_inv env (session_new env c q p sp k)"
  by (simp add: stream_inv_def pushed.simps)

lemma run_stream: "stream_inv env (session_run env c q p sp k inputs)"
  by (rule moves_invariant [where P = "stream_inv env", OF run_moves new_stream move_stream])

section \<open>The end\<close>

text \<open>The event that announces the end with the totals, as it is numbered.\<close>

definition closing_event :: "'u session \<Rightarrow> close_reason \<Rightarrow> session_end \<Rightarrow> int \<Rightarrow> stamped_event" where
  "closing_event s reason e n =
     (let event = session_closed_event (sx_opening s) reason (sne_Units e) (sne_UsageSource e) (sne_ClosedAt e)
      in Stamp \<lparr>rh_SchemaVersion = RealtimeSchemaVersion, rh_RequestID = session_id s, rh_Sequence = n, rh_CommandID = None\<rparr>
           (if sx_public s then PublicRealtimeEvent event else event))"

definition announced :: "('c, 'd, 'u) live_env \<Rightarrow> 'u session \<Rightarrow> close_reason \<Rightarrow> session_end \<Rightarrow> bool" where
  "announced env s reason e \<longleftrightarrow>
     (if lv_encode env (closing_event s reason e (sx_sequence s)) = None then True
      else sx_log s \<noteq> [] \<and> fst (last (sx_log s)) = closing_event s reason e (sx_sequence s - 1))"

definition ended :: "('c, 'd, 'u) live_env \<Rightarrow> 'u session \<Rightarrow> bool" where
  "ended env s \<longleftrightarrow>
     (case sx_settlements s of
        [(reason, e, settlement)] \<Rightarrow>
          settlement = SettleSession (lv_session env) (sx_public s) (sx_opening s) e \<and>
          sx_publicSettlements s = (if sx_public s \<and> sx_settlesPublic s then [settlement] else []) \<and>
          sx_upstreamCloses s = (if Opened (sx_opening s) then 1 else 0) \<and>
          sx_attached s = None \<and> sx_idle s = None \<and> sx_expiry s = None \<and> sx_resumeTimer s = None \<and>
          sne_Units e = totals (sx_units s) \<and> sne_UsageSource e \<in> {UsageProviderReported, UsageOxyMeasured} \<and>
          sne_ReportOutcome e = reportOutcome reason (sne_Units e \<noteq> []) (Opened (sx_opening s)) \<and>
          announced env s reason e
      | _ \<Rightarrow> False)"

lemma endedE:
  assumes "ended env s"
  obtains reason e st where "sx_settlements s = [(reason, e, st)]" "st = SettleSession (lv_session env) (sx_public s) (sx_opening s) e"
    "sne_Units e = totals (sx_units s)" "sne_UsageSource e \<in> {UsageProviderReported, UsageOxyMeasured}"
    "sne_ReportOutcome e = reportOutcome reason (sne_Units e \<noteq> []) (Opened (sx_opening s))"
  using assms by (cases "sx_settlements s"; cases "tl (sx_settlements s)") (auto simp: ended_def)

definition unsettled :: "'u session \<Rightarrow> bool" where
  "unsettled s \<longleftrightarrow> sx_settlements s = [] \<and> sx_publicSettlements s = [] \<and> sx_upstreamCloses s = 0"

lemma emit_closed_timer [simp]: "sx_closed s \<Longrightarrow> sx_resumeTimer (emit env e i s) = sx_resumeTimer s"
  by (simp add: emit_def write_frame_def detach_def Let_def split: option.splits)

lemma hang_up_attached [simp]: "sx_attached (hang_up env st k s) = None"
  by (simp add: hang_up_def Let_def split: option.splits)

lemma hang_up_timer [simp]: "sx_closed s \<Longrightarrow> sx_resumeTimer (hang_up env st k s) = sx_resumeTimer s"
  by (simp add: hang_up_def write_frame_def detach_def Let_def split: option.splits)

lemma emit_last:
  assumes "event = (if sx_public s then PublicRealtimeEvent e else e)"
    and "ev = (\<lambda>n. Stamp \<lparr>rh_SchemaVersion = RealtimeSchemaVersion, rh_RequestID = session_id s, rh_Sequence = n, rh_CommandID = i\<rparr> event)"
  shows "lv_encode env (ev (sx_sequence (emit env e i s))) = None \<or>
    sx_log (emit env e i s) \<noteq> [] \<and> fst (last (sx_log (emit env e i s))) = ev (sx_sequence (emit env e i s) - 1)"
  using assms by (auto simp: emit_def Let_def split: option.splits)

lemma announced_hang_up [simp]: "announced env (hang_up env st k s) r e = announced env s r e"
  by (simp add: announced_def closing_event_def session_id_def)

lemma finish_open_ends:
  assumes "unsettled s"
  shows "ended env (finish_open env r f i k s)"
proof -
  define s1 where "s1 = s\<lparr>sx_closed := True, sx_idle := None, sx_expiry := None, sx_resumeTimer := None\<rparr>"
  define s2 where "s2 = (case f of None \<Rightarrow> s1 | Some f \<Rightarrow> emit env (ErrorEvent True f) i s1)"
  define source where "source = (if measured_units env s2 = None then UsageProviderReported else UsageOxyMeasured)"
  define s3 where "s3 = count_units (slice (measured_units env s2)) s2"
  define s4 where "s4 = emit env (session_closed_event (sx_opening s2) r (totals (sx_units s3)) source (lv_now env (sx_turn s2) 1)) None s3"
  define s5 where "s5 = (if Opened (sx_opening s2) then s4\<lparr>sx_upstreamCloses := Suc (sx_upstreamCloses s4)\<rparr> else s4)"
  define e where "e = session_end_of (sx_opening s2) r f (totals (sx_units s3)) source (lv_now env (sx_turn s2) 1) (sx_firstOutputAt s5)"
  define st where "st = SettleSession (lv_session env) (sx_public s5) (sx_opening s2) e"
  define s6 where "s6 = s5\<lparr>sx_settlements := sx_settlements s5 @ [(r, e, st)],
     sx_publicSettlements := sx_publicSettlements s5 @ (if sx_public s5 \<and> sx_settlesPublic s5 then [st] else [])\<rparr>"
  have whole: "finish_open env r f i k s = hang_up env st k s6"
    unfolding finish_open_def Let_def s1_def s2_def s3_def s4_def s5_def s6_def e_def st_def source_def by (simp split: option.splits)
  have s1: "sx_closed s1" "sx_idle s1 = None" "sx_expiry s1 = None" "sx_resumeTimer s1 = None" "unsettled s1"
    "sx_public s1 = sx_public s" "sx_settlesPublic s1 = sx_settlesPublic s" "sx_opening s1 = sx_opening s" "session_id s1 = session_id s"
    using assms by (simp_all add: s1_def unsettled_def session_id_def)
  have s2: "sx_closed s2" "sx_idle s2 = None" "sx_expiry s2 = None" "sx_resumeTimer s2 = None" "unsettled s2"
    "sx_public s2 = sx_public s" "sx_settlesPublic s2 = sx_settlesPublic s" "sx_opening s2 = sx_opening s" "session_id s2 = session_id s"
    using s1 by (auto simp: s2_def unsettled_def split: option.splits)
  have s6: "sx_closed s6" "sx_idle s6 = None" "sx_expiry s6 = None" "sx_resumeTimer s6 = None" "sx_settlements s6 = [(r, e, st)]"
    "sx_publicSettlements s6 = (if sx_public s \<and> sx_settlesPublic s then [st] else [])"
    "sx_upstreamCloses s6 = (if Opened (sx_opening s) then 1 else 0)" "sx_public s6 = sx_public s"
    "sx_settlesPublic s6 = sx_settlesPublic s" "sx_opening s6 = sx_opening s" "session_id s6 = session_id s" "sx_units s6 = sx_units s3"
    "st = SettleSession (lv_session env) (sx_public s) (sx_opening s) e"
    using s2 by (simp_all add: s6_def s5_def s4_def s3_def st_def unsettled_def) (simp_all add: session_id_def)
  have log: "sx_log s6 = sx_log s4" "sx_sequence s6 = sx_sequence s4" by (simp_all add: s6_def s5_def)
  have e: "sne_Units e = totals (sx_units s3)" "sne_UsageSource e = source" "sne_ClosedAt e = lv_now env (sx_turn s2) 1"
    "sne_ReportOutcome e = reportOutcome r (totals (sx_units s3) \<noteq> []) (Opened (sx_opening s))"
    using s2 by (simp_all add: e_def session_end_of_def)
  have s3: "session_id s3 = session_id s" "sx_public s3 = sx_public s" by (simp_all add: s3_def s2)
  have s4: "s4 = emit env (session_closed_event (sx_opening s) r (totals (sx_units s3)) source (lv_now env (sx_turn s2) 1)) None s3"
    by (simp add: s4_def s2)
  have "announced env s6 r e"
    using emit_last [OF refl refl, where s = s3 and i = None and env = env
        and e = "session_closed_event (sx_opening s) r (totals (sx_units s3)) source (lv_now env (sx_turn s2) 1)"]
    unfolding announced_def closing_event_def Let_def log e s6 s4 s3 by auto
  moreover have "source \<in> {UsageProviderReported, UsageOxyMeasured}" by (simp add: source_def)
  ultimately show ?thesis unfolding whole using s6 e by (simp add: ended_def)
qed

definition ending_inv :: "('c, 'd, 'u) live_env \<Rightarrow> 'u session \<Rightarrow> bool" where
  "ending_inv env s \<longleftrightarrow> (if sx_closed s then ended env s else unsettled s)"

lemma unsettled_updates [simp]:
  "unsettled (emit env e i s) = unsettled s" "unsettled (s\<lparr>sx_seen := a\<rparr>) = unsettled s" "unsettled (s\<lparr>sx_sent := x\<rparr>) = unsettled s" "unsettled (s\<lparr>sx_sentAt := ns\<rparr>) = unsettled s"
  by (simp_all add: unsettled_def)

lemma move_ending: "session_move env s s' \<Longrightarrow> ending_inv env s \<Longrightarrow> ending_inv env s'"
  by (induction rule: session_move.induct)
    (auto simp: ending_inv_def accepted_def intro!: finish_open_ends, auto simp: unsettled_def take_event_def resume_def
      connect_def count_units_def session_markOutput_def detach_or Let_def split: option.splits if_splits)

lemma run_ending: "ending_inv env (session_run env c q p sp k inputs)"
  by (rule moves_invariant [where P = "ending_inv env", OF run_moves _ move_ending]) (simp_all add: ending_inv_def unsettled_def)

lemma closed_stays: "sx_closed s \<Longrightarrow> fold (session_step env) inputs s = s"
  by (induction inputs) (simp_all add: session_step_def)

section \<open>The timers\<close>

definition timers_inv :: "'u session \<Rightarrow> bool" where
  "timers_inv s \<longleftrightarrow> sx_closed s \<or>
     sx_resumeTimer s = (if sx_attached s = None then Some (rcf_ResumeWindow (sx_config s)) else None)"

lemma timers_inv_detach: "timers_inv s \<Longrightarrow> timers_inv (detach c k s)"
  by (auto simp: timers_inv_def detach_def Let_def)

lemma timers_inv_write: "timers_inv s \<Longrightarrow> timers_inv (write_frame env b s)"
  by (auto simp: timers_inv_def write_frame_def detach_def Let_def split: option.splits)

lemma timers_inv_emit: "timers_inv s \<Longrightarrow> timers_inv (emit env e i s)"
  by (auto simp: emit_def Let_def split: option.splits intro!: timers_inv_write) (auto simp: timers_inv_def)

lemma timers_inv_fold: "timers_inv s \<Longrightarrow> timers_inv (fold (write_frame env) bs s)"
  by (induction bs arbitrary: s) (simp_all add: timers_inv_write)

lemma timers_inv_connect: "timers_inv (connect ws s)"
  by (simp add: timers_inv_def)

lemmas timers_inv_ops = timers_inv_detach timers_inv_write timers_inv_emit timers_inv_fold timers_inv_connect

lemma timers_inv_updates [simp]:
  "timers_inv (s\<lparr>sx_seen := a\<rparr>) = timers_inv s" "timers_inv (s\<lparr>sx_inputBytes := n\<rparr>) = timers_inv s"
  "timers_inv (s\<lparr>sx_outputBytes := n\<rparr>) = timers_inv s" "timers_inv (s\<lparr>sx_responses := n\<rparr>) = timers_inv s"
  "timers_inv (s\<lparr>sx_idle := d\<rparr>) = timers_inv s" "timers_inv (s\<lparr>sx_expiry := d\<rparr>) = timers_inv s"
  "timers_inv (s\<lparr>sx_turn := t\<rparr>) = timers_inv s" "timers_inv (s\<lparr>sx_sent := x\<rparr>) = timers_inv s" "timers_inv (s\<lparr>sx_sentAt := ns\<rparr>) = timers_inv s"
  "timers_inv (s\<lparr>sx_taken := es\<rparr>) = timers_inv s" "timers_inv (count_units qs s) = timers_inv s"
  "timers_inv (session_markOutput env s) = timers_inv s"
  by (simp_all add: timers_inv_def)

lemma move_timers: "session_move env s s' \<Longrightarrow> timers_inv s \<Longrightarrow> timers_inv s'"
proof (induction rule: session_move.induct)
  case (Ends s reason failure i code)
  then show ?case by (simp add: timers_inv_def)
next
  case (Breaks s c s' err reason failure i code)
  then show ?case by (simp add: timers_inv_def)
qed (auto simp: accepted_def take_event_def resume_def detach_or Let_def intro!: timers_inv_ops split: option.splits)

definition armed :: "'u session \<Rightarrow> bool" where
  "armed s \<longleftrightarrow> sx_closed s \<or>
     sx_expiry s = Some (rsl_MaxDurationMs (rsr_Limits (sx_request s)) * millisecond) \<and>
     sx_idle s = Some (rsl_IdleTimeoutMs (rsr_Limits (sx_request s)) * millisecond)"

lemma move_armed: "session_move env s s' \<Longrightarrow> armed s \<Longrightarrow> armed s'"
proof (induction rule: session_move.induct)
  case (Ends s reason failure i code)
  then show ?case by (simp add: armed_def)
next
  case (Breaks s c s' err reason failure i code)
  then show ?case by (simp add: armed_def)
qed (auto simp: armed_def accepted_def take_event_def resume_def connect_def session_markOutput_def detach_or Let_def
    split: option.splits if_splits)

lemma run_armed: "armed (session_run env c q p sp k inputs)"
  unfolding session_run_def
proof (rule moves_invariant [where P = armed, OF steps_moves _ move_armed])
  show "armed (session_start env c q p sp k)"
    by (auto simp: session_start_def Let_def session_new_def [symmetric] armed_def session_finish_def)
qed

lemma run_timers: "timers_inv (session_run env c q p sp k inputs)"
  by (rule moves_invariant [where P = timers_inv, OF run_moves _ move_timers]) (simp_all add: timers_inv_def)

section \<open>Commands\<close>

text \<open>
  A command sent when \<open>n\<close> events had been numbered was acknowledged first: the last of these events, the one numbered
  right before the send, is its \<open>command.accepted\<close>; or that event, as the next one, had no encoding.
\<close>

definition acknowledged :: "('c, 'd, 'u) live_env \<Rightarrow> 'u session \<Rightarrow> realtime_command \<Rightarrow> nat \<Rightarrow> bool" where
  "acknowledged env s c n \<longleftrightarrow>
     (let ack = (\<lambda>k. Stamp \<lparr>rh_SchemaVersion = RealtimeSchemaVersion, rh_RequestID = session_id s, rh_Sequence = k,
                            rh_CommandID = Some (rc_CommandID c)\<rparr> (CommandAcceptedEvent False))
      in n \<le> length (sx_log s) \<and>
         (if 0 < n \<and> fst (sx_log s ! (n - 1)) = ack (int (n - 1)) then True else lv_encode env (ack (int n)) = None))"

definition sendable :: "'u session \<Rightarrow> realtime_command \<Rightarrow> bool" where
  "sendable s c \<longleftrightarrow>
     validateRealtimeCommand c (session_id s) = None \<and> CommandType (rc_Body c) \<noteq> ''session.resume'' \<and>
     rc_Body c \<noteq> SessionClose \<and> (updates_transcription (rc_Body c) \<longrightarrow> sx_public s)"

definition commands_inv :: "('c, 'd, 'u) live_env \<Rightarrow> 'u session \<Rightarrow> bool" where
  "commands_inv env s \<longleftrightarrow>
     distinct (map (rc_CommandID \<circ> fst) (sx_sent s)) \<and> (\<forall>x \<in> set (sx_sent s). rc_CommandID (fst x) \<in> set (sx_seen s)) \<and>
     (\<forall>x \<in> set (sx_sent s). sendable s (fst x)) \<and> list_all2 (acknowledged env s) (map fst (sx_sent s)) (sx_sentAt s) \<and>
     (\<forall>x \<in> set (if sx_closed s then butlast (sx_sent s) else sx_sent s). answered (snd x))"

text \<open>The entry of the log that an event makes, none if it has no encoding.\<close>

definition log_entry :: "('c, 'd, 'u) live_env \<Rightarrow> realtime_server_event \<Rightarrow> string option \<Rightarrow> 'u session \<Rightarrow> (stamped_event \<times> string) list" where
  "log_entry env event commandID s =
     (let stamped = Stamp \<lparr>rh_SchemaVersion = RealtimeSchemaVersion, rh_RequestID = session_id s,
                           rh_Sequence = sx_sequence s, rh_CommandID = commandID\<rparr>
            (if sx_public s then PublicRealtimeEvent event else event)
      in case lv_encode env stamped of None \<Rightarrow> [] | Some b \<Rightarrow> [(stamped, b)])"

lemma emit_log: "sx_log (emit env e i s) = sx_log s @ log_entry env e i s"
  by (simp add: emit_def log_entry_def Let_def split: option.splits)

lemma log_emit_prefix: "prefix (sx_log s) (sx_log (emit env e i s))"
  by (simp add: emit_log)

lemma log_finish_open_prefix: "prefix (sx_log s) (sx_log (finish_open env r f i k s))"
  by (cases f) (simp_all add: finish_open_def Let_def emit_log)

lemma log_take_event: "sx_log t = sx_log s \<Longrightarrow> prefix (sx_log s) (sx_log (take_event env e i t))"
  using log_emit_prefix [of "t\<lparr>sx_taken := sx_taken t @ [e]\<rparr>" env e i] by (simp add: take_event_def)

lemmas log_emit = log_emit_prefix [THEN set_mono_prefix]
lemmas log_finish_open = log_finish_open_prefix [THEN set_mono_prefix]

lemma acknowledged_mono:
  assumes "acknowledged env s c n" and "prefix (sx_log s) (sx_log s')" and "sx_request s' = sx_request s"
  shows "acknowledged env s' c n"
proof -
  obtain new where "sx_log s' = sx_log s @ new" using assms(2) by (auto simp: prefix_def)
  with assms(1,3) show ?thesis by (auto simp: acknowledged_def session_id_def Let_def nth_append split: if_splits)
qed

lemma sendable_mono: "sendable s c \<Longrightarrow> sx_request s' = sx_request s \<Longrightarrow> sx_public s' = sx_public s \<Longrightarrow> sendable s' c"
  by (simp add: sendable_def session_id_def)

lemma commands_inv_mono:
  assumes "commands_inv env s" and "prefix (sx_log s) (sx_log s')" and "sx_request s' = sx_request s" and "sx_public s' = sx_public s"
    and "sx_sent s' = sx_sent s" and "sx_sentAt s' = sx_sentAt s" and "set (sx_seen s) \<subseteq> set (sx_seen s')"
    and "sx_closed s \<longrightarrow> sx_closed s'"
  shows "commands_inv env s'"
proof -
  have "list_all2 (acknowledged env s') (map fst (sx_sent s)) (sx_sentAt s)"
    by (rule list_all2_mono [where P = "acknowledged env s"])
      (use assms(1) acknowledged_mono [OF _ assms(2,3)] in \<open>auto simp: commands_inv_def\<close>)
  with assms sendable_mono [OF _ assms(3,4)] show ?thesis unfolding commands_inv_def by (auto dest: in_set_butlastD split: if_splits)
qed

lemma accepted_acknowledged:
  "stream_inv env s \<Longrightarrow> acknowledged env (accepted env c s) c (length (sx_log (accepted env c s)))"
  by (auto simp: acknowledged_def stream_inv_def accepted_def emit_def Let_def PublicRealtimeEvent_def session_id_def nth_append
      split: option.splits)

lemma commands_inv_sends:
  assumes "commands_inv env s" and "stream_inv env s" and "\<not> sx_closed s" and "acceptable c s" and "rc_Body c \<noteq> SessionClose"
    and "sx_sent s' = sx_sent s @ [(c, answer)]" and "sx_sentAt s' = sx_sentAt s @ [length (sx_log (accepted env c s))]"
    and "prefix (sx_log (accepted env c s)) (sx_log s')" and "sx_request s' = sx_request s" and "sx_public s' = sx_public s"
    and "sx_seen s' = rc_CommandID c # sx_seen s" and "sx_closed s' \<or> answered answer"
  shows "commands_inv env s'"
proof -
  have seen: "rc_CommandID c \<notin> set (sx_seen s)" using assms(4) by (simp add: acceptable_def)
  have "prefix (sx_log s) (sx_log (accepted env c s))"
    using log_emit_prefix [of "s\<lparr>sx_seen := rc_CommandID c # sx_seen s\<rparr>" env] by (simp add: accepted_def)
  then have log: "prefix (sx_log s) (sx_log s')" using assms(8) by (rule prefix_order.order_trans)
  have "acknowledged env s' c (length (sx_log (accepted env c s)))"
    by (rule acknowledged_mono [OF accepted_acknowledged [OF assms(2)] assms(8)]) (simp add: assms(9) accepted_def)
  moreover have "list_all2 (acknowledged env s') (map fst (sx_sent s)) (sx_sentAt s)"
    by (rule list_all2_mono [where P = "acknowledged env s"])
      (use assms(1) acknowledged_mono [OF _ log assms(9)] in \<open>auto simp: commands_inv_def\<close>)
  ultimately have "list_all2 (acknowledged env s') (map fst (sx_sent s')) (sx_sentAt s')"
    unfolding assms(6,7) by (simp add: list_all2_appendI)
  moreover have "sendable s' c" using assms(4,5,9,10) by (simp add: sendable_def acceptable_def session_id_def)
  moreover have "\<forall>x \<in> set (sx_sent s). sendable s' (fst x)"
    using assms(1) sendable_mono [OF _ assms(9,10)] by (auto simp: commands_inv_def)
  ultimately show ?thesis using assms(1,3,12) seen unfolding commands_inv_def assms(6,7,11) by (auto simp: comp_def)
qed

lemma move_commands: "session_move env s s' \<Longrightarrow> stream_inv env s \<Longrightarrow> commands_inv env s \<Longrightarrow> commands_inv env s'"
proof (induction rule: session_move.induct)
  case (Sends s c s' answer)
  then show ?case by (intro commands_inv_sends [OF Sends(7,6,1,2,3), of _ answer]) (auto simp: accepted_def)
next
  case (Breaks s c s' err reason failure i code)
  have "prefix (sx_log (accepted env c s)) (sx_log (finish_open env reason failure i code
      (s'\<lparr>sx_sent := sx_sent s @ [(c, Some err)], sx_sentAt := sx_sentAt s @ [length (sx_log s')]\<rparr>)))"
    using log_finish_open_prefix [of "s'\<lparr>sx_sent := sx_sent s @ [(c, Some err)], sx_sentAt := sx_sentAt s @ [length (sx_log s')]\<rparr>"
        env reason failure i code] Breaks(4) by simp
  then show ?case using Breaks by (intro commands_inv_sends [OF Breaks(7,6,1,2,3), of _ "Some err"]) (auto simp: accepted_def)
next
  case (Ends s reason failure i code)
  from Ends(3) log_finish_open_prefix show ?case by (rule commands_inv_mono) simp_all
next
  case (Accepts s c)
  from Accepts(4) show ?case
    by (rule commands_inv_mono) (use log_emit_prefix [of "s\<lparr>sx_seen := rc_CommandID c # sx_seen s\<rparr>" env] in \<open>auto simp: accepted_def\<close>)
next
  case (Responds s r i)
  from Responds(4) show ?case
    by (rule commands_inv_mono) (rule log_take_event, simp_all add: take_event_def)
next
  case (Resumes s a)
  let ?t = "\<lambda>missed. fold (write_frame env) missed
    (connect (ac_ws a) (case sx_attached s of None \<Rightarrow> s | Some conn \<Rightarrow> detach conn StatusGoingAway s))"
  have "sx_log (?t missed) = sx_log s" for missed by (simp add: connect_def split: option.splits)
  then have "prefix (sx_log s) (sx_log (fst (resume env a s)))"
    using log_emit_prefix [of "?t missed" env for missed] by (simp add: resume_def Let_def split: option.splits)
  from Resumes(3) this show ?case
    by (rule commands_inv_mono) (auto simp: resume_def connect_def detach_or Let_def split: option.splits)
next
  case (Speaks s e a b k d data i)
  from Speaks(5) show ?case
    by (rule commands_inv_mono) (rule log_take_event, simp_all add: take_event_def session_markOutput_def)
next
  case (Relays s e s' i)
  from Relays(5) show ?case
    by (rule commands_inv_mono)
      (rule log_take_event, use Relays(3) in \<open>auto simp: take_event_def session_markOutput_def split: if_splits\<close>)
next
  case (Says s e i)
  from Says(4) log_emit_prefix show ?case by (rule commands_inv_mono) simp_all
qed (erule commands_inv_mono; simp add: count_units_def)+

lemma run_commands: "commands_inv env (session_run env c q p sp k inputs)"
proof -
  have "stream_inv env (session_run env c q p sp k inputs) \<and> commands_inv env (session_run env c q p sp k inputs)"
    by (rule moves_invariant [where P = "\<lambda>s. stream_inv env s \<and> commands_inv env s", OF run_moves])
      (simp_all add: move_stream move_commands new_stream, simp add: commands_inv_def)
  then show ?thesis ..
qed

section \<open>The signed ceilings\<close>

fun audio_out :: "realtime_server_event \<Rightarrow> int" where
  "audio_out (OutputAudioDeltaEvent _ _ _ _ data) = DecodedRealtimeAudioBytes data"
| "audio_out _ = 0"

fun starts_response :: "realtime_server_event \<Rightarrow> bool" where
  "starts_response (ResponseCreatedEvent _) = True"
| "starts_response _ = False"

text \<open>The audio of the commands the provider took.\<close>

definition audio_in :: "(realtime_command \<times> go_error option) list \<Rightarrow> int" where
  "audio_in sent = sum_list (map (\<lambda>(c, answer). if answer = None then commandInputAudio (rc_Body c) else 0) sent)"

definition responses_in :: "(stamped_event \<times> string) list \<Rightarrow> int" where
  "responses_in events = int (length (filter (\<lambda>x. starts_response (se_Event (fst x))) events))"

definition ceilings_inv :: "'u session \<Rightarrow> bool" where
  "ceilings_inv s \<longleftrightarrow>
     (let l = rsr_Limits (sx_request s)
      in sx_inputBytes s = audio_in (sx_sent s) \<and> sx_inputBytes s \<le> max 0 (rsl_MaxInputAudioBytes l) \<and>
         sx_outputBytes s = sum_list (map audio_out (sx_taken s)) \<and> sx_outputBytes s \<le> max 0 (rsl_MaxOutputAudioBytes l) \<and>
         sx_responses s \<le> max 0 (rsl_MaxResponses l) \<and> responses_in (sx_log s) \<le> sx_responses s)"

lemma plain_event_simps: "plain_event e \<Longrightarrow> audio_out e = 0 \<and> \<not> starts_response e \<and> \<not> starts_response (PublicRealtimeEvent e)"
  by (cases e) (simp_all add: PublicRealtimeEvent_def)

lemma responses_emit:
  "responses_in (sx_log (emit env e i s)) \<le> responses_in (sx_log s) + (if plain_event e then 0 else 1)"
  by (auto simp: emit_def Let_def responses_in_def Stamp_def dest: plain_event_simps split: option.splits)

lemma responses_audio: "responses_in (sx_log (emit env (OutputAudioDeltaEvent a b k d data) i s)) \<le> responses_in (sx_log s)"
  by (auto simp: emit_def Let_def responses_in_def Stamp_def PublicRealtimeEvent_def split: option.splits)

lemma responses_plain: "plain_event e \<Longrightarrow> responses_in (sx_log (emit env e i s)) \<le> responses_in (sx_log s)"
  using responses_emit [of env e i s] by simp

lemma responses_finish_open: "responses_in (sx_log (finish_open env r f i k s)) \<le> responses_in (sx_log s)"
  by (auto simp: finish_open_def Let_def session_closed_event_def intro!: order_trans [OF responses_plain] responses_plain
      split: option.splits)

lemma ceilings_inv_mono:
  "ceilings_inv s \<Longrightarrow> sx_request s' = sx_request s \<Longrightarrow> sx_inputBytes s' = sx_inputBytes s \<Longrightarrow> sx_sent s' = sx_sent s \<Longrightarrow>
   sx_outputBytes s' = sx_outputBytes s \<Longrightarrow> sx_responses s' = sx_responses s \<Longrightarrow>
   sum_list (map audio_out (sx_taken s')) = sum_list (map audio_out (sx_taken s)) \<Longrightarrow>
   responses_in (sx_log s') \<le> responses_in (sx_log s) \<Longrightarrow> ceilings_inv s'"
  by (auto simp: ceilings_inv_def Let_def)

lemma ceilings_emit:
  assumes "ceilings_inv s0" and "sx_request s = sx_request s0" and "sx_inputBytes s = sx_inputBytes s0" and "sx_sent s = sx_sent s0"
    and "sx_outputBytes s = sx_outputBytes s0" and "sx_responses s = sx_responses s0" and "sx_log s = sx_log s0"
    and "sum_list (map audio_out (sx_taken s)) = sum_list (map audio_out (sx_taken s0))" and "plain_event e"
  shows "ceilings_inv (emit env e i s)"
  using assms(1) by (rule ceilings_inv_mono) (use assms responses_plain [OF assms(9), of env i s] in simp_all)

lemma move_ceilings: "session_move env s s' \<Longrightarrow> ceilings_inv s \<Longrightarrow> ceilings_inv s'"
proof (induction rule: session_move.induct)
  case (Says s e i)
  then show ?case by (intro ceilings_emit [where s = s and ?s0.0 = s]) simp_all
next
  case (Accepts s c)
  then show ?case by (simp add: accepted_def) (intro ceilings_emit [where ?s0.0 = s]; simp)
next
  case (Sends s c s' answer)
  have "responses_in (sx_log s') \<le> responses_in (sx_log s)" unfolding Sends(4) accepted_def
    using responses_plain [of "CommandAcceptedEvent False" env "Some (rc_CommandID c)" "s\<lparr>sx_seen := rc_CommandID c # sx_seen s\<rparr>"] by simp
  then show ?case using Sends by (auto simp: ceilings_inv_def audio_in_def accepted_def acceptable_def Let_def)
next
  case (Breaks s c s' err reason failure i code)
  let ?s = "s'\<lparr>sx_sent := sx_sent s @ [(c, Some err)], sx_sentAt := sx_sentAt s @ [length (sx_log s')]\<rparr>"
  have "responses_in (sx_log ?s) \<le> responses_in (sx_log s)" unfolding Breaks(4) accepted_def
    using responses_plain [of "CommandAcceptedEvent False" env "Some (rc_CommandID c)" "s\<lparr>sx_seen := rc_CommandID c # sx_seen s\<rparr>"] by simp
  then have "ceilings_inv ?s" using Breaks by (auto simp: ceilings_inv_def audio_in_def accepted_def Let_def)
  then show ?case
    by (rule ceilings_inv_mono) (use responses_finish_open [of env reason failure i code ?s] in simp_all)
next
  case (Responds s r i)
  have "responses_in (sx_log (take_event env (ResponseCreatedEvent r) i (s\<lparr>sx_responses := sx_responses s + 1\<rparr>))) \<le> responses_in (sx_log s) + 1"
    unfolding take_event_def by (rule order_trans [OF responses_emit]) simp
  then show ?case using Responds by (auto simp: ceilings_inv_def take_event_def Let_def)
next
  case (Speaks s e a b k d data i)
  let ?s = "session_markOutput env (s\<lparr>sx_outputBytes := sx_outputBytes s + DecodedRealtimeAudioBytes data\<rparr>)"
  have "responses_in (sx_log (take_event env e i ?s)) \<le> responses_in (sx_log s)"
    unfolding take_event_def Speaks(2) by (rule order_trans [OF responses_audio]) (simp add: session_markOutput_def)
  then show ?case using Speaks by (auto simp: ceilings_inv_def take_event_def session_markOutput_def Let_def)
next
  case (Relays s e s' i)
  then show ?case unfolding take_event_def
    by (intro ceilings_emit [where ?s0.0 = s]) (auto simp: session_markOutput_def plain_event_simps)
next
  case (Resumes s a)
  show ?case
  proof (cases "replay_after (ac_AfterSequence a) (sx_sequence s) (sx_replay s)")
    case None
    then show ?thesis using Resumes by (simp add: resume_def)
  next
    case (Some missed)
    then show ?thesis using Resumes
      by (simp add: resume_def detach_or Let_def) (auto intro!: ceilings_emit [where ?s0.0 = s] simp: connect_def)
  qed
next
  case (Ends s reason failure i code)
  from Ends(2) show ?case
    by (rule ceilings_inv_mono) (simp_all add: responses_finish_open)
qed (erule ceilings_inv_mono; simp add: count_units_def)+

lemma run_ceilings: "ceilings_inv (session_run env c q p sp k inputs)"
  by (rule moves_invariant [where P = ceilings_inv, OF run_moves _ move_ceilings])
    (simp_all add: ceilings_inv_def audio_in_def responses_in_def Let_def)

section \<open>The frames\<close>

definition sent_frame :: "('c, 'd, 'u) live_env \<Rightarrow> 'u session \<Rightarrow> string \<Rightarrow> bool" where
  "sent_frame env s b \<longleftrightarrow>
     b \<in> set (map snd (sx_log s)) \<or>
     \<not> sx_public s \<and> (\<exists>x \<in> set (sx_settlements s). \<exists>r. ss_Report (snd (snd x)) = Some r \<and> lv_encodeReport env r = Some b)"

definition frames_inv :: "('c, 'd, 'u) live_env \<Rightarrow> 'u session \<Rightarrow> bool" where
  "frames_inv env s \<longleftrightarrow> stream_inv env s \<and> list_all (\<lambda>w. sent_frame env s (fst (snd w))) (sx_writes s)"

lemma write_frame_writes:
  "sx_writes (write_frame env b s) =
     sx_writes s @ (case sx_attached s of None \<Rightarrow> [] | Some c \<Rightarrow> [(c, b, lv_written env (length (sx_writes s)))])"
  by (simp add: write_frame_def Let_def split: option.splits)

lemma emit_writes:
  "set (sx_writes (emit env e i s)) \<subseteq> set (sx_writes s) \<union> {w. fst (snd w) \<in> set (map snd (sx_log (emit env e i s)))}"
  by (auto simp: emit_def Let_def write_frame_writes split: option.splits)

lemma fold_writes:
  "set (sx_writes (fold (write_frame env) bs s)) \<subseteq> set (sx_writes s) \<union> {w. fst (snd w) \<in> set bs}"
proof (induction bs arbitrary: s)
  case (Cons b bs)
  from Cons.IH [of "write_frame env b s"] show ?case by (auto simp: write_frame_writes split: option.splits)
qed simp

lemma hang_up_writes:
  "set (sx_writes (hang_up env st k s)) \<subseteq> set (sx_writes s) \<union>
     {w. \<not> sx_public s \<and> (\<exists>r. ss_Report st = Some r \<and> lv_encodeReport env r = Some (fst (snd w)))}"
  by (auto simp: hang_up_def Let_def write_frame_writes split: option.splits if_splits)

lemma sent_frame_mono:
  "sent_frame env s b \<Longrightarrow> sx_public s' = sx_public s \<Longrightarrow> set (sx_log s) \<subseteq> set (sx_log s') \<Longrightarrow>
   set (sx_settlements s) \<subseteq> set (sx_settlements s') \<Longrightarrow> sent_frame env s' b"
  unfolding sent_frame_def set_map by blast

lemma frames_inv_writes:
  "frames_inv env s \<Longrightarrow> stream_inv env s' \<Longrightarrow> sx_public s' = sx_public s \<Longrightarrow> set (sx_log s) \<subseteq> set (sx_log s') \<Longrightarrow>
   set (sx_settlements s) \<subseteq> set (sx_settlements s') \<Longrightarrow>
   set (sx_writes s') \<subseteq> set (sx_writes s) \<union> {w. sent_frame env s' (fst (snd w))} \<Longrightarrow> frames_inv env s'"
  unfolding frames_inv_def list_all_iff using sent_frame_mono [of env s _ s'] by blast

lemma frames_inv_emit: "frames_inv env s \<Longrightarrow> frames_inv env (emit env e i s)"
  using emit_writes [of env e i s]
  by (intro frames_inv_writes [where s = s and s' = "emit env e i s"])
    (auto simp: frames_inv_def stream_inv_emit sent_frame_def intro!: subsetD [OF log_emit])

lemma frames_inv_same:
  "frames_inv env s \<Longrightarrow> stream_inv env s' \<Longrightarrow> sx_public s' = sx_public s \<Longrightarrow> sx_log s' = sx_log s \<Longrightarrow>
   set (sx_settlements s) \<subseteq> set (sx_settlements s') \<Longrightarrow> sx_writes s' = sx_writes s \<Longrightarrow> frames_inv env s'"
  by (erule frames_inv_writes) auto

lemma frames_inv_finish_open: "frames_inv env s \<Longrightarrow> frames_inv env (finish_open env r f i k s)"
proof -
  assume s: "frames_inv env s"
  let ?s1 = "s\<lparr>sx_closed := True, sx_idle := None, sx_expiry := None, sx_resumeTimer := None\<rparr>"
  have 1: "frames_inv env ?s1" by (rule frames_inv_same [OF s]) (use s in \<open>simp_all add: frames_inv_def\<close>)
  have 2: "frames_inv env (case f of None \<Rightarrow> ?s1 | Some f \<Rightarrow> emit env (ErrorEvent True f) i ?s1)"
    using 1 frames_inv_emit by (auto split: option.splits)
  have 3: "frames_inv env (count_units qs t)" if "frames_inv env t" for qs and t :: "'c session"
    by (rule frames_inv_same [OF that]) (use that in \<open>simp_all add: frames_inv_def\<close>)
  have 4: "frames_inv env (if b then t\<lparr>sx_upstreamCloses := Suc (sx_upstreamCloses t)\<rparr> else t)" if "frames_inv env t" for b and t :: "'c session"
    by (rule frames_inv_same [OF that]) (use that in \<open>simp_all add: frames_inv_def\<close>)
  have 5: "frames_inv env (hang_up env st k (t\<lparr>sx_settlements := sx_settlements t @ [(r, e, st)], sx_publicSettlements := ps\<rparr>))"
    if "frames_inv env t" for e st ps and t :: "'c session"
    using hang_up_writes [of env st k "t\<lparr>sx_settlements := sx_settlements t @ [(r, e, st)], sx_publicSettlements := ps\<rparr>"] that
    by (intro frames_inv_writes [OF that]) (auto simp: frames_inv_def sent_frame_def)
  show ?thesis unfolding finish_open_def Let_def by (intro 5 4 frames_inv_emit 3 2)
qed

lemma missed_logged:
  assumes "stream_inv env s" and "replay_after n (sx_sequence s) (sx_replay s) = Some missed"
  shows "missed = drop (nat (n + 1)) (map snd (sx_log s))" and "-1 \<le> n" and "n < sx_sequence s"
  using assms replay_after_log [OF pushed_ok(1), of n "map snd (sx_log s)" "rcf_ReplayEvents (sx_config s)" "rcf_ReplayBytes (sx_config s)"]
  by (auto simp: stream_inv_def split: if_splits)

lemma frames_inv_resume:
  assumes "frames_inv env s"
  shows "frames_inv env (fst (resume env a s))"
proof (cases "sx_closed s \<or> replay_after (ac_AfterSequence a) (sx_sequence s) (sx_replay s) = None")
  case False
  then obtain missed where m: "replay_after (ac_AfterSequence a) (sx_sequence s) (sx_replay s) = Some missed" by auto
  have "set missed \<subseteq> set (map snd (sx_log s))"
    using missed_logged(1) [OF _ m] assms set_drop_subset by (fastforce simp: frames_inv_def)
  let ?s1 = "connect (ac_ws a) (if sx_attached s = None then s else detach (the (sx_attached s)) StatusGoingAway s)"
  have w: "sx_writes ?s1 = sx_writes s" by (simp add: connect_def)
  have "frames_inv env (fold (write_frame env) missed ?s1)"
    using fold_writes [of env missed ?s1] \<open>set missed \<subseteq> _\<close> assms unfolding w
    by (intro frames_inv_writes [OF assms]) (auto simp: frames_inv_def sent_frame_def connect_def)
  from frames_inv_emit [OF this] show ?thesis using False m by (simp add: resume_def detach_or Let_def)
qed (use assms in \<open>auto simp: resume_def split: option.splits\<close>)

lemma frames_inv_updates [simp]:
  "frames_inv env (s\<lparr>sx_seen := a\<rparr>) = frames_inv env s"
  "frames_inv env (s\<lparr>sx_inputBytes := n\<rparr>) = frames_inv env s"
  "frames_inv env (s\<lparr>sx_outputBytes := n\<rparr>) = frames_inv env s"
  "frames_inv env (s\<lparr>sx_responses := n\<rparr>) = frames_inv env s"
  "frames_inv env (s\<lparr>sx_idle := d\<rparr>) = frames_inv env s"
  "frames_inv env (s\<lparr>sx_expiry := d\<rparr>) = frames_inv env s"
  "frames_inv env (s\<lparr>sx_turn := t\<rparr>) = frames_inv env s"
  "frames_inv env (s\<lparr>sx_taken := es\<rparr>) = frames_inv env s"
  "frames_inv env (count_units qs s) = frames_inv env s" "frames_inv env (detach conn k s) = frames_inv env s"
  "frames_inv env (session_markOutput env s) = frames_inv env s"
  by (simp_all add: frames_inv_def sent_frame_def) (simp_all add: session_markOutput_def)

lemma move_frames: "session_move env s s' \<Longrightarrow> frames_inv env s \<Longrightarrow> frames_inv env s'"
proof (induction rule: session_move.induct)
  case (Sends s c s' answer)
  have "frames_inv env s'" unfolding Sends(4) accepted_def
    by (rule frames_inv_emit, rule frames_inv_same [OF Sends(6)]) (use Sends(6) in \<open>simp_all add: frames_inv_def\<close>)
  then show ?case by (rule frames_inv_same) (use \<open>frames_inv env s'\<close> in \<open>simp_all add: frames_inv_def\<close>)
next
  case (Breaks s c s' err reason failure i code)
  have "frames_inv env s'" unfolding Breaks(4) accepted_def
    by (rule frames_inv_emit, rule frames_inv_same [OF Breaks(6)]) (use Breaks(6) in \<open>simp_all add: frames_inv_def\<close>)
  then show ?case
    by (intro frames_inv_finish_open) (rule frames_inv_same, use \<open>frames_inv env s'\<close> in \<open>simp_all add: frames_inv_def\<close>)
qed (auto simp: accepted_def take_event_def intro!: frames_inv_emit frames_inv_resume frames_inv_finish_open)

lemma run_frames: "frames_inv env (session_run env c q p sp k inputs)"
  by (rule moves_invariant [where P = "frames_inv env", OF run_moves _ move_frames]) (simp_all add: frames_inv_def new_stream)

lemma fold_write_gone: "sx_attached s = None \<Longrightarrow> fold (write_frame env) bs s = s"
  by (induction bs) (simp_all add: write_frame_def)

text \<open>
  What reached a connection of the frames \<open>bs\<close> by the writes \<open>ws\<close>: they were written to it in order, each write but
  the last succeeded; and either the last one failed, which detached the connection, or every frame was written.
\<close>

definition delivered :: "nat \<Rightarrow> nat option \<Rightarrow> (nat \<times> string \<times> bool) list \<Rightarrow> string list \<Rightarrow> bool" where
  "delivered conn now ws bs \<longleftrightarrow>
     list_all (\<lambda>w. fst w = conn) ws \<and> prefix (map (fst \<circ> snd) ws) bs \<and> list_all (snd \<circ> snd) (butlast ws) \<and>
     (if now = None then ws \<noteq> [] \<and> \<not> snd (snd (last ws))
      else now = Some conn \<and> list_all (snd \<circ> snd) ws \<and> map (fst \<circ> snd) ws = bs)"

lemma delivered_Nil: "delivered conn (Some conn) [] []"
  by (simp add: delivered_def)

lemma delivered_step: "delivered conn now ws bs \<Longrightarrow> delivered conn now ((conn, b, True) # ws) (b # bs)"
  by (auto simp: delivered_def)

lemma delivered_failed: "delivered conn None [(conn, b, False)] (b # bs)"
  by (simp add: delivered_def)

lemma delivered_stop: "delivered conn None ws bs \<Longrightarrow> delivered conn None ws (bs @ cs)"
  by (auto simp: delivered_def prefix_def)

lemma delivered_append: "delivered conn (Some conn) ws bs \<Longrightarrow> delivered conn now vs cs \<Longrightarrow> delivered conn now (ws @ vs) (bs @ cs)"
  by (cases "now = None") (auto simp: delivered_def butlast_append list_all_iff dest: in_set_butlastD)

lemma fold_write_delivered:
  "sx_attached s = Some conn \<Longrightarrow>
   \<exists>ws. sx_writes (fold (write_frame env) bs s) = sx_writes s @ ws \<and> delivered conn (sx_attached (fold (write_frame env) bs s)) ws bs"
proof (induction bs arbitrary: s)
  case (Cons b bs)
  let ?s = "write_frame env b s" and ?ok = "lv_written env (length (sx_writes s))"
  have w: "sx_writes ?s = sx_writes s @ [(conn, b, ?ok)]" using Cons.prems by (simp add: write_frame_writes)
  show ?case
  proof (cases ?ok)
    case True
    then have "sx_attached ?s = Some conn" using Cons.prems by (simp add: write_frame_def Let_def)
    from Cons.IH [OF this] True w show ?thesis by (auto intro: delivered_step)
  next
    case False
    then have "sx_attached ?s = None" using Cons.prems by (simp add: write_frame_def detach_def Let_def)
    from fold_write_gone [OF this, of env bs] this False w show ?thesis by (simp add: delivered_failed)
  qed
qed (simp add: delivered_Nil)

lemma emit_delivered:
  assumes "sx_attached s = Some conn"
  shows "\<exists>ws. sx_writes (emit env e i s) = sx_writes s @ ws \<and>
    delivered conn (sx_attached (emit env e i s)) ws (map snd (log_entry env e i s))"
proof -
  define stamped where "stamped = Stamp \<lparr>rh_SchemaVersion = RealtimeSchemaVersion, rh_RequestID = session_id s,
    rh_Sequence = sx_sequence s, rh_CommandID = i\<rparr> (if sx_public s then PublicRealtimeEvent e else e)"
  show ?thesis
  proof (cases "lv_encode env stamped")
    case None
    then have "emit env e i s = s" "log_entry env e i s = []" by (simp_all only: emit_def log_entry_def Let_def stamped_def option.case)
    then show ?thesis using assms by (simp add: delivered_Nil)
  next
    case (Some b)
    let ?s = "s\<lparr>sx_replay := push (sx_sequence s) b (sx_replay s), sx_sequence := sx_sequence s + 1, sx_log := sx_log s @ [(stamped, b)]\<rparr>"
    have "emit env e i s = write_frame env b ?s" "log_entry env e i s = [(stamped, b)]"
      using Some by (simp_all only: emit_def log_entry_def Let_def stamped_def option.case)
    then show ?thesis using fold_write_delivered [of ?s conn env "[b]"] assms by simp
  qed
qed

lemma emit_detached: "sx_attached s = None \<Longrightarrow> sx_writes (emit env e i s) = sx_writes s \<and> sx_attached (emit env e i s) = None"
  by (simp add: emit_def write_frame_def Let_def split: option.splits)

lemma resume_delivers:
  assumes "\<not> sx_closed s" and m: "replay_after (ac_AfterSequence a) (sx_sequence s) (sx_replay s) = Some missed"
    and s': "s' = fst (resume env a s)"
    and new: "new = log_entry env (SessionResumedEvent (ac_AfterSequence a)) (Some (ac_CommandID a)) s"
  shows "sx_log s' = sx_log s @ new \<and>
    (\<exists>ws. sx_writes s' = sx_writes s @ ws \<and> delivered (ac_ws a) (sx_attached s') ws (missed @ map snd new))"
proof -
  let ?s1 = "connect (ac_ws a) (case sx_attached s of None \<Rightarrow> s | Some c \<Rightarrow> detach c StatusGoingAway s)"
  let ?s2 = "fold (write_frame env) missed ?s1"
  let ?e = "SessionResumedEvent (ac_AfterSequence a)" and ?i = "Some (ac_CommandID a)"
  have s: "s' = emit env ?e ?i ?s2" using assms by (simp add: resume_def Let_def)
  have s1: "sx_writes ?s1 = sx_writes s" "sx_log ?s1 = sx_log s" by (simp_all add: connect_def split: option.splits)
  have "session_id ?s2 = session_id s" "sx_sequence ?s2 = sx_sequence s" "sx_public ?s2 = sx_public s"
    by (simp_all add: connect_def session_id_def split: option.splits)
  then have entry: "log_entry env ?e ?i ?s2 = new" unfolding new log_entry_def by (simp only:)
  have sent: "sx_log s' = sx_log s @ new" unfolding s emit_log entry by (simp add: s1)
  obtain ws where ws: "sx_writes ?s2 = sx_writes s @ ws" "delivered (ac_ws a) (sx_attached ?s2) ws missed"
    using fold_write_delivered [of ?s1 "ac_ws a" env missed] unfolding s1 by auto
  show ?thesis
  proof (cases "sx_attached ?s2")
    case None
    with emit_detached [OF None, of env ?e ?i] ws sent show ?thesis unfolding s by (simp add: delivered_stop)
  next
    case (Some c)
    with ws(2) have c: "c = ac_ws a" by (simp add: delivered_def)
    from emit_delivered [OF Some [unfolded c], of env ?e ?i] ws sent Some c show ?thesis
      unfolding s entry by (auto intro: delivered_append)
  qed
qed

section \<open>The totals\<close>

definition amount :: "(usage_unit \<times> int) list \<Rightarrow> usage_unit \<Rightarrow> int" where
  "amount units u = (case map_of units u of Some n \<Rightarrow> n | None \<Rightarrow> 0)"

definition reported_amount :: "usage_unit \<Rightarrow> usage_quantity list \<Rightarrow> int" where
  "reported_amount u qs = sum_list (map uq_Quantity (filter (\<lambda>q. uq_Unit q = u) qs))"

lemma add_units_keys:
  "distinct (map fst units) \<Longrightarrow>
   distinct (map fst (add_units qs units)) \<and> set (map fst (add_units qs units)) = set (map fst units) \<union> set (map uq_Unit qs)"
proof (induction qs arbitrary: units)
  case (Cons q qs)
  let ?us = "AList.update (uq_Unit q) (int64 (amount units (uq_Unit q) + uq_Quantity q)) units"
  have "distinct (map fst ?us)" using Cons.prems by (rule AList.distinct_update)
  from Cons.IH [OF this] show ?case by (auto simp: add_units_def amount_def dom_update)
qed (simp add: add_units_def)

lemma reported_nonneg: "\<forall>q \<in> set qs. 0 \<le> uq_Quantity q \<Longrightarrow> 0 \<le> reported_amount u qs"
  by (auto simp: reported_amount_def intro!: sum_list_nonneg)

lemma reported_le: "\<forall>q \<in> set qs. 0 \<le> uq_Quantity q \<Longrightarrow> reported_amount u qs \<le> sum_list (map uq_Quantity qs)"
  by (induction qs) (auto simp: reported_amount_def)

lemma add_units_amount:
  "\<forall>q \<in> set qs. 0 \<le> uq_Quantity q \<Longrightarrow> \<forall>v. 0 \<le> amount units v \<Longrightarrow> \<forall>v. amount units v + reported_amount v qs \<le> max_int64 \<Longrightarrow>
   amount (add_units qs units) u = amount units u + reported_amount u qs"
proof (induction qs arbitrary: units)
  case (Cons q qs)
  let ?k = "uq_Unit q"
  let ?us = "AList.update ?k (int64 (amount units ?k + uq_Quantity q)) units"
  have rest: "0 \<le> reported_amount v qs" for v using Cons.prems(1) by (intro reported_nonneg) simp
  have head: "reported_amount v (q # qs) = (if v = ?k then uq_Quantity q else 0) + reported_amount v qs" for v
    by (simp add: reported_amount_def)
  have "0 \<le> amount units ?k" "0 \<le> uq_Quantity q" using Cons.prems by simp_all
  moreover have "amount units ?k + uq_Quantity q \<le> max_int64"
    using Cons.prems(3) [rule_format, of ?k] rest [of ?k] head [of ?k] by simp
  ultimately have "int64 (amount units ?k + uq_Quantity q) = amount units ?k + uq_Quantity q" by (intro int64_id) simp_all
  then have us: "amount ?us v = amount units v + (if v = ?k then uq_Quantity q else 0)" for v
    by (simp add: amount_def update_conv')
  have "amount (add_units qs ?us) u = amount ?us u + reported_amount u qs"
    by (rule Cons.IH) (use Cons.prems head us in \<open>auto simp: add.assoc\<close>)
  then show ?case by (simp add: add_units_def us head amount_def [symmetric])
qed (simp add: add_units_def reported_amount_def)

lemma set_totals: "set (totals units) = (\<lambda>(u, n). \<lparr>uq_Unit = u, uq_Quantity = n\<rparr>) ` set units"
  by (simp add: totals_def)

lemma totals_units: "map uq_Unit (totals units) = map fst (sort_key (\<lambda>(u, n). unit_text u) units)"
  by (simp add: totals_def comp_def case_prod_beta)

lemma distinct_totals: "distinct (map fst units) \<Longrightarrow> distinct (map uq_Unit (totals units))"
  unfolding totals_units by (simp add: distinct_map inj_on_def)

lemma totals_exact:
  assumes qs: "\<forall>q \<in> set qs. uq_Unit q \<in> set usageUnitValues \<and> 0 \<le> uq_Quantity q"
    and "sum_list (map uq_Quantity qs) \<le> max_int64"
  shows "check_units [] (totals (add_units qs [])) = None"
    and "list_all (\<lambda>t. uq_Quantity t = reported_amount (uq_Unit t) qs) (totals (add_units qs []))"
    and "set (map uq_Unit (totals (add_units qs []))) = set (map uq_Unit qs)"
proof -
  have keys: "distinct (map fst (add_units qs []))" "set (map fst (add_units qs [])) = set (map uq_Unit qs)"
    using add_units_keys [of "[]" qs] by simp_all
  have amount: "amount (add_units qs []) u = reported_amount u qs" for u
  proof -
    have "\<forall>v. amount [] v + reported_amount v qs \<le> max_int64"
      using order_trans [OF reported_le assms(2)] qs by (simp add: amount_def)
    with qs show ?thesis using add_units_amount [of qs "[]" u] by (simp add: amount_def)
  qed
  have entry: "n = reported_amount u qs" if "(u, n) \<in> set (add_units qs [])" for u n
    using amount [of u] that keys(1) by (simp add: amount_def)
  have nonneg: "0 \<le> reported_amount u qs" for u using qs by (intro reported_nonneg) simp
  show "list_all (\<lambda>t. uq_Quantity t = reported_amount (uq_Unit t) qs) (totals (add_units qs []))"
    using entry by (auto simp: list_all_iff set_totals)
  show units: "set (map uq_Unit (totals (add_units qs []))) = set (map uq_Unit qs)"
    using keys(2) unfolding totals_units by simp
  show "check_units [] (totals (add_units qs [])) = None"
    unfolding check_units_None
  proof (intro conjI ballI)
    fix t assume t: "t \<in> set (totals (add_units qs []))"
    have "uq_Unit t \<in> set (map uq_Unit qs)" unfolding units [symmetric] using t by simp
    with qs show "uq_Unit t \<in> set usageUnitValues" by auto
    from t obtain u n where "(u, n) \<in> set (add_units qs [])" "t = \<lparr>uq_Unit = u, uq_Quantity = n\<rparr>" by (auto simp: set_totals)
    with entry [of u n] nonneg [of u] show "0 \<le> uq_Quantity t" by simp
  qed (use distinct_totals [OF keys(1)] in simp_all)
qed

definition counted_inv :: "'u session \<Rightarrow> bool" where
  "counted_inv s \<longleftrightarrow> sx_units s = add_units (sx_reported s) []"

lemma counted_inv_simps [simp]:
  "counted_inv (emit env e i s) = counted_inv s" "counted_inv (detach c k s) = counted_inv s"
  "counted_inv (hang_up env st k s) = counted_inv s" "counted_inv (fold (write_frame env) bs s) = counted_inv s"
  by (simp_all add: counted_inv_def)

lemma counted_inv_count: "counted_inv s \<Longrightarrow> counted_inv (count_units qs s)"
  by (simp add: counted_inv_def count_units_def add_units_def)

lemma counted_inv_cong: "sx_units s' = sx_units s \<Longrightarrow> sx_reported s' = sx_reported s \<Longrightarrow> counted_inv s' = counted_inv s"
  by (simp add: counted_inv_def)

lemma counted_inv_finish_open: "counted_inv s \<Longrightarrow> counted_inv (finish_open env r f i k s)"
proof -
  assume s: "counted_inv s"
  let ?s1 = "s\<lparr>sx_closed := True, sx_idle := None, sx_expiry := None, sx_resumeTimer := None\<rparr>"
  let ?s2 = "case f of None \<Rightarrow> ?s1 | Some f \<Rightarrow> emit env (ErrorEvent True f) i ?s1"
  have "counted_inv ?s1" using s by (simp add: counted_inv_def)
  then have "counted_inv ?s2" by (simp split: option.splits)
  then have "counted_inv (count_units (slice (measured_units env ?s2)) ?s2)" by (rule counted_inv_count)
  then show ?thesis unfolding finish_open_def Let_def counted_inv_simps
    by (simp add: counted_inv_def split del: option.splits)
qed

lemma move_counted: "session_move env s s' \<Longrightarrow> counted_inv s \<Longrightarrow> counted_inv s'"
proof (induction rule: session_move.induct)
  case (Breaks s c s' err reason failure i code)
  then show ?case by (intro counted_inv_finish_open) (simp add: counted_inv_def accepted_def)
next
  case (Ends s reason failure i code)
  from Ends(2) show ?case by (rule counted_inv_finish_open)
next
  case (Counts s qs)
  from Counts(2) show ?case by (rule counted_inv_count)
qed (auto simp: accepted_def take_event_def resume_def connect_def
    session_markOutput_def detach_or Let_def counted_inv_def split: option.splits)

lemma run_counted: "counted_inv (session_run env c q p sp k inputs)"
  by (rule moves_invariant [where P = counted_inv, OF run_moves _ move_counted]) (simp_all add: counted_inv_def add_units_def)

section \<open>Properties\<close>

text \<open>
  C22: A session's events are one gapless sequence. Whatever happens, the events it has sent are numbered 0, 1, 2 and
  so on, name the session, and on a public session are public ones; the next number is the count of the events;
  and every frame ever written to a connection is one of these events, byte for byte, or the usage report of the
  settlement, which a public session never writes.
\<close>

theorem session_stream_is_gapless:
  "let s = session_run env config request public sp first inputs
   in sx_sequence s = int (length (sx_log s)) \<and>
      map (\<lambda>x. rh_Sequence (se_Header (fst x))) (sx_log s) = map int [0..<length (sx_log s)] \<and>
      list_all (\<lambda>(x, b). rh_RequestID (se_Header x) = at_RequestID (rsr_Attribution request) \<and> lv_encode env x = Some b \<and>
        (if public then PublicRealtimeEvent (se_Event x) = se_Event x else True)) (sx_log s) \<and>
      list_all (\<lambda>(conn, b, ok). b \<in> set (map snd (sx_log s)) \<or>
        (if public then False else case sx_settlements s of
           [(reason, e, st)] \<Rightarrow> Some b = Option.bind (ss_Report st) (lv_encodeReport env) | _ \<Rightarrow> False)) (sx_writes s)"
proof -
  let ?s = "session_run env config request public sp first inputs"
  have st: "stream_inv env ?s" by (rule run_stream)
  then have n: "list_all2 (numbered env ?s) [0..<length (sx_log ?s)] (sx_log ?s)" by (simp add: stream_inv_def)
  have "map (\<lambda>x. rh_Sequence (se_Header (fst x))) (sx_log ?s) = map int [0..<length (sx_log ?s)]"
    by (rule nth_equalityI) (use n in \<open>auto simp: list_all2_conv_all_nth numbered_def\<close>)
  moreover have "list_all (\<lambda>(x, b). rh_RequestID (se_Header x) = at_RequestID (rsr_Attribution request) \<and> lv_encode env x = Some b \<and>
        (if public then PublicRealtimeEvent (se_Event x) = se_Event x else True)) (sx_log ?s)"
  proof -
    have each: "\<exists>n. numbered env ?s n x" if "x \<in> set (sx_log ?s)" for x
      using n that by (auto simp: list_all2_conv_all_nth in_set_conv_nth)
    show ?thesis unfolding list_all_iff using each by (fastforce simp: numbered_def session_id_def run_frame)
  qed
  moreover have "list_all (\<lambda>(conn, b, ok). b \<in> set (map snd (sx_log ?s)) \<or>
        (if public then False else case sx_settlements ?s of
           [(reason, e, st)] \<Rightarrow> Some b = Option.bind (ss_Report st) (lv_encodeReport env) | _ \<Rightarrow> False)) (sx_writes ?s)"
    using run_frames [of env config request public sp first inputs] run_ending [of env config request public sp first inputs]
    unfolding frames_inv_def sent_frame_def list_all_iff ending_inv_def ended_def unsettled_def run_frame
    by (fastforce split: list.splits if_splits)
  ultimately show ?thesis using st by (simp add: stream_inv_def Let_def)
qed

text \<open>
  C13: A session settles exactly once. While it is open nothing is settled and its provider session is not closed; once it
  is closed there is one settlement, made from its totals with the outcome its end implies, announced by
  session.closed as its last event, and handed to the public ledger when it is a public session's; the provider
  session was closed once, no connection is attached, every timer is stopped, and nothing that still arrives
  changes anything.
\<close>

theorem session_settles_once:
  "let s = session_run env config request public sp first inputs;
       opening = os_opening (OpenSession (lv_session env) public (lv_rotation env) request)
   in if \<not> sx_closed s then sx_settlements s = [] \<and> sx_publicSettlements s = [] \<and> sx_upstreamCloses s = 0
      else session_run env config request public sp first (inputs @ later) = s \<and>
        (case sx_settlements s of
           [(reason, e, st)] \<Rightarrow>
             st = SettleSession (lv_session env) public opening e \<and>
             sne_Units e = totals (sx_units s) \<and> sne_ReportOutcome e = reportOutcome reason (sne_Units e \<noteq> []) (Opened opening) \<and>
             (if lv_encode env (closing_event s reason e (sx_sequence s)) = None then True
              else sx_log s \<noteq> [] \<and> fst (last (sx_log s)) = closing_event s reason e (sx_sequence s - 1)) \<and>
             sx_publicSettlements s = (if public \<and> sp then [st] else []) \<and>
             sx_upstreamCloses s = (if Opened opening then 1 else 0) \<and> sx_attached s = None \<and>
             sx_idle s = None \<and> sx_expiry s = None \<and> sx_resumeTimer s = None
         | _ \<Rightarrow> False)"
proof -
  let ?s = "session_run env config request public sp first inputs"
  note ending = run_ending [of env config request public sp first inputs, unfolded ending_inv_def]
  show ?thesis
  proof (cases "sx_closed ?s")
    case True
    from closed_stays [OF this] have "session_run env config request public sp first (inputs @ later) = ?s"
      by (simp add: session_run_def)
    with True ending show ?thesis
      by (cases "sx_settlements ?s"; cases "tl (sx_settlements ?s)") (auto simp: Let_def ended_def announced_def run_frame)
  next
    case False
    with ending show ?thesis by (simp add: unsettled_def)
  qed
qed

text \<open>
  C12: Each command reaches the provider at most once. The commands sent upstream have distinct ids; each satisfied the
  contract for this very session, and was acknowledged first: the last event numbered when it was sent is its own
  command.accepted (unless that event had no encoding). Each is neither a resume nor a close, nor on the internal lane an update that asks for
  input transcription. If a write leaves it unknown whether a command was applied, it is the last one: the
  session is over.
\<close>

theorem each_command_applied_at_most_once:
  "let s = session_run env config request public sp first inputs; sent = map fst (sx_sent s)
   in distinct (map rc_CommandID sent) \<and>
      list_all (\<lambda>c. validateRealtimeCommand c (at_RequestID (rsr_Attribution request)) = None \<and>
        CommandType (rc_Body c) \<noteq> ''session.resume'' \<and> rc_Body c \<noteq> SessionClose \<and>
        (if updates_transcription (rc_Body c) then public else True)) sent \<and>
      list_all2 (acknowledged env s) sent (sx_sentAt s) \<and>
      list_all (\<lambda>x. answered (snd x)) (if sx_closed s then butlast (sx_sent s) else sx_sent s)"
  using run_commands [of env config request public sp first inputs]
  by (auto simp: Let_def commands_inv_def list_all_iff sendable_def session_id_def run_frame comp_def)

text \<open>
  C16: No session passes its signed ceilings. The audio of the commands the provider took is at most the signed input
  audio; the audio of the events taken from the provider is at most the signed output audio; and the responses a
  client was told of are at most the signed responses. A session without an open route stays at zero.
\<close>

theorem signed_ceilings_hold:
  "let s = session_run env config request public sp first inputs; l = rsr_Limits request
   in audio_in (sx_sent s) \<le> max 0 (rsl_MaxInputAudioBytes l) \<and>
      sum_list (map audio_out (sx_taken s)) \<le> max 0 (rsl_MaxOutputAudioBytes l) \<and>
      responses_in (sx_log s) \<le> max 0 (rsl_MaxResponses l) \<and>
      sx_inputBytes s = audio_in (sx_sent s) \<and> sx_outputBytes s = sum_list (map audio_out (sx_taken s))"
  using run_ceilings [of env config request public sp first inputs]
  by (simp add: ceilings_inv_def run_frame Let_def)

text \<open>
  C10: A reconnecting client is sent exactly what it missed. A resume is honoured exactly while the session is open, the
  sequence it names was assigned, and every later event is still buffered, which is refused only when one more
  event would have passed a bound of the buffer. It numbers one event, session.resumed. The frames written to the new
  connection are, in order and byte for byte, the events after the named sequence, ending with that one: every
  write succeeded and the connection is attached, or the last write failed, every earlier one succeeded, and
  no connection is attached. A refused resume changes nothing.
\<close>

theorem resume_delivers_what_was_missed:
  "let s = session_run env config request public sp first inputs; k = ac_AfterSequence a; (s', refused) = resume env a s;
       events = map snd (sx_log s); held = length (rb_events (sx_replay s));
       resumed = Stamp \<lparr>rh_SchemaVersion = RealtimeSchemaVersion, rh_RequestID = at_RequestID (rsr_Attribution request),
         rh_Sequence = int (length events), rh_CommandID = Some (ac_CommandID a)\<rparr> (SessionResumedEvent k)
   in (if held = length events then True
       else over_bound (rcf_ReplayEvents config) (rcf_ReplayBytes config) (drop (length events - Suc held) events)) \<and>
      (if \<not> sx_closed s \<and> -1 \<le> k \<and> k < int (length events) \<and> int (length events) - (k + 1) \<le> int held
       then refused = None \<and>
         sx_log s' = sx_log s @ (case lv_encode env resumed of None \<Rightarrow> [] | Some b \<Rightarrow> [(resumed, b)]) \<and>
         (\<exists>ws. sx_writes s' = sx_writes s @ ws \<and> list_all (\<lambda>w. fst w = ac_ws a) ws \<and>
           prefix (map (fst \<circ> snd) ws) (drop (nat (k + 1)) (map snd (sx_log s'))) \<and> list_all (snd \<circ> snd) (butlast ws) \<and>
           (if sx_attached s' = None then ws \<noteq> [] \<and> \<not> snd (snd (last ws))
            else sx_attached s' = Some (ac_ws a) \<and> list_all (snd \<circ> snd) ws \<and>
              map (fst \<circ> snd) ws = drop (nat (k + 1)) (map snd (sx_log s'))))
       else refused \<noteq> None \<and> s' = s)"
proof -
  let ?s = "session_run env config request public sp first inputs"
  let ?k = "ac_AfterSequence a" and ?events = "map snd (sx_log ?s)" and ?held = "length (rb_events (sx_replay ?s))"
  let ?new = "log_entry env (SessionResumedEvent ?k) (Some (ac_CommandID a)) ?s" and ?s' = "fst (resume env a ?s)"
  have st: "stream_inv env ?s" by (rule run_stream)
  then have rp: "sx_replay ?s = pushed (rcf_ReplayEvents config) (rcf_ReplayBytes config) ?events"
    and seq: "sx_sequence ?s = int (length ?events)" by (simp_all add: stream_inv_def run_frame)
  note log = replay_refines_log [of "rcf_ReplayEvents config" "rcf_ReplayBytes config" ?events ?k, folded rp, unfolded Let_def]
  then have over: "if ?held = length ?events then True
      else over_bound (rcf_ReplayEvents config) (rcf_ReplayBytes config) (drop (length ?events - Suc ?held) ?events)" by blast
  from log have ra: "replay_after ?k (sx_sequence ?s) (sx_replay ?s) =
      (if -1 \<le> ?k \<and> ?k < int (length ?events) \<and> int (length ?events) - (?k + 1) \<le> int ?held
       then Some (drop (nat (?k + 1)) ?events) else None)" unfolding seq by blast
  show ?thesis
  proof (cases "\<not> sx_closed ?s \<and> -1 \<le> ?k \<and> ?k < int (length ?events) \<and> int (length ?events) - (?k + 1) \<le> int ?held")
    case False
    then have "sx_closed ?s \<or> replay_after ?k (sx_sequence ?s) (sx_replay ?s) = None" using ra by auto
    then have "\<exists>e. resume env a ?s = (?s, Some e)" by (cases "sx_closed ?s") (simp_all add: resume_def)
    then obtain e where e: "resume env a ?s = (?s, Some e)" by blast
    show ?thesis unfolding Let_def e prod.case if_not_P [OF False] using over by simp
  next
    case True
    then have m: "replay_after ?k (sx_sequence ?s) (sx_replay ?s) = Some (drop (nat (?k + 1)) ?events)" using ra by simp
    obtain ws where w: "sx_log ?s' = sx_log ?s @ ?new" "sx_writes ?s' = sx_writes ?s @ ws"
      "delivered (ac_ws a) (sx_attached ?s') ws (drop (nat (?k + 1)) ?events @ map snd ?new)"
      using resume_delivers [OF _ m refl refl] True by blast
    have "nat (?k + 1) \<le> length ?events" using True by (simp only: nat_le_iff) linarith
    then have due: "drop (nat (?k + 1)) (map snd (sx_log ?s')) = drop (nat (?k + 1)) ?events @ map snd ?new"
      by (simp add: w(1))
    note d = w(3) [folded due, unfolded delivered_def]
    have e: "resume env a ?s = (?s', None)" using m True by (simp add: resume_def Let_def)
    have new: "?new = (let resumed = Stamp \<lparr>rh_SchemaVersion = RealtimeSchemaVersion, rh_RequestID = at_RequestID (rsr_Attribution request),
         rh_Sequence = int (length ?events), rh_CommandID = Some (ac_CommandID a)\<rparr> (SessionResumedEvent ?k)
       in case lv_encode env resumed of None \<Rightarrow> [] | Some b \<Rightarrow> [(resumed, b)])"
      by (simp add: log_entry_def session_id_def run_frame seq PublicRealtimeEvent_def)
    show ?thesis unfolding Let_def
      by (subst e) (use over w(2) d w(1) [unfolded new Let_def] in \<open>simp only: prod.case if_P [OF True]; blast\<close>)
  qed
qed

text \<open>
  C30: An open session always has a clock running towards its end. While a session is open its duration timer is armed
  with the signed duration and its idle timer with the signed idle timeout, and its resume timer is armed with
  the resume window exactly while no connection is attached; each of them closes the session when it fires.
\<close>

theorem open_session_always_times_out:
  "let s = session_run env config request public sp first inputs; l = rsr_Limits request
   in (if sx_closed s then True
       else sx_expiry s = Some (rsl_MaxDurationMs l * millisecond) \<and> sx_idle s = Some (rsl_IdleTimeoutMs l * millisecond) \<and>
         sx_resumeTimer s = (if sx_attached s = None then Some (rcf_ResumeWindow config) else None)) \<and>
      sx_closed (session_step env ExpiryFires s) \<and> sx_closed (session_step env IdleFires s) \<and>
      sx_closed (session_step env ShuttingDown s) \<and>
      (if sx_attached s = None then sx_closed (session_step env ResumeFires s) else True)"
  using run_armed [of env config request public sp first inputs] run_timers [of env config request public sp first inputs]
  by (auto simp: Let_def armed_def timers_inv_def run_frame session_step_def serve_input_def session_finish_def)

text \<open>
  C18: Every session that opened settles with a valid report of exactly what was reported. Over a parsed inventory,
  once an opened session is closed, and if each quantity the provider reported or Kaana measured is non-negative,
  in a unit of the contract, and all of them together below the largest 64-bit integer, its usage report validates
  and its units are the units reported, each once, with the exact sum of what was reported for it.
\<close>

theorem closed_session_report_exact:
  assumes "inventory_Parse (Some f) maxAge = Inr (en_inventory (sn_exec (lv_session env)))"
    and "Opened (sx_opening (session_run env config request public sp first inputs))"
    and "sx_closed (session_run env config request public sp first inputs)"
    and "list_all (\<lambda>q. uq_Unit q \<in> set usageUnitValues \<and> 0 \<le> uq_Quantity q)
      (sx_reported (session_run env config request public sp first inputs))"
    and "sum_list (map uq_Quantity (sx_reported (session_run env config request public sp first inputs))) \<le> max_int64"
  shows "let s = session_run env config request public sp first inputs
    in case sx_settlements s of
         [(reason, e, st)] \<Rightarrow> ss_ReportError st = None \<and>
           (case ss_Report st of
              None \<Rightarrow> False
            | Some r \<Rightarrow> ur_RequestID r = at_RequestID (rsr_Attribution request) \<and>
                ur_Outcome r = reportOutcome reason (ur_Units r \<noteq> []) True \<and>
                distinct (map uq_Unit (ur_Units r)) \<and> set (map uq_Unit (ur_Units r)) = set (map uq_Unit (sx_reported s)) \<and>
                list_all (\<lambda>u. uq_Quantity u = reported_amount (uq_Unit u) (sx_reported s)) (ur_Units r))
       | _ \<Rightarrow> False"
proof -
  let ?s = "session_run env config request public sp first inputs"
  let ?o = "os_opening (OpenSession (lv_session env) public (lv_rotation env) request)"
  have opened: "Opened ?o" using assms(2) by (simp add: run_frame)
  have units: "sx_units ?s = add_units (sx_reported ?s) []" using run_counted by (simp add: counted_inv_def)
  have q: "\<forall>q \<in> set (sx_reported ?s). uq_Unit q \<in> set usageUnitValues \<and> 0 \<le> uq_Quantity q" using assms(4) by (simp add: list_all_iff)
  note exact = totals_exact [OF q assms(5), folded units]
  obtain reason e st where end': "sx_settlements ?s = [(reason, e, st)]" "st = SettleSession (lv_session env) public ?o e"
    "sne_Units e = totals (sx_units ?s)" "sne_UsageSource e \<in> {UsageProviderReported, UsageOxyMeasured}"
    "sne_ReportOutcome e = reportOutcome reason (sne_Units e \<noteq> []) True"
  proof -
    have "ended env ?s" using run_ending [of env config request public sp first inputs] assms(3) by (simp add: ending_inv_def)
    then show thesis by (rule endedE) (use opened that in \<open>auto simp: run_frame\<close>)
  qed
  have out: "sne_ReportOutcome e \<in> set requestOutcomeValues" "sne_ReportOutcome e = OutcomeCompleted \<Longrightarrow> sne_Units e \<noteq> []"
    unfolding end'(5) by (auto simp: reportOutcome_def requestOutcomeValues_def split: if_splits)
  have source: "sne_UsageSource e \<in> set (no_source # usageSourceValues)" using end'(4) by (auto simp: usageSourceValues_def)
  have "ss_ReportError st = None \<and> (case ss_Report st of None \<Rightarrow> False | Some r \<Rightarrow>
      ur_RequestID r = at_RequestID (rsr_Attribution request) \<and> ur_Units r = sne_Units e)"
    using opened_session_settles [OF assms(1) opened, of e public, OF _ source out] exact(1) end'
    by (auto simp: Let_def split: option.splits)
  moreover have "ur_Outcome r = sne_ReportOutcome e" if "ss_Report st = Some r" for r
    using that unfolding end'(2) by (auto simp: SettleSession_def session_report_def Let_def split: if_splits)
  ultimately show ?thesis using end'(1,3,5) exact(2,3) exact(1)
    by (auto simp: Let_def check_units_None split: option.splits)
qed

section \<open>A concrete session\<close>

definition demo_live_env :: "(unit, unit, nat) live_env" where
  "demo_live_env =
     \<lparr>lv_session = demo_session_env, lv_rotation = NewRegistry DefaultPolicy, lv_send = (\<lambda>_ _ _. None), lv_measured = (\<lambda>_. None),
      lv_parse = (\<lambda>_. Inl ''''), lv_describe = (\<lambda>_. ''''), lv_probe = (\<lambda>_. None), lv_encode = (\<lambda>e. Some (se_Type e)),
      lv_encodeReport = (\<lambda>_. Some ''report''), lv_written = (\<lambda>_. True), lv_now = (\<lambda>_ _. 63902822400000000002),
      lv_cancelled = (\<lambda>_. False), lv_shutdown = (\<lambda>_. False)\<rparr>"

definition demo_measure :: "int \<Rightarrow> session_input" where
  "demo_measure n = FromUpstream (Inr \<lparr>ru_Event = None, ru_CommandID = None, ru_Units = [\<lparr>uq_Unit = UnitInputTokens, uq_Quantity = n\<rparr>]\<rparr>)"

definition demo_run :: "nat session" where
  "demo_run = session_run demo_live_env \<lparr>rcf_ResumeWindow = 30 * second, rcf_ReplayEvents = 8192, rcf_ReplayBytes = 16777216\<rparr>
     demo_session_request False False 1 [demo_measure 3, demo_measure 4, ExpiryFires]"

lemma demo_run_opened: "Opened (sx_opening demo_run)"
  using demo_session_opens by (simp add: demo_run_def run_frame demo_live_env_def)

lemma demo_run_end:
  "sx_closed demo_run" "sx_reported demo_run = [\<lparr>uq_Unit = UnitInputTokens, uq_Quantity = 3\<rparr>, \<lparr>uq_Unit = UnitInputTokens, uq_Quantity = 4\<rparr>]"
proof -
  let ?c = "\<lparr>rcf_ResumeWindow = 30 * second, rcf_ReplayEvents = 8192, rcf_ReplayBytes = 16777216\<rparr>"
  let ?s0 = "session_start demo_live_env ?c demo_session_request False False 1"
  have s0: "\<not> sx_closed ?s0" "sx_reported ?s0 = []" "sx_expiry ?s0 \<noteq> None"
    using demo_session_opens
    by (simp_all add: session_start_def Let_def demo_live_env_def newSession_def connect_def)
  have m: "\<not> sx_closed (session_step demo_live_env (demo_measure n) s)"
    "sx_reported (session_step demo_live_env (demo_measure n) s) = sx_reported s @ [\<lparr>uq_Unit = UnitInputTokens, uq_Quantity = n\<rparr>]"
    "sx_expiry (session_step demo_live_env (demo_measure n) s) = sx_expiry s" if "\<not> sx_closed s" for n and s :: "nat session"
    using that by (simp_all add: session_step_def serve_input_def demo_measure_def upstream_def Let_def) (simp add: count_units_def)
  have e: "sx_closed (session_step demo_live_env ExpiryFires s)" "sx_reported (session_step demo_live_env ExpiryFires s) = sx_reported s"
    if "\<not> sx_closed s" "sx_expiry s \<noteq> None" for s :: "nat session"
    using that by (simp_all add: session_step_def serve_input_def session_finish_def finish_open_def Let_def measured_units_def
        demo_live_env_def count_units_def split: option.splits)
  show "sx_closed demo_run" "sx_reported demo_run = [\<lparr>uq_Unit = UnitInputTokens, uq_Quantity = 3\<rparr>, \<lparr>uq_Unit = UnitInputTokens, uq_Quantity = 4\<rparr>]"
    using s0 m e by (simp_all add: demo_run_def session_run_def)
qed

theorem closed_session_report_exact_witness:
  "case sx_settlements demo_run of
     [(reason, e, st)] \<Rightarrow> ss_ReportError st = None \<and>
       (case ss_Report st of None \<Rightarrow> False | Some r \<Rightarrow> list_all (\<lambda>u. uq_Quantity u = 7) (ur_Units r) \<and> ur_Units r \<noteq> [])
   | _ \<Rightarrow> False"
proof -
  note s = demo_run_opened demo_run_end
  have inv: "inventory_Parse (Some demo_inventory_file) hour = Inr (en_inventory (sn_exec (lv_session demo_live_env)))"
    using demo_inventory_parsed by (simp add: demo_live_env_def demo_session_env_def)
  have q: "list_all (\<lambda>q. uq_Unit q \<in> set usageUnitValues \<and> 0 \<le> uq_Quantity q) (sx_reported demo_run)"
    "sum_list (map uq_Quantity (sx_reported demo_run)) \<le> max_int64"
    by (simp_all add: s(3) usageUnitValues_def)
  note exact = closed_session_report_exact [OF inv s(1,2) [unfolded demo_run_def] q [unfolded demo_run_def], folded demo_run_def]
  have unit: "uq_Unit ` A = {u} \<Longrightarrow> x \<in> A \<Longrightarrow> u = uq_Unit x" for A u and x :: usage_quantity by auto
  show ?thesis using exact unfolding s(3) Let_def
    by (auto simp: reported_amount_def list_all_iff split: list.splits option.splits) (erule (1) unit)
qed

end
