(* ===== verification/Spec2Isabelle.thy ===== *)
theory Spec2Isabelle
  imports Execution Key_Walk Error_Contract Session_Guarantees
begin

text \<open>
  Kaana is an inference gateway. The edge (Oxy) sends it a signed envelope that names, in order, the
  exact deployments one request may run on; Kaana runs the request on them, streams normalized
  events, and settles what was used and what it cost. This development models the Go code that decides
  what runs, with which key, in which order, what the customer sees and what is settled, and proves
  what the rest of the system relies on.

  \<^bold>\<open>How the parts interact.\<close> \<open>internal/kaana/executor.go\<close> is the hub. It validates the envelope
  (\<open>internal/contract\<close>), resolves each signed route against the deployment inventory
  (\<open>internal/inventory\<close>), asks the breaker of a platform deployment (\<open>internal/rotation\<close>) or the
  limits of a customer key (\<open>internal/customerlimit\<close>) for a permit, resolves the adapter and its
  credentials (\<open>internal/provider/adapter.go\<close>, \<open>credential.go\<close>, \<open>funding.go\<close>), lets the adapter stream
  through the emitter (\<open>internal/kaana/emitter.go\<close>), classifies its failure
  (\<open>internal/provider/errors.go\<close>), retries or fails over, and settles: a usage report
  (\<open>internal/contract/usage.go\<close>), an estimate when nothing was reported
  (\<open>internal/kaana/usage_estimate.go\<close>) and an operator cost record (\<open>internal/providercost\<close>).

  \<^bold>\<open>Theories, source, and how state corresponds.\<close>
  \<^item> \<open>Kaana_Prelude\<close>: instants and durations as integers of nanoseconds with the 64-bit wrap-around
    (\<open>int64\<close>) where the source can overflow, generic list and option lemmas. \<open>Go_Strings\<close>, \<open>Go_Regexp\<close>,
    \<open>Go_Numbers\<close>, \<open>Go_Json\<close>, \<open>Go_Base64\<close>, \<open>Go_Time\<close>: the standard library as far as the code uses it.
  \<^item> \<open>Admission_Lane\<close>: the locale of a keyed admission lane, interpreted by \<open>Rotation\<close>
    (\<open>internal/rotation/rotation.go\<close>: a map of breakers, \<open>Admit\<close>, permit reports, \<open>SoonestProbe\<close>, \<open>Retain\<close>)
    and by \<open>Customer_Limit\<close> (\<open>internal/customerlimit/customerlimit.go\<close>).
  \<^item> \<open>Contract_Errors\<close>, \<open>Contract_Usage\<close>, \<open>Contract_Request\<close>, \<open>Realtime_Parameters\<close>: the wire contract: error
    bodies and their builders, usage reports, the request envelope with its whole validation, realtime
    parameters. \<open>Error_Contract\<close> states the published contract of an error body (the schemas of
    \<open>packages/contracts/src/internal/errors.ts\<close>) and what of it the builders guarantee.
  \<^item> \<open>Provider_Failure\<close> (\<open>internal/provider/errors.go\<close>), \<open>Funding\<close>, \<open>Key_Pool\<close>, \<open>Key_Walk\<close>
    (\<open>funding.go\<close>, \<open>credential.go\<close>): failures and who they are attributed to; the pool of platform keys, its
    views, leasing, retirement and quota headers; the walk of one request over the keys, with what an
    exchange answers and what other requests do to the pool as parameters of each turn.
  \<^item> \<open>Parameters\<close>, \<open>Inventory_Realtime\<close>, \<open>Inventory\<close> (\<open>internal/provider/parameters.go\<close>,
    \<open>internal/inventory\<close>): the rows of a snapshot, their validation, the indexes built from them, resolution
    and the catalogue.
  \<^item> \<open>Money\<close>, \<open>Provider_Cost\<close> (\<open>internal/providercost\<close>): exact decimal amounts, rate cards and the measurement
    of a request. \<open>Usage_Estimate\<close>, \<open>Emitter\<close>: the estimate and the event stream with its log.
  \<^item> \<open>Adapter_Registry\<close> (\<open>internal/provider/adapter.go\<close>): registration and the credential a deployment
    executes with. An adapter is a parameter: a tree of emitter calls, each continuing with the answer it got.
  \<^item> \<open>Route_Resolution\<close>, \<open>Executor\<close>, \<open>Execution\<close> (\<open>internal/kaana/executor.go\<close>): resolution of the signed list,
    the loop with all its exits as one function \<open>execute\<close>, and the theorems about it.
  \<^item> \<open>Go_Base64_Stream\<close>, \<open>Realtime_Contract\<close>, \<open>Realtime_Events\<close> (\<open>internal/contract/realtime.go\<close>,
    \<open>realtime_wire.go\<close>, \<open>public.go\<close>): the session request, audio frames over the streaming base64 decoder, the
    commands and events of a session, public errors and the projection of events onto the public surface.
  \<^item> \<open>Executor_Session\<close> (\<open>internal/kaana/session.go\<close>): a session tries its signed routes until one opens
    (\<open>OpenSession\<close>, a loop over the same resolution, breakers and registry), and is settled when it ends.
  \<^item> \<open>Realtime_Replay\<close> (\<open>internal/realtime/replay.go\<close>): the bounded buffer of sent events, and that it holds the end
    of the log. \<open>Realtime_Session\<close> (\<open>internal/realtime/session.go\<close>): the session goroutine, whose fields are the
    record \<open>session\<close>, with history variables for what it did; \<open>session_step\<close> is one round of its loop over a
    \<open>session_input\<close> (a frame, an event of the provider, a resume, a timer, a shutdown), \<open>session_run\<close> the loop. The
    inductive relation \<open>session_move\<close> lists the moves every round is made of, each with the guard the code
    checked. \<open>Session_Guarantees\<close>: the invariants of the moves, and the properties of whole runs.

  \<^bold>\<open>What the theorems show.\<close> About a whole execution, for every sink, adapter, clock, and whatever other
  requests do in between: only signed routes run, in the signed order, at most retries + 1 times each;
  nothing is retried or moved once output reached the customer, and only for failures of a deployment;
  the events are a run of the stream grammar and reports count the announced switches; each attempt
  spends a granted credential within its funding ceiling; every attempt is in the cost record and
  settles; customer and platform lanes do not touch each other. They are instances of the locale
  \<open>exec_guarantee\<close>, interpreted on \<open>execute\<close>, and rest on the shape every turn of the loop has. About
  the components: the walk ends, stays in its view and retires only keys that were reported; breakers
  are bounded, isolated and readmit within the maximal cooldown; a throttle's window is honoured under any
  traffic; an error body that can be built is acceptable unless what its caller supplied is not; a validated envelope, a resolved candidate and a built pool are well formed; resolution
  through the indexes is resolution on the declared rows; totals and decimals are exact. About a realtime
  session, for every client, provider, timer and failed write: it opens on a signed route or is refused, and
  each dialled open has its row; its events are numbered without a gap and a public session shows no provider;
  a resume replays exactly what was missed; a command is acknowledged, then sent, and sent once; the signed
  ceilings hold; a clock always runs towards its end; and it settles once, with the exact totals.

  \<^bold>\<open>Bounds, termination and parameters.\<close> No fuel is used: the walk ends because it tries a key once, the
  executor's loop because a repeated turn uses one of the policy's retries (its measure is the remaining
  candidates and the retries left). Clocks, the request context, random numbers and the shared registries
  are functions of a turn and a numbered site of it, so that no two readings need agree. Floating-point
  health scores are rationals; strings are byte strings. What is outside the repository (the sink, the
  key store behind a customer credential, the rendering of wrapped errors) is an argument of the
  definitions that use it.

  \<^bold>\<open>Not modelled.\<close> HTTP, SQL, cryptography and process start-up (\<open>httpapi\<close>, \<open>publicapi\<close>, \<open>credentialstore\<close>,
  \<open>edgeauth\<close>, \<open>awssig\<close>, \<open>workloadidentity\<close>, \<open>cmd\<close>): they are glue around services the development cannot
  read. The adapters of single providers and the publisher translate provider JSON; the executor is
  proved for every adapter instead. The manager of realtime sessions, with its connection upgrade, peers and drain
  (\<open>internal/realtime/manager.go\<close>, \<open>peers.go\<close>, \<open>public.go\<close>), the audio probe, and the grant and credential shapes of
  the contract are not modelled. Log lines, metrics and request timing have
  no effect on a result and are left out.
\<close>

end
